(* ===== verification/Vaprs_Prelude.thy ===== *)
theory Vaprs_Prelude
  imports Complex_Main "HOL-Library.Word" "HOL-Library.Monad_Syntax"
begin

text \<open>
  What the components share: the machine types, Rust's \<open>str\<close> operations on UTF-8 bytes,
  integer parsing and printing, time, and the collections of simplification rules.

  A Rust \<open>str\<close> is a list of bytes that is valid UTF-8; it is modelled as a HOL
  \<^typ>\<open>string\<close> whose characters are those bytes, so \<open>len()\<close> is \<^const>\<open>length\<close>
  and a byte index is a list index. Slicing a \<open>str\<close> off a character boundary or past
  its end panics: such an operation has the type \<open>'a may_panic\<close> below, and \<^const>\<open>None\<close>
  is the panic (the release profile sets \<open>panic = "abort"\<close>, so a panic ends the process).
\<close>

unbundle bit_operations_syntax

type_synonym u8 = "8 word"
type_synonym u16 = "16 word"
type_synonym u32 = "32 word"
type_synonym u64 = "64 word"

text \<open>\<^const>\<open>None\<close> is a panic, \<^const>\<open>Some\<close> a normal return.\<close>

type_synonym 'a may_panic = "'a option"

text \<open>Durations and instants are nanoseconds; \<open>Instant::duration_since\<close> saturates at 0, as
  the subtraction of \<^typ>\<open>nat\<close> does.\<close>

type_synonym duration = nat
type_synonym instant = nat

text \<open>An \<open>f64\<close> is modelled by the exact rational it approximates: arithmetic is not
  rounded. Where the source compares floats, the values compared are short decimals and small
  integers, on which the rounding does not change the outcome.\<close>

type_synonym f64 = rat

definition from_secs :: "nat \<Rightarrow> duration" where
  "from_secs s = s * 1000000000"

definition duration_since :: "instant \<Rightarrow> instant \<Rightarrow> duration" where
  "duration_since now earlier = now - earlier"

named_theorems rust_str \<open>equations of the str operations\<close>
named_theorems rust_num \<open>facts on integer parsing, printing and widths\<close>
named_theorems total_intros \<open>introduction rules for the absence of panics\<close>
named_theorems clean_intros \<open>introduction rules for strings free of line breaks\<close>

section \<open>Bytes and characters\<close>

definition byte_of :: "char \<Rightarrow> u8" where
  "byte_of c = of_char c"

definition char_of_byte :: "u8 \<Rightarrow> char" where
  "char_of_byte b = char_of (unat b)"

text \<open>\<open>as_bytes\<close>.\<close>

definition as_bytes :: "string \<Rightarrow> u8 list" where
  "as_bytes s = map byte_of s"

lemma byte_of_char_of_byte [simp]: "byte_of (char_of_byte b) = b"
proof -
  have "unat b < 256" using unsigned_less [of b, where 'a = nat] by simp
  then have "of_char (char_of (unat b)) = unat b" by simp
  then have "(of_char (char_of (unat b)) :: u8) = of_nat (unat b)"
    by (metis of_nat_of_char)
  then show ?thesis by (simp add: byte_of_def char_of_byte_def)
qed

lemma char_of_byte_of [simp]: "char_of_byte (byte_of c) = c"
proof -
  have "unat (of_char c :: u8) = of_char c"
  proof -
    have "(of_char c :: nat) < 256" by simp
    then have "unat (of_nat (of_char c) :: u8) = of_char c"
      by (simp add: unat_of_nat)
    then show ?thesis by (simp add: of_nat_of_char)
  qed
  then show ?thesis by (simp add: byte_of_def char_of_byte_def)
qed

lemma length_as_bytes [simp]: "length (as_bytes s) = length s"
  by (simp add: as_bytes_def)

text \<open>\<open>String::push(b as char)\<close> for a byte \<open>b\<close>: the code point \<open>b\<close> in UTF-8,
  two bytes from \<open>0x80\<close> on.\<close>

definition utf8_of_byte :: "u8 \<Rightarrow> string" where
  "utf8_of_byte b =
     (if unat b < 128 then [char_of_byte b]
      else [char_of (192 + unat b div 64 :: nat), char_of (128 + unat b mod 64 :: nat)])"

definition is_ascii_digit :: "char \<Rightarrow> bool" where
  "is_ascii_digit c \<longleftrightarrow> (48::nat) \<le> of_char c \<and> (of_char c :: nat) \<le> 57"

definition is_ascii_uppercase :: "char \<Rightarrow> bool" where
  "is_ascii_uppercase c \<longleftrightarrow> (65::nat) \<le> of_char c \<and> (of_char c :: nat) \<le> 90"

definition is_ascii_char :: "char \<Rightarrow> bool" where
  "is_ascii_char c \<longleftrightarrow> (of_char c :: nat) < 128"

text \<open>A UTF-8 continuation byte.\<close>

definition is_cont :: "char \<Rightarrow> bool" where
  "is_cont c \<longleftrightarrow> (128::nat) \<le> of_char c \<and> (of_char c :: nat) < 192"

section \<open>Slices of a str\<close>

text \<open>\<open>str::is_char_boundary\<close> and the slices \<open>&s[a..b]\<close>, \<open>&s[a..]\<close>, \<open>&s[..b]\<close>.\<close>

definition is_char_boundary :: "string \<Rightarrow> nat \<Rightarrow> bool" where
  "is_char_boundary s i \<longleftrightarrow> i = 0 \<or> i = length s \<or> (i < length s \<and> \<not> is_cont (s ! i))"

definition str_slice :: "string \<Rightarrow> nat \<Rightarrow> nat \<Rightarrow> string may_panic" where
  "str_slice s a b =
     (if a \<le> b \<and> b \<le> length s \<and> is_char_boundary s a \<and> is_char_boundary s b
      then Some (take (b - a) (drop a s)) else None)"

definition str_from :: "string \<Rightarrow> nat \<Rightarrow> string may_panic" where
  "str_from s a = (if a \<le> length s \<and> is_char_boundary s a then Some (drop a s) else None)"

definition str_to :: "string \<Rightarrow> nat \<Rightarrow> string may_panic" where
  "str_to s b = (if b \<le> length s \<and> is_char_boundary s b then Some (take b s) else None)"

lemma str_from_0 [simp]: "str_from s 0 = Some s"
  by (simp add: str_from_def is_char_boundary_def)

lemma str_to_0 [simp]: "str_to s 0 = Some []"
  by (simp add: str_to_def is_char_boundary_def)

lemma ascii_not_cont: "is_ascii_char c \<Longrightarrow> \<not> is_cont c"
  by (simp add: is_ascii_char_def is_cont_def)

lemma ascii_boundary:
  assumes "\<forall>c\<in>set s. is_ascii_char c" "i \<le> length s"
  shows "is_char_boundary s i"
  using assms ascii_not_cont by (cases "i = length s") (auto simp: is_char_boundary_def)

lemma str_slice_ascii:
  assumes "\<forall>c\<in>set s. is_ascii_char c"
  shows "str_slice s a b = (if a \<le> b \<and> b \<le> length s then Some (take (b - a) (drop a s)) else None)"
  using ascii_boundary [OF assms] by (auto simp: str_slice_def)

lemma str_from_ascii:
  assumes "\<forall>c\<in>set s. is_ascii_char c"
  shows "str_from s a = (if a \<le> length s then Some (drop a s) else None)"
  using ascii_boundary [OF assms] by (auto simp: str_from_def)

text \<open>Slices between parts that start on a character.\<close>

definition starts_char :: "string \<Rightarrow> bool" where
  "starts_char s \<longleftrightarrow> s = [] \<or> \<not> is_cont (hd s)"

lemma boundary_append: "starts_char b \<Longrightarrow> is_char_boundary (a @ b) (length a)"
  by (cases b) (auto simp: starts_char_def is_char_boundary_def nth_append)

lemma str_slice_mid:
  assumes "starts_char (b @ d)" "starts_char d"
  shows "str_slice (a @ b @ d) (length a) (length a + length b) = Some b"
  using boundary_append [OF assms(1), of a] boundary_append [OF assms(2), of "a @ b"]
  by (simp add: str_slice_def)

lemma str_from_mid: "starts_char b \<Longrightarrow> str_from (a @ b) (length a) = Some b"
  using boundary_append [of b a] by (simp add: str_from_def)

text \<open>Absence of panics, by rules on the shape of the code.\<close>

definition no_panic :: "'a may_panic \<Rightarrow> bool" where
  "no_panic x \<longleftrightarrow> x \<noteq> None"

definition all_ascii :: "string \<Rightarrow> bool" where
  "all_ascii s \<longleftrightarrow> (\<forall>c\<in>set s. is_ascii_char c)"

lemma no_panic_Some [total_intros]: "no_panic (Some a)"
  by (simp add: no_panic_def)

lemma no_panic_if [total_intros]:
  "(c \<Longrightarrow> no_panic x) \<Longrightarrow> (\<not> c \<Longrightarrow> no_panic y) \<Longrightarrow> no_panic (if c then x else y)"
  by simp

lemma no_panic_bind [total_intros]:
  "no_panic x \<Longrightarrow> (\<And>v. x = Some v \<Longrightarrow> no_panic (f v)) \<Longrightarrow> no_panic (x \<bind> f)"
  by (auto simp: no_panic_def)

lemma no_panic_Let [total_intros]: "(\<And>v. v = b \<Longrightarrow> no_panic (f v)) \<Longrightarrow> no_panic (Let b f)"
  by simp

lemma no_panic_prod [total_intros]:
  "(\<And>v w. p = (v, w) \<Longrightarrow> no_panic (g v w)) \<Longrightarrow> no_panic (case p of (v, w) \<Rightarrow> g v w)"
  by (cases p) simp

lemma no_panic_option [total_intros]:
  "(x = None \<Longrightarrow> no_panic y) \<Longrightarrow> (\<And>v. x = Some v \<Longrightarrow> no_panic (f v))
    \<Longrightarrow> no_panic (case x of None \<Rightarrow> y | Some v \<Rightarrow> f v)"
  by (cases x) simp_all

lemma no_panic_map [total_intros]: "no_panic x \<Longrightarrow> no_panic (map_option h x)"
  by (simp add: no_panic_def)

lemma no_panic_slices [total_intros]:
  "all_ascii s \<Longrightarrow> a \<le> b \<Longrightarrow> b \<le> length s \<Longrightarrow> no_panic (str_slice s a b)"
  "all_ascii s \<Longrightarrow> a \<le> length s \<Longrightarrow> no_panic (str_from s a)"
  unfolding all_ascii_def no_panic_def by (simp_all add: str_slice_ascii str_from_ascii)

lemma slice_ascii: "str_slice s a b = Some t \<Longrightarrow> all_ascii s \<Longrightarrow> all_ascii t \<and> length t = b - a"
  by (auto simp: str_slice_def all_ascii_def split: if_splits dest: in_set_takeD in_set_dropD)

lemma from_ascii: "str_from s a = Some t \<Longrightarrow> all_ascii s \<Longrightarrow> all_ascii t \<and> length t = length s - a"
  by (auto simp: str_from_def all_ascii_def split: if_splits dest: in_set_dropD)

section \<open>Searching, splitting, stripping\<close>

text \<open>The position of the first (\<open>find\<close>) and the last (\<open>rfind\<close>) byte that satisfies a
  predicate. The source only searches for ASCII characters, so bytes and characters agree.\<close>

fun str_find :: "(char \<Rightarrow> bool) \<Rightarrow> string \<Rightarrow> nat option" where
  "str_find p [] = None"
| "str_find p (c # cs) = (if p c then Some 0 else map_option Suc (str_find p cs))"

definition str_rfind :: "(char \<Rightarrow> bool) \<Rightarrow> string \<Rightarrow> nat option" where
  "str_rfind p s = map_option (\<lambda>i. length s - 1 - i) (str_find p (rev s))"

text \<open>\<open>str::split\<close> by one ASCII character: always at least one piece.\<close>

fun str_split :: "(char \<Rightarrow> bool) \<Rightarrow> string \<Rightarrow> string list" where
  "str_split p [] = [[]]"
| "str_split p (c # cs) =
     (if p c then [] # str_split p cs
      else (case str_split p cs of [] \<Rightarrow> [[c]] | x # xs \<Rightarrow> (c # x) # xs))"

definition split_once :: "char \<Rightarrow> string \<Rightarrow> (string \<times> string) option" where
  "split_once c s =
     (case str_find (\<lambda>x. x = c) s of
        None \<Rightarrow> None
      | Some i \<Rightarrow> Some (take i s, drop (Suc i) s))"

definition starts_with :: "string \<Rightarrow> string \<Rightarrow> bool" where
  "starts_with s p \<longleftrightarrow> take (length p) s = p"

definition strip_prefix :: "string \<Rightarrow> string \<Rightarrow> string option" where
  "strip_prefix p s = (if starts_with s p then Some (drop (length p) s) else None)"

definition ends_with_char :: "char \<Rightarrow> string \<Rightarrow> bool" where
  "ends_with_char c s \<longleftrightarrow> s \<noteq> [] \<and> last s = c"

definition strip_suffix_char :: "char \<Rightarrow> string \<Rightarrow> string option" where
  "strip_suffix_char c s = (if ends_with_char c s then Some (butlast s) else None)"

text \<open>\<open>trim_end_matches(c)\<close>.\<close>

definition trim_end_matches :: "char \<Rightarrow> string \<Rightarrow> string" where
  "trim_end_matches c s = rev (dropWhile (\<lambda>x. x = c) (rev s))"

text \<open>The first element of an iterator, or the default of \<open>unwrap_or\<close>.\<close>

definition nth_opt :: "'a list \<Rightarrow> nat \<Rightarrow> 'a option" where
  "nth_opt xs i = (if i < length xs then Some (xs ! i) else None)"

definition unwrap_or :: "'a option \<Rightarrow> 'a \<Rightarrow> 'a" where
  "unwrap_or x d = (case x of None \<Rightarrow> d | Some y \<Rightarrow> y)"

lemma nth_opt_simps [simp]:
  "nth_opt [] i = None" "nth_opt (x # xs) 0 = Some x" "nth_opt (x # xs) (Suc i) = nth_opt xs i"
  by (auto simp: nth_opt_def)

lemma unwrap_or_simps [simp]: "unwrap_or None d = d" "unwrap_or (Some x) d = x"
  by (auto simp: unwrap_or_def)

lemma str_find_None: "str_find p s = None \<longleftrightarrow> (\<forall>c\<in>set s. \<not> p c)"
  by (induction s) auto

lemma str_find_Some:
  "str_find p s = Some i \<Longrightarrow> i < length s \<and> p (s ! i) \<and> (\<forall>c\<in>set (take i s). \<not> p c)"
  by (induction s arbitrary: i) (auto split: if_splits)

lemma str_find_append [rust_str]:
  "\<forall>c\<in>set s. \<not> p c \<Longrightarrow> p d \<Longrightarrow> str_find p (s @ d # t) = Some (length s)"
  by (induction s) auto

lemma str_find_eq_takeWhile: "str_find p s = Some i \<Longrightarrow> take i s = takeWhile (\<lambda>c. \<not> p c) s"
  by (induction s arbitrary: i) (auto split: if_splits)

lemma str_split_nonempty [simp]: "str_split p s \<noteq> []"
  by (induction s) (auto split: list.splits)

lemma str_split_no_sep [rust_str]: "\<forall>c\<in>set s. \<not> p c \<Longrightarrow> str_split p s = [s]"
  by (induction s) auto

lemma str_split_append [rust_str]:
  "\<forall>c\<in>set s. \<not> p c \<Longrightarrow> p d \<Longrightarrow> str_split p (s @ d # t) = s # str_split p t"
  by (induction s) auto

text \<open>The same for the search of one character.\<close>

lemma find_char [rust_str]:
  "c \<notin> set s \<Longrightarrow> str_find (\<lambda>x. x = c) s = None"
  "c \<notin> set s \<Longrightarrow> str_find (\<lambda>x. x = c) (s @ c # t) = Some (length s)"
  by (induction s) auto

lemma split_char [rust_str]:
  "c \<notin> set s \<Longrightarrow> str_split (\<lambda>x. x = c) s = [s]"
  "c \<notin> set s \<Longrightarrow> str_split (\<lambda>x. x = c) (s @ c # t) = s # str_split (\<lambda>x. x = c) t"
  by (induction s) auto

lemma takeWhile_char [rust_str]:
  "c \<notin> set s \<Longrightarrow> takeWhile (\<lambda>x. x \<noteq> c) (s @ t) = s @ takeWhile (\<lambda>x. x \<noteq> c) t"
  by (induction s) auto

lemma takeWhile_two_chars [rust_str]:
  "c \<notin> set s \<Longrightarrow> d \<notin> set s \<Longrightarrow>
   takeWhile (\<lambda>x. x \<noteq> c \<and> x \<noteq> d) (s @ t) = s @ takeWhile (\<lambda>x. x \<noteq> c \<and> x \<noteq> d) t"
  by (induction s) auto

lemma str_split_hd: "hd (str_split p s) = takeWhile (\<lambda>c. \<not> p c) s"
proof (induction s)
  case (Cons c cs)
  then show ?case by (cases "str_split p cs") auto
qed simp

lemma str_split_Cons: "str_split p s = takeWhile (\<lambda>c. \<not> p c) s # tl (str_split p s)"
  using str_split_hd [of p s] by (cases "str_split p s") auto

lemma str_split_pieces: "x \<in> set (str_split p s) \<Longrightarrow> c \<in> set x \<Longrightarrow> \<not> p c"
proof (induction s arbitrary: x)
  case (Cons d ds)
  then show ?case
    by (cases "str_split p ds") (fastforce split: if_splits)+
qed simp

lemma str_split_subset: "x \<in> set (str_split p s) \<Longrightarrow> set x \<subseteq> set s"
proof (induction s arbitrary: x)
  case (Cons c cs)
  then show ?case
    by (cases "str_split p cs") (fastforce split: if_splits)+
qed simp

text \<open>The pieces of a split joined again, and the last occurrence of a character.\<close>

definition joined :: "char \<Rightarrow> string list \<Rightarrow> string" where
  "joined c xs = concat (map (\<lambda>x. c # x) xs)"

lemma joined_simps [simp]: "joined c [] = []" "joined c (x # xs) = c # x @ joined c xs"
  "joined c (xs @ ys) = joined c xs @ joined c ys"
  by (simp_all add: joined_def)

lemma in_set_joined [simp]: "d \<in> set (joined c xs) \<longleftrightarrow> d = c \<and> xs \<noteq> [] \<or> (\<exists>x\<in>set xs. d \<in> set x)"
  by (induction xs) auto

lemma split_joined:
  "c \<notin> set s \<Longrightarrow> \<forall>x\<in>set xs. c \<notin> set x \<Longrightarrow> str_split (\<lambda>x. x = c) (s @ joined c xs) = s # xs"
  by (induction xs arbitrary: s) (simp_all add: split_char)

lemma joined_split:
  "hd (str_split (\<lambda>x. x = c) s) @ joined c (tl (str_split (\<lambda>x. x = c) s)) = s"
proof (induction s)
  case (Cons d s)
  then show ?case by (cases "str_split (\<lambda>x. x = c) s") auto
qed simp

lemma rfind_char [rust_str]:
  "c \<notin> set t \<Longrightarrow> str_rfind (\<lambda>x. x = c) (s @ c # t) = Some (length s)"
  by (simp add: str_rfind_def find_char)

lemma trim_end_matches_snoc [simp]: "trim_end_matches c (s @ [c]) = trim_end_matches c s"
  by (simp add: trim_end_matches_def)

lemma trim_end_matches_idem [simp]: "trim_end_matches c (trim_end_matches c s) = trim_end_matches c s"
  by (simp add: trim_end_matches_def dropWhile_idem)

lemma trim_end_matches_prefix: "\<exists>t. s = trim_end_matches c s @ t"
proof -
  have "rev s = takeWhile (\<lambda>x. x = c) (rev s) @ dropWhile (\<lambda>x. x = c) (rev s)" by simp
  then have "s = rev (dropWhile (\<lambda>x. x = c) (rev s)) @ rev (takeWhile (\<lambda>x. x = c) (rev s))"
    by (metis rev_append rev_rev_ident)
  then show ?thesis unfolding trim_end_matches_def by blast
qed

lemma starts_with_append [simp]: "starts_with (p @ s) p"
  by (simp add: starts_with_def)

lemma starts_with_Nil [simp]: "starts_with s []"
  by (simp add: starts_with_def)

lemma starts_with_Cons [simp]:
  "starts_with (c # s) (d # p) \<longleftrightarrow> c = d \<and> starts_with s p" "\<not> starts_with [] (d # p)"
  by (auto simp: starts_with_def)

lemma starts_withD: "starts_with s p \<Longrightarrow> \<exists>t. s = p @ t"
  by (metis append_take_drop_id starts_with_def)

lemma strip_prefix_Some: "strip_prefix p s = Some t \<longleftrightarrow> s = p @ t"
  by (auto simp: strip_prefix_def dest: starts_withD)

text \<open>Text between single quotes, as the error messages print it.\<close>

definition quoted :: "string \<Rightarrow> string" where
  "quoted s = CHR 0x27 # s @ [CHR 0x27]"

section \<open>Lines\<close>

text \<open>Text without a line feed or carriage return.\<close>

definition line_free :: "string \<Rightarrow> bool" where
  "line_free s \<longleftrightarrow> CHR 0x0A \<notin> set s \<and> CHR 0x0D \<notin> set s"

lemma line_free_append [simp]: "line_free (s @ t) \<longleftrightarrow> line_free s \<and> line_free t"
  and line_free_Nil [simp]: "line_free []"
  by (auto simp: line_free_def)

text \<open>
  The interface of a routine that makes any text safe to send as one line of a protocol whose lines
  end in CR LF. The promise to the peer: it reads as many lines as were sent.
\<close>

definition CRLF :: string where
  "CRLF = [CHR 0x0D, CHR 0x0A]"

locale line_sanitizer =
  fixes san :: "string \<Rightarrow> string"
  assumes san_free: "line_free (san s)"
    and san_id: "line_free s \<Longrightarrow> san s = s"
begin

lemma san_idem: "san (san s) = san s"
  by (rule san_id [OF san_free])

lemma framed_free: "line_free s \<Longrightarrow> line_free t \<Longrightarrow> line_free (s @ san u @ t)"
  by (simp add: san_free)

lemma wire_lines:
  "str_split (\<lambda>c. c = CHR 0x0A) (concat (map (\<lambda>s. san s @ CRLF) ss)) = map (\<lambda>s. san s @ [CHR 0x0D]) ss @ [[]]"
proof (induction ss)
  case (Cons s ss)
  have "CHR 0x0A \<notin> set (san s @ [CHR 0x0D])" using san_free [of s] by (simp add: line_free_def)
  from split_char(2) [OF this] Cons show ?case by (simp add: CRLF_def)
qed simp

end

section \<open>Case folding and white space\<close>

text \<open>
  \<open>str::to_uppercase\<close> on ASCII and on the Latin-1 letters (the code points up to
  \<open>U+00FF\<close>, which are two bytes in UTF-8; sharp s becomes SS, the micro sign and
  y with diaeresis leave Latin-1). Code points from \<open>U+0100\<close> on are left as they are: every
  call sign the radio side decodes is ASCII, and every payload byte is below \<open>U+0100\<close>.
\<close>

definition ascii_upper :: "char \<Rightarrow> char" where
  "ascii_upper c = (if (97::nat) \<le> of_char c \<and> (of_char c :: nat) \<le> 122
                    then char_of (of_char c - 32 :: nat) else c)"

fun to_uppercase :: "string \<Rightarrow> string" where
  "to_uppercase [] = []"
| "to_uppercase [c] = [ascii_upper c]"
| "to_uppercase (c # d # s) =
     (if c = CHR 0xC2 \<and> d = CHR 0xB5 then CHR 0xCE # CHR 0x9C # to_uppercase s
      else if c = CHR 0xC3 \<and> d = CHR 0x9F then CHR ''S'' # CHR ''S'' # to_uppercase s
      else if c = CHR 0xC3 \<and> d = CHR 0xBF then CHR 0xC5 # CHR 0xB8 # to_uppercase s
      else if c = CHR 0xC3 \<and> (160::nat) \<le> of_char d \<and> (of_char d :: nat) \<le> 190 \<and> d \<noteq> CHR 0xB7
           then c # char_of (of_char d - 32 :: nat) # to_uppercase s
      else ascii_upper c # to_uppercase (d # s))"

lemma to_uppercase_ascii: "\<forall>c\<in>set s. is_ascii_char c \<Longrightarrow> to_uppercase s = map ascii_upper s"
  by (induction s rule: to_uppercase.induct) (auto simp: is_ascii_char_def)

lemma ascii_upper_idem [simp]: "ascii_upper (ascii_upper c) = ascii_upper c"
  by (auto simp: ascii_upper_def)

text \<open>The encodings of the characters with the Unicode property White_Space, which
  \<open>trim\<close>, \<open>trim_end\<close> and \<open>split_whitespace\<close> drop.\<close>

definition white_space :: "string list" where
  "white_space =
     [[CHR 0x09], [CHR 0x0A], [CHR 0x0B], [CHR 0x0C], [CHR 0x0D], [CHR 0x20],
      [CHR 0xC2, CHR 0x85], [CHR 0xC2, CHR 0xA0], [CHR 0xE1, CHR 0x9A, CHR 0x80],
      [CHR 0xE2, CHR 0x80, CHR 0x80], [CHR 0xE2, CHR 0x80, CHR 0x81],
      [CHR 0xE2, CHR 0x80, CHR 0x82], [CHR 0xE2, CHR 0x80, CHR 0x83],
      [CHR 0xE2, CHR 0x80, CHR 0x84], [CHR 0xE2, CHR 0x80, CHR 0x85],
      [CHR 0xE2, CHR 0x80, CHR 0x86], [CHR 0xE2, CHR 0x80, CHR 0x87],
      [CHR 0xE2, CHR 0x80, CHR 0x88], [CHR 0xE2, CHR 0x80, CHR 0x89],
      [CHR 0xE2, CHR 0x80, CHR 0x8A], [CHR 0xE2, CHR 0x80, CHR 0xA8],
      [CHR 0xE2, CHR 0x80, CHR 0xA9], [CHR 0xE2, CHR 0x80, CHR 0xAF],
      [CHR 0xE2, CHR 0x81, CHR 0x9F], [CHR 0xE3, CHR 0x80, CHR 0x80]]"

text \<open>The length of the encoding from a table that a string starts with, 0 if there is none.\<close>

definition leading :: "string list \<Rightarrow> string \<Rightarrow> nat" where
  "leading ws s = (case find (\<lambda>e. starts_with s e) ws of None \<Rightarrow> 0 | Some e \<Rightarrow> length e)"

function trim_leading :: "string list \<Rightarrow> string \<Rightarrow> string" where
  "trim_leading ws s =
     (if s = [] \<or> leading ws s = 0 then s else trim_leading ws (drop (leading ws s) s))"
  by pat_completeness auto
termination
  by (relation "measure (\<lambda>(ws, s). length s)") auto

declare trim_leading.simps [simp del]

definition trim_start :: "string \<Rightarrow> string" where
  "trim_start s = trim_leading white_space s"

definition trim_end :: "string \<Rightarrow> string" where
  "trim_end s = rev (trim_leading (map rev white_space) (rev s))"

definition trim :: "string \<Rightarrow> string" where
  "trim s = trim_end (trim_start s)"

lemma trim_leading_suffix: "\<exists>t. s = t @ trim_leading ws s"
proof (induction ws s rule: trim_leading.induct)
  case (1 ws s)
  show ?case
  proof (cases "s = [] \<or> leading ws s = 0")
    case True
    then show ?thesis by (simp add: trim_leading.simps [of ws s])
  next
    case False
    with 1 obtain t where "drop (leading ws s) s = t @ trim_leading ws (drop (leading ws s) s)"
      by blast
    then have "s = (take (leading ws s) s @ t) @ trim_leading ws (drop (leading ws s) s)"
      by (metis append.assoc append_take_drop_id)
    then have "\<exists>t. s = t @ trim_leading ws (drop (leading ws s) s)" by (rule exI)
    with False show ?thesis by (simp add: trim_leading.simps [of ws s])
  qed
qed

lemma trim_leading_idem: "trim_leading ws (trim_leading ws s) = trim_leading ws s"
proof (induction ws s rule: trim_leading.induct)
  case (1 ws s)
  then show ?case by (cases "s = [] \<or> leading ws s = 0") (simp_all add: trim_leading.simps [of ws s])
qed

lemma trim_end_prefix: "\<exists>t. s = trim_end s @ t"
proof -
  obtain t where "rev s = t @ trim_leading (map rev white_space) (rev s)"
    using trim_leading_suffix by blast
  then have "s = rev (trim_leading (map rev white_space) (rev s)) @ rev t"
    by (metis rev_append rev_rev_ident)
  then show ?thesis unfolding trim_end_def by blast
qed

lemma trim_end_idem [simp]: "trim_end (trim_end s) = trim_end s"
  by (simp add: trim_end_def trim_leading_idem)

lemma trim_end_space [simp]: "trim_end (s @ [CHR '' '']) = trim_end s"
proof -
  have "leading (map rev white_space) (CHR '' '' # rev s) = 1"
    by (simp add: leading_def white_space_def starts_with_def)
  then show ?thesis
    by (simp add: trim_end_def trim_leading.simps [of _ "CHR '' '' # rev s"])
qed

lemma trim_end_spaces: "trim_end (s @ replicate n (CHR '' '')) = trim_end s"
proof (induction n)
  case (Suc n)
  have "s @ replicate (Suc n) (CHR '' '') = (s @ replicate n (CHR '' '')) @ [CHR '' '']"
    by (simp add: replicate_append_same)
  then show ?case using Suc by (simp only: trim_end_space)
qed simp

section \<open>Integers in text\<close>

definition digit_char :: "nat \<Rightarrow> char" where
  "digit_char d = char_of (48 + d)"

lemma digit_char_simps [simp]:
  "digit_char 0 = CHR ''0''" "digit_char (Suc 0) = CHR ''1''" "digit_char 1 = CHR ''1''" "digit_char 2 = CHR ''2''"
  "digit_char 3 = CHR ''3''" "digit_char 4 = CHR ''4''" "digit_char 5 = CHR ''5''"
  "digit_char 6 = CHR ''6''" "digit_char 7 = CHR ''7''" "digit_char 8 = CHR ''8''" "digit_char 9 = CHR ''9''"
  by (simp_all add: digit_char_def char_of_def bit_0)

text \<open>\<open>to_string\<close> and \<open>{}\<close> on unsigned integers.\<close>

fun show_nat :: "nat \<Rightarrow> string" where
  "show_nat n = (if n < 10 then [digit_char n] else show_nat (n div 10) @ [digit_char (n mod 10)])"

declare show_nat.simps [simp del]

definition show_int :: "int \<Rightarrow> string" where
  "show_int i = (if i < 0 then CHR ''-'' # show_nat (nat (- i)) else show_nat (nat i))"

text \<open>\<open>{:0w}\<close>: zero-padded to width \<open>w\<close>.\<close>

definition pad_left :: "char \<Rightarrow> nat \<Rightarrow> string \<Rightarrow> string" where
  "pad_left c w s = replicate (w - length s) c @ s"

definition show_nat0 :: "nat \<Rightarrow> nat \<Rightarrow> string" where
  "show_nat0 w n = pad_left (CHR ''0'') w (show_nat n)"

text \<open>
  \<open>str::parse\<close> into an unsigned integer below \<open>bound\<close>: an optional plus sign, at least one
  digit, no overflow (Rust checks the multiplication and the addition at every digit, which
  fails exactly when a prefix, hence the whole, is not below the bound).
\<close>

fun digits_value :: "nat \<Rightarrow> string \<Rightarrow> nat option" where
  "digits_value acc [] = Some acc"
| "digits_value acc (c # cs) =
     (if is_ascii_digit c then digits_value (10 * acc + (of_char c - 48)) cs else None)"

definition parse_unsigned :: "nat \<Rightarrow> string \<Rightarrow> nat option" where
  "parse_unsigned bound s =
     (let ds = (case s of [] \<Rightarrow> [] | c # cs \<Rightarrow> if c = CHR ''+'' then cs else s)
      in if ds = [] then None
         else (case digits_value 0 ds of
                 None \<Rightarrow> None
               | Some n \<Rightarrow> if n < bound then Some n else None))"

definition parse_u8 :: "string \<Rightarrow> u8 option" where
  "parse_u8 s = map_option of_nat (parse_unsigned 256 s)"

lemma digit_char_digit [simp]: "d < 10 \<Longrightarrow> is_ascii_digit (digit_char d)"
  by (simp add: is_ascii_digit_def digit_char_def)

lemma of_char_digit_char [simp]: "d < 10 \<Longrightarrow> (of_char (digit_char d) :: nat) = 48 + d"
  by (simp add: digit_char_def)

lemma digits_value_append:
  "digits_value a (s @ t) = (case digits_value a s of None \<Rightarrow> None | Some b \<Rightarrow> digits_value b t)"
  by (induction s arbitrary: a) auto

lemma show_nat_nonempty [simp]: "show_nat n \<noteq> []"
  by (subst show_nat.simps) simp

lemma show_nat_digits: "c \<in> set (show_nat n) \<Longrightarrow> is_ascii_digit c"
proof (induction n rule: show_nat.induct)
  case (1 n)
  then show ?case
    by (cases "n < 10") (auto simp: show_nat.simps [of n])
qed

lemma digits_value_show_nat: "digits_value 0 (show_nat n) = Some n"
proof (induction n rule: show_nat.induct)
  case (1 n)
  show ?case
  proof (cases "n < 10")
    case True
    then show ?thesis by (simp add: show_nat.simps [of n])
  next
    case False
    with 1 show ?thesis
      by (simp add: show_nat.simps [of n] digits_value_append)
  qed
qed

lemma parse_show_nat [rust_num]: "n < bound \<Longrightarrow> parse_unsigned bound (show_nat n) = Some n"
proof -
  assume n: "n < bound"
  obtain c cs where s: "show_nat n = c # cs" by (cases "show_nat n") auto
  have "is_ascii_digit c" using show_nat_digits [of c n] s by simp
  then have "c \<noteq> CHR ''+''" by (auto simp: is_ascii_digit_def)
  then show ?thesis
    using n digits_value_show_nat [of n] s by (simp add: parse_unsigned_def)
qed

section \<open>Valid UTF-8\<close>

text \<open>The bytes left after the first character of a text, \<^const>\<open>None\<close> where the text does
  not start with a well-formed encoding (the table of \<open>String::from_utf8\<close>).\<close>

definition byte_in :: "char \<Rightarrow> nat \<Rightarrow> nat \<Rightarrow> bool" where
  "byte_in c lo hi \<longleftrightarrow> lo \<le> of_char c \<and> (of_char c :: nat) \<le> hi"

definition lead3 :: "char \<Rightarrow> char \<Rightarrow> bool" where
  "lead3 a b \<longleftrightarrow>
     byte_in a 0xE0 0xE0 \<and> byte_in b 0xA0 0xBF
     \<or> byte_in a 0xE1 0xEC \<and> is_cont b
     \<or> byte_in a 0xED 0xED \<and> byte_in b 0x80 0x9F
     \<or> byte_in a 0xEE 0xEF \<and> is_cont b"

definition lead4 :: "char \<Rightarrow> char \<Rightarrow> bool" where
  "lead4 a b \<longleftrightarrow>
     byte_in a 0xF0 0xF0 \<and> byte_in b 0x90 0xBF
     \<or> byte_in a 0xF1 0xF3 \<and> is_cont b
     \<or> byte_in a 0xF4 0xF4 \<and> byte_in b 0x80 0x8F"

fun utf8_rest :: "string \<Rightarrow> string option" where
  "utf8_rest [] = None"
| "utf8_rest (a # s) =
     (if byte_in a 0 0x7F then Some s
      else (case s of
        [] \<Rightarrow> None
      | b # s \<Rightarrow>
        if byte_in a 0xC2 0xDF then (if is_cont b then Some s else None)
        else (case s of
          [] \<Rightarrow> None
        | c # s \<Rightarrow>
          if lead3 a b then (if is_cont c then Some s else None)
          else (case s of
            [] \<Rightarrow> None
          | d # s \<Rightarrow> if lead4 a b \<and> is_cont c \<and> is_cont d then Some s else None))))"

lemma utf8_rest_length: "utf8_rest s = Some t \<Longrightarrow> length t < length s"
  by (cases s) (simp_all split: if_split_asm list.split_asm)

function utf8_valid :: "string \<Rightarrow> bool" where
  "utf8_valid s = (s = [] \<or> (case utf8_rest s of None \<Rightarrow> False | Some t \<Rightarrow> utf8_valid t))"
  by pat_completeness auto
termination
  by (relation "measure length") (auto dest: utf8_rest_length)

declare utf8_valid.simps [simp del]

lemma utf8_valid_Nil [simp]: "utf8_valid []"
  by (simp add: utf8_valid.simps)

lemma utf8_valid_ascii [simp]: "is_ascii_char c \<Longrightarrow> utf8_valid (c # s) = utf8_valid s"
  by (subst utf8_valid.simps) (simp add: byte_in_def is_ascii_char_def)

lemma utf8_valid_all_ascii: "\<forall>c\<in>set s. is_ascii_char c \<Longrightarrow> utf8_valid s"
  by (induction s) auto

lemma byte_in_not_ascii: "byte_in c lo hi \<Longrightarrow> 128 \<le> lo \<Longrightarrow> \<not> is_ascii_char c"
  by (simp add: byte_in_def is_ascii_char_def)

lemma cont_not_leading:
  assumes "is_cont c"
  shows "byte_in c 0 0x7F = False" "byte_in c 0xC2 0xDF = False" "lead3 c b = False" "lead4 c b = False"
  using assms by (simp_all add: is_cont_def byte_in_def lead3_def lead4_def)

lemma utf8_rest_hd: "utf8_rest s = Some t \<Longrightarrow> \<not> is_cont (hd s)"
proof
  assume r: "utf8_rest s = Some t" and c: "is_cont (hd s)"
  then obtain a u where s: "s = a # u" by (cases s) auto
  note no = cont_not_leading [OF c, unfolded s list.sel]
  from r show False
    by (simp add: s no split: list.split_asm)
qed

lemma utf8_valid_hd: "utf8_valid s \<Longrightarrow> s = [] \<or> \<not> is_cont (hd s)"
  by (subst (asm) utf8_valid.simps) (auto split: option.splits dest: utf8_rest_hd)

text \<open>An encoding never swallows an ASCII character that follows its first byte.\<close>

lemma ascii_not_trailing:
  assumes "is_ascii_char c"
  shows "is_cont c = False" "lead3 a c = False" "lead4 a c = False"
  using assms by (simp_all add: is_ascii_char_def is_cont_def byte_in_def lead3_def lead4_def)

lemma utf8_rest_ascii:
  assumes "utf8_rest (s @ c # t) = Some r" "is_ascii_char c" "s \<noteq> []"
  shows "\<exists>u. utf8_rest s = Some u \<and> r = u @ c # t"
proof -
  note c = ascii_not_trailing [OF assms(2)]
  obtain a s1 where s: "s = a # s1" using assms(3) by (cases s) auto
  consider "s1 = []" | b where "s1 = [b]" | b d where "s1 = [b, d]"
    | b d e u where "s1 = b # d # e # u"
    by (metis list.exhaust)
  then show ?thesis
    using assms(1) s by cases (simp_all add: c split: if_split_asm list.split_asm)
qed

lemma utf8_valid_split:
  "utf8_valid (s @ c # t) \<Longrightarrow> is_ascii_char c \<Longrightarrow> utf8_valid s \<and> utf8_valid t"
proof (induction s rule: utf8_valid.induct)
  case (1 s)
  show ?case
  proof (cases "s = []")
    case True
    with "1.prems" show ?thesis by simp
  next
    case False
    with "1.prems"(1) obtain r where r: "utf8_rest (s @ c # t) = Some r" "utf8_valid r"
      by (subst (asm) utf8_valid.simps) (auto split: option.splits)
    from utf8_rest_ascii [OF r(1) "1.prems"(2) False]
    obtain u where u: "utf8_rest s = Some u" "r = u @ c # t" by blast
    have "utf8_valid u \<and> utf8_valid t"
      using "1.IH" [OF u(1)] r(2) u(2) "1.prems"(2) by simp
    with u(1) show ?thesis by (simp add: utf8_valid.simps [of s])
  qed
qed

text \<open>\<open>chars().next()\<close> of a text, and \<open>String::from_utf8_lossy\<close>, which puts one replacement character
  for each longest run of bytes that could have started a character.\<close>

definition next_char :: "string \<Rightarrow> (string \<times> string) option" where
  "next_char s = map_option (\<lambda>t. (take (length s - length t) s, t)) (utf8_rest s)"

fun bad_length :: "string \<Rightarrow> nat" where
  "bad_length (a # b # c # s) =
     (if lead3 a b then 2 else if lead4 a b then (if is_cont c then 3 else 2) else 1)"
| "bad_length [a, b] = (if lead3 a b \<or> lead4 a b then 2 else 1)"
| "bad_length s = 1"

function from_utf8_lossy :: "string \<Rightarrow> string" where
  "from_utf8_lossy s =
     (if s = [] then []
      else (case utf8_rest s of
              Some t \<Rightarrow> take (length s - length t) s @ from_utf8_lossy t
            | None \<Rightarrow> [CHR 0xEF, CHR 0xBF, CHR 0xBD] @ from_utf8_lossy (drop (bad_length s) s)))"
  by pat_completeness auto

lemma bad_length_pos: "0 < bad_length s"
  by (induction s rule: bad_length.induct) auto

termination from_utf8_lossy
  by (relation "measure length") (auto dest: utf8_rest_length simp: bad_length_pos)

declare from_utf8_lossy.simps [simp del]

lemma utf8_rest_suffix: "utf8_rest s = Some t \<Longrightarrow> take (length s - length t) s @ t = s"
  by (cases s) (auto split: if_split_asm list.split_asm simp: Suc_diff_le)

lemma from_utf8_lossy_valid: "utf8_valid s \<Longrightarrow> from_utf8_lossy s = s"
proof (induction s rule: utf8_valid.induct)
  case (1 s)
  show ?case
  proof (cases "s = []")
    case False
    with "1.prems" obtain t where t: "utf8_rest s = Some t" "utf8_valid t"
      by (subst (asm) utf8_valid.simps) (auto split: option.splits)
    then have "from_utf8_lossy t = t" using "1.IH" by simp
    then show ?thesis using False t(1) utf8_rest_suffix [OF t(1)] by (simp add: from_utf8_lossy.simps [of s])
  qed (simp add: from_utf8_lossy.simps)
qed

section \<open>Hash maps\<close>

text \<open>
  A \<open>HashMap\<close> is an association list with distinct keys (\<open>hm_ok\<close>). Its order is not
  observable through the operations below.
\<close>

type_synonym ('k, 'v) hash_map = "('k \<times> 'v) list"

definition hm_ok :: "('k, 'v) hash_map \<Rightarrow> bool" where
  "hm_ok m \<longleftrightarrow> distinct (map fst m)"

definition hm_get :: "('k, 'v) hash_map \<Rightarrow> 'k \<Rightarrow> 'v option" where
  "hm_get m k = map_of m k"

fun hm_insert :: "'k \<Rightarrow> 'v \<Rightarrow> ('k, 'v) hash_map \<Rightarrow> ('k, 'v) hash_map" where
  "hm_insert k v [] = [(k, v)]"
| "hm_insert k v ((k', v') # m) = (if k' = k then (k, v) # m else (k', v') # hm_insert k v m)"

definition hm_retain :: "('v \<Rightarrow> bool) \<Rightarrow> ('k, 'v) hash_map \<Rightarrow> ('k, 'v) hash_map" where
  "hm_retain p m = filter (\<lambda>(k, v). p v) m"

lemma hm_get_Nil [simp]: "hm_get [] k = None"
  by (simp add: hm_get_def)

lemma hm_get_insert [simp]: "hm_get (hm_insert k v m) j = (if j = k then Some v else hm_get m j)"
  by (induction k v m rule: hm_insert.induct) (auto simp: hm_get_def)

lemma hm_keys_insert: "set (map fst (hm_insert k v m)) = insert k (set (map fst m))"
  by (induction k v m rule: hm_insert.induct) auto

lemma hm_ok_Nil [simp]: "hm_ok []"
  by (simp add: hm_ok_def)

lemma hm_ok_insert [simp]: "hm_ok m \<Longrightarrow> hm_ok (hm_insert k v m)"
  unfolding hm_ok_def
  by (induction k v m rule: hm_insert.induct)
     (auto simp: hm_keys_insert simp del: set_map list.set_map)

lemma hm_ok_retain [simp]: "hm_ok m \<Longrightarrow> hm_ok (hm_retain p m)"
  unfolding hm_ok_def hm_retain_def by (induction m) auto

lemma hm_get_retain:
  assumes "hm_ok m"
  shows "hm_get (hm_retain p m) k = (case hm_get m k of None \<Rightarrow> None | Some v \<Rightarrow> if p v then Some v else None)"
  using assms unfolding hm_ok_def hm_retain_def hm_get_def
proof (induction m)
  case (Cons e m)
  obtain k' v where e: "e = (k', v)" by (cases e)
  have "map_of (filter (\<lambda>(k, v). p v) m) k' = None"
    using Cons.prems e by (auto simp: map_of_eq_None_iff)
  with Cons e show ?case by auto
qed simp

lemma hm_length_insert: "length (hm_insert k v m) = (if hm_get m k = None then Suc (length m) else length m)"
  by (induction k v m rule: hm_insert.induct) (auto simp: hm_get_def)

section \<open>Stores swept of expired entries\<close>

text \<open>
  The interface of a store whose expired entries are removed from time to time: two states are
  alike from an instant on when they differ in expired entries only. A sweep and an
  operation keep states alike, and an operation cannot tell alike states apart. Then sweeps can be put anywhere in
  a run whose clock does not go back, without changing what the operations return.
\<close>

datatype 'op timed = Op 'op instant | Sweep instant

fun time_of :: "'op timed \<Rightarrow> instant" where
  "time_of (Op x t) = t"
| "time_of (Sweep t) = t"

fun run_timed ::
  "('s \<Rightarrow> 'op \<Rightarrow> instant \<Rightarrow> 's \<times> 'r) \<Rightarrow> ('s \<Rightarrow> instant \<Rightarrow> 's) \<Rightarrow> 's \<Rightarrow> 'op timed list \<Rightarrow> 's \<times> 'r list" where
  "run_timed step sweep s [] = (s, [])"
| "run_timed step sweep s (Op x t # es) =
     (let (s', r) = step s x t; (s'', rs) = run_timed step sweep s' es in (s'', r # rs))"
| "run_timed step sweep s (Sweep t # es) = run_timed step sweep (sweep s t) es"

fun without_sweeps :: "'op timed list \<Rightarrow> 'op timed list" where
  "without_sweeps [] = []"
| "without_sweeps (Op x t # es) = Op x t # without_sweeps es"
| "without_sweeps (Sweep t # es) = without_sweeps es"

fun clock_from :: "instant \<Rightarrow> 'op timed list \<Rightarrow> bool" where
  "clock_from now [] \<longleftrightarrow> True"
| "clock_from now (e # es) \<longleftrightarrow> now \<le> time_of e \<and> clock_from (time_of e) es"

locale swept_store =
  fixes step :: "'s \<Rightarrow> 'op \<Rightarrow> instant \<Rightarrow> 's \<times> 'r"
    and sweep :: "'s \<Rightarrow> instant \<Rightarrow> 's"
    and alike :: "instant \<Rightarrow> 's \<Rightarrow> 's \<Rightarrow> bool"
    and invar :: "'s \<Rightarrow> bool"
  assumes alike_refl: "invar s \<Longrightarrow> alike now s s"
    and alike_later: "alike now s s' \<Longrightarrow> now \<le> t \<Longrightarrow> alike t s s'"
    and alike_sweep: "invar s' \<Longrightarrow> alike now s s' \<Longrightarrow> alike now s (sweep s' now)"
    and alike_step: "invar s \<Longrightarrow> invar s' \<Longrightarrow> alike now s s'
      \<Longrightarrow> snd (step s x now) = snd (step s' x now) \<and> alike now (fst (step s x now)) (fst (step s' x now))"
    and invar_step: "invar s \<Longrightarrow> invar (fst (step s x now))"
    and invar_sweep: "invar s \<Longrightarrow> invar (sweep s now)"
begin

lemma sweeps_unobservable_gen:
  assumes "invar s" "invar s'" "alike now s s'" "clock_from now es"
  shows "snd (run_timed step sweep s' es) = snd (run_timed step sweep s (without_sweeps es))"
  using assms
proof (induction es arbitrary: s s' now)
  case (Cons e es)
  show ?case
  proof (cases e)
    case (Op x t)
    have a: "alike t s s'" using Cons.prems Op by (auto intro: alike_later)
    from alike_step [OF Cons.prems(1,2) a, of x]
    have "snd (step s x t) = snd (step s' x t)" "alike t (fst (step s x t)) (fst (step s' x t))"
      by auto
    moreover from this(2) have "snd (run_timed step sweep (fst (step s' x t)) es)
        = snd (run_timed step sweep (fst (step s x t)) (without_sweeps es))"
      using Cons.prems Op by (intro Cons.IH [of _ _ t]) (auto intro: invar_step)
    ultimately show ?thesis by (simp add: Op split_def Let_def)
  next
    case (Sweep t)
    have a: "alike t s s'" using Cons.prems Sweep by (auto intro: alike_later)
    have "snd (run_timed step sweep (sweep s' t) es) = snd (run_timed step sweep s (without_sweeps es))"
      using Cons.prems Sweep alike_sweep [OF Cons.prems(2) a]
      by (intro Cons.IH [of _ _ t]) (auto intro: invar_sweep)
    then show ?thesis by (simp add: Sweep)
  qed
qed simp

lemma sweeps_unobservable:
  "invar s \<Longrightarrow> clock_from now es
   \<Longrightarrow> snd (run_timed step sweep s es) = snd (run_timed step sweep s (without_sweeps es))"
  using sweeps_unobservable_gen [OF _ _ alike_refl] by blast

end

end
