(* ===== verification/Vaprs_Error.thy ===== *)
theory Vaprs_Error
  imports Vaprs_Prelude
begin

text \<open>
  \<open>src/error.rs\<close>: the error type of the crate and its rendering. The payload of
  \<open>Io\<close> is a \<open>std::io::Error\<close>; it is kept as the text it renders to.
\<close>

datatype vaprs_error =
    Config string
  | Io string
  | AprsIs string
  | Ax25 string
  | Kiss string
  | Callsign string
  | Interface string string

fun fmt_error :: "vaprs_error \<Rightarrow> string" where
  "fmt_error (Config msg) = ''configuration error: '' @ msg"
| "fmt_error (Io err) = ''I/O error: '' @ err"
| "fmt_error (AprsIs msg) = ''APRS-IS connection error: '' @ msg"
| "fmt_error (Ax25 msg) = ''AX.25 frame error: '' @ msg"
| "fmt_error (Kiss msg) = ''KISS framing error: '' @ msg"
| "fmt_error (Callsign msg) = ''invalid callsign: '' @ msg"
| "fmt_error (Interface interface message) =
     ''interface error on '' @ interface @ '': '' @ message"

text \<open>\<open>impl From<std::io::Error> for VaprsError\<close>.\<close>

definition from_io :: "string \<Rightarrow> vaprs_error" where
  "from_io err = Io err"

end
