(* ===== verification/Ax25.thy ===== *)
theory Ax25
  imports Vaprs_Error
begin

text \<open>
  \<open>src/ax25.rs\<close>: AX.25 address fields and the conversion of a binary frame to TNC2 text.
  A \<open>[u8; 7]\<close> address field is a list of seven bytes. The definitions follow the functions
  of the file; the lemmas give the round trip of one address, the text of every well-formed
  frame, and what every accepted frame guarantees about its text.
\<close>

unbundle bit_operations_syntax

definition MAX_VIA_ADDRS :: nat where
  "MAX_VIA_ADDRS = 8"

definition MIN_FRAME_LEN :: nat where
  "MIN_FRAME_LEN = 16"

definition is_valid_call_char :: "char \<Rightarrow> bool" where
  "is_valid_call_char c \<longleftrightarrow> is_ascii_uppercase c \<or> is_ascii_digit c"

section \<open>Encoding one address\<close>

text \<open>The call sign and SSID text of \<open>CALL-SSID\<close>, split at the first dash.\<close>

definition split_ssid :: "string \<Rightarrow> vaprs_error + string \<times> u8" where
  "split_ssid callsign =
     (case str_find (\<lambda>c. c = CHR ''-'') callsign of
        Some idx \<Rightarrow>
          (let call = take idx callsign; ssid_str = drop (Suc idx) callsign
           in case parse_u8 ssid_str of
                None \<Rightarrow> Inl (Ax25 (''invalid SSID: '' @ ssid_str))
              | Some ssid \<Rightarrow>
                  if unat ssid > 15
                  then Inl (Ax25 (''SSID '' @ show_nat (unat ssid) @ '' out of range 0-15''))
                  else Inr (call, ssid))
      | None \<Rightarrow> Inr (callsign, 0))"

text \<open>The first character of a \<open>str\<close> that is not valid in a call sign, as its UTF-8 bytes.\<close>

definition first_invalid :: "string \<Rightarrow> string option" where
  "first_invalid s =
     (case dropWhile is_valid_call_char s of
        [] \<Rightarrow> None
      | c # cs \<Rightarrow> Some (c # takeWhile is_cont cs))"

definition encode_ax25_address :: "string \<Rightarrow> u8 \<Rightarrow> vaprs_error + u8 list" where
  "encode_ax25_address callsign ssid_flags =
     (case split_ssid callsign of
        Inl e \<Rightarrow> Inl e
      | Inr (call_part, ssid) \<Rightarrow>
          if call_part = [] \<or> length call_part > 6
          then Inl (Ax25 (''callsign '' @ quoted call_part @ '' must be 1-6 characters''))
          else (case first_invalid call_part of
                  Some c \<Rightarrow> Inl (Ax25 (''invalid character '' @ quoted c @ '' in callsign '' @ quoted call_part))
                | None \<Rightarrow>
                    Inr (map (\<lambda>i. push_bit 1 (if i < length call_part then byte_of (call_part ! i)
                                              else 0x20)) [0..<6]
                         @ [ssid_flags OR push_bit 1 ssid])))"

section \<open>Decoding one address\<close>

text \<open>The six call sign bytes, shifted right by one, spaces left out.\<close>

definition decode_call :: "u8 list \<Rightarrow> string" where
  "decode_call bytes = map char_of_byte (filter (\<lambda>ch. ch \<noteq> 0x20) (map (drop_bit 1) bytes))"

definition decode_ax25_address :: "u8 list \<Rightarrow> bool \<Rightarrow> vaprs_error + string \<times> u8" where
  "decode_ax25_address ax25 mark_hbit =
     (let call = decode_call (take 6 ax25)
      in if call = [] then Inl (Ax25 ''empty callsign in AX.25 address'')
         else
           (let ssid_byte = ax25 ! 6;
                ssid = drop_bit 1 ssid_byte AND 0x0F;
                call = (if ssid \<noteq> 0 then call @ ''-'' @ show_nat (unat ssid) else call);
                call = (if mark_hbit \<and> ssid_byte AND 0x80 \<noteq> 0 then call @ ''*'' else call)
            in Inr (call, ssid_byte)))"

section \<open>Frames\<close>

record tnc2_frame =
  frame_tnc2 :: string
  frame_tnc2_addr_len :: nat
  frame_ax25_addr_len :: nat
  frame_is_aprs :: bool
  frame_ui_pid :: int

text \<open>
  The \<open>while !last_addr_found\<close> loop over the via addresses: the frame, the text built so
  far, the end of the addresses read so far, how many vias were read, and whether the last
  address read had its end bit set.
\<close>

function via_loop ::
  "u8 list \<Rightarrow> string \<Rightarrow> nat \<Rightarrow> nat \<Rightarrow> bool \<Rightarrow> vaprs_error + string \<times> nat" where
  "via_loop frame tnc2 addr_end via_count last_addr_found =
     (if last_addr_found then Inr (tnc2, addr_end)
      else if MAX_VIA_ADDRS \<le> via_count then Inl (Ax25 ''too many via addresses (max 8)'')
      else if addr_end + 7 > length frame then Inl (Ax25 ''frame truncated in via address field'')
      else (case decode_ax25_address (take 7 (drop addr_end frame)) True of
              Inl e \<Rightarrow> Inl e
            | Inr (via_call, via_ssid) \<Rightarrow>
                via_loop frame (tnc2 @ '','' @ via_call) (addr_end + 7) (Suc via_count)
                  (via_ssid AND 0x01 \<noteq> 0)))"
  by pat_completeness auto
termination
  by (relation "measure (\<lambda>(frame, tnc2, addr_end, via_count, last). MAX_VIA_ADDRS - via_count)")
     auto

declare via_loop.simps [simp del]

text \<open>The payload loop: stop at a line feed, skip carriage returns, push each byte as a
  character (a byte from \<open>0x80\<close> on becomes two bytes of UTF-8).\<close>

fun payload_text :: "u8 list \<Rightarrow> string" where
  "payload_text [] = []"
| "payload_text (b # bs) =
     (if b = 0x0A then []
      else if b = 0x0D then payload_text bs
      else utf8_of_byte b @ payload_text bs)"

definition ax25_to_tnc2 :: "u8 list \<Rightarrow> vaprs_error + tnc2_frame" where
  "ax25_to_tnc2 frame =
     (if length frame < MIN_FRAME_LEN
      then Inl (Ax25 (''frame too short: '' @ show_nat (length frame) @ '' bytes (minimum ''
                      @ show_nat MIN_FRAME_LEN @ '')''))
      else
        case decode_ax25_address (take 7 frame) False of
          Inl e \<Rightarrow> Inl e
        | Inr (dst_call, _) \<Rightarrow>
        (case decode_ax25_address (take 7 (drop 7 frame)) False of
          Inl e \<Rightarrow> Inl e
        | Inr (src_call, src_ssid) \<Rightarrow>
        (case via_loop frame (src_call @ ''>'' @ dst_call) 14 0 (src_ssid AND 0x01 \<noteq> 0) of
          Inl e \<Rightarrow> Inl e
        | Inr (tnc2, addr_end) \<Rightarrow>
            if addr_end + 2 > length frame
            then Inl (Ax25 ''frame truncated after address fields'')
            else
              (let control = frame ! addr_end; pid = frame ! (addr_end + 1)
               in if control \<noteq> 0x03
                  then Inr \<lparr>frame_tnc2 = tnc2 @ '':'', frame_tnc2_addr_len = length tnc2,
                            frame_ax25_addr_len = addr_end, frame_is_aprs = False,
                            frame_ui_pid = -1\<rparr>
                  else Inr \<lparr>frame_tnc2 = tnc2 @ '':'' @ payload_text (drop (addr_end + 2) frame),
                            frame_tnc2_addr_len = length tnc2,
                            frame_ax25_addr_len = addr_end,
                            frame_is_aprs = (pid = 0xF0),
                            frame_ui_pid = uint pid\<rparr>))))"

section \<open>Round trip of one address\<close>

text \<open>What a call sign without SSID must be for the encoder to accept it.\<close>

definition valid_call :: "string \<Rightarrow> bool" where
  "valid_call c \<longleftrightarrow> c \<noteq> [] \<and> length c \<le> 6 \<and> (\<forall>x\<in>set c. is_valid_call_char x)"

text \<open>The text the decoder gives for a call, an SSID and a mark.\<close>

definition call_text :: "string \<Rightarrow> u8 \<Rightarrow> bool \<Rightarrow> string" where
  "call_text c ssid mark =
     c @ (if ssid = 0 then [] else ''-'' @ show_nat (unat ssid)) @ (if mark then ''*'' else [])"

text \<open>The bytes of an address field whose SSID byte is \<open>s\<close>.\<close>

definition address_field :: "string \<Rightarrow> u8 \<Rightarrow> u8 list" where
  "address_field c s =
     map (\<lambda>i. push_bit 1 (if i < length c then byte_of (c ! i) else 0x20)) [0..<6] @ [s]"

lemma length_address_field [simp]: "length (address_field c s) = 7"
  by (simp add: address_field_def)

lemma valid_call_char_ascii: "is_valid_call_char c \<Longrightarrow> 48 \<le> (of_char c :: nat) \<and> (of_char c :: nat) \<le> 90"
  by (auto simp: is_valid_call_char_def is_ascii_uppercase_def is_ascii_digit_def)

lemma unat_byte_of [simp]: "unat (byte_of c) = of_char c"
proof -
  have "unat (byte_of c) = of_char (char_of_byte (byte_of c))"
    unfolding char_of_byte_def using unsigned_less [of "byte_of c", where 'a = nat]
    by (simp del: char_of_byte_of)
  then show ?thesis by simp
qed

lemma drop_push_byte: "unat b < 128 \<Longrightarrow> drop_bit 1 (push_bit 1 b) = (b :: u8)"
  by (simp add: word_unat_eq_iff unat_drop_bit_eq push_bit_eq_mult unat_word_ariths drop_bit_eq_div)

lemma address_field_take: "take 6 (address_field c s)
    = map (\<lambda>i. push_bit 1 (if i < length c then byte_of (c ! i) else 0x20)) [0..<6]"
  by (simp add: address_field_def)

lemma address_field_6 [simp]: "address_field c s ! 6 = s"
  by (simp add: address_field_def nth_append)

lemma decode_call_field:
  assumes "length c \<le> 6" "\<forall>x\<in>set c. is_valid_call_char x"
  shows "decode_call (take 6 (address_field c s)) = c"
proof -
  let ?b = "\<lambda>i. if i < length c then byte_of (c ! i) else 0x20"
  have small: "unat (?b i) < 128" for i
    using assms(2) valid_call_char_ascii [of "c ! i"] by (auto simp: nth_mem)
  have dec: "map (drop_bit 1) (map (\<lambda>i. push_bit 1 (?b i)) [0..<6]) = map ?b [0..<6]"
    unfolding map_map by (rule map_cong [OF refl]) (simp only: o_apply drop_push_byte [OF small])
  have split: "[0..<6] = [0..<length c] @ [length c..<6]"
    using assms(1) upt_add_eq_append [of 0 "length c" "6 - length c"] by simp
  have ne: "byte_of x \<noteq> 0x20" if "x \<in> set c" for x
  proof
    assume "byte_of x = 0x20"
    then have "of_char x = (32 :: nat)" using unat_byte_of [of x] by simp
    with that assms(2) valid_call_char_ascii [of x] show False by auto
  qed
  have "map ?b [0..<length c] = map byte_of c"
    by (auto intro: nth_equalityI)
  moreover have "filter (\<lambda>ch. ch \<noteq> 0x20) (map ?b [length c..<6]) = []"
    by (auto simp: filter_empty_conv)
  moreover have "filter (\<lambda>ch. ch \<noteq> 0x20) (map byte_of c) = map byte_of c"
    using ne by (simp add: filter_id_conv)
  ultimately have "filter (\<lambda>ch. ch \<noteq> 0x20) (map ?b [0..<6]) = map byte_of c"
    by (simp only: split map_append filter_append append_Nil2)
  then show ?thesis
    unfolding decode_call_def address_field_take dec by (simp add: o_def)
qed

lemma decode_field:
  assumes "valid_call c"
  shows "decode_ax25_address (address_field c s) mark
         = Inr (call_text c (drop_bit 1 s AND 0x0F) (mark \<and> s AND 0x80 \<noteq> 0), s)"
  using assms
  by (simp add: decode_ax25_address_def decode_call_field valid_call_def call_text_def Let_def)

lemma byte_eqI: "(\<And>n. n < 8 \<Longrightarrow> bit a n = bit b n) \<Longrightarrow> a = (b :: u8)"
  by (rule bit_word_eqI) simp

lemma ssid_bits:
  assumes "unat ssid \<le> 15" and "f AND 0x1E = (0 :: u8)"
  shows "drop_bit 1 (f OR push_bit 1 ssid) AND 0x0F = ssid"
    and "(f OR push_bit 1 ssid) AND 0x80 = f AND 0x80"
proof -
  have f: "\<not> bit f 1" "\<not> bit f 2" "\<not> bit f 3" "\<not> bit f 4"
    using assms(2) by (auto simp: bit_eq_iff bit_and_iff dest: spec [of _ 1] spec [of _ 2] spec [of _ 3] spec [of _ 4])
  have "ssid = take_bit 4 ssid"
    using assms(1) by (simp add: word_unat_eq_iff unsigned_take_bit_eq take_bit_nat_eq_self)
  then have s: "bit ssid n \<Longrightarrow> n < 4" for n
    by (metis bit_take_bit_iff)
  show "drop_bit 1 (f OR push_bit 1 ssid) AND 0x0F = ssid"
  proof (rule byte_eqI)
    fix n :: nat assume "n < 8"
    then have "n = 0 \<or> n = 1 \<or> n = 2 \<or> n = 3 \<or> n = 4 \<or> n = 5 \<or> n = 6 \<or> n = 7" by linarith
    then show "bit (drop_bit 1 (f OR push_bit 1 ssid) AND 0x0F) n = bit ssid n"
      unfolding bit_and_iff bit_or_iff bit_drop_bit_eq o_apply bit_push_bit_iff
      using f s [of n] by (auto simp: numeral_eq_Suc)
  qed
  show "(f OR push_bit 1 ssid) AND 0x80 = f AND 0x80"
  proof (rule byte_eqI)
    fix n :: nat assume "n < 8"
    then have "n = 0 \<or> n = 1 \<or> n = 2 \<or> n = 3 \<or> n = 4 \<or> n = 5 \<or> n = 6 \<or> n = 7" by linarith
    then show "bit ((f OR push_bit 1 ssid) AND 0x80) n = bit (f AND 0x80) n"
      unfolding bit_and_iff bit_or_iff bit_push_bit_iff
      using s [of "n - 1"] by (auto simp: numeral_eq_Suc)
  qed
qed

lemma valid_call_no_dash: "valid_call c \<Longrightarrow> \<forall>x\<in>set c. x \<noteq> CHR ''-''"
  by (fastforce simp: valid_call_def dest: valid_call_char_ascii)

lemma valid_call_first_invalid: "valid_call c \<Longrightarrow> first_invalid c = None"
proof -
  assume "valid_call c"
  then have "dropWhile is_valid_call_char c = []"
    by (simp add: valid_call_def)
  then show ?thesis by (simp only: first_invalid_def list.case)
qed

lemma parse_u8_show: "unat n \<le> 255 \<Longrightarrow> parse_u8 (show_nat (unat n)) = Some n"
  by (simp add: parse_u8_def parse_show_nat)

lemma encode_with_ssid:
  assumes "valid_call c" "unat ssid \<le> 15"
  shows "encode_ax25_address (c @ ''-'' @ show_nat (unat ssid)) f
         = Inr (address_field c (f OR push_bit 1 ssid))"
proof -
  have "str_find (\<lambda>x. x = CHR ''-'') (c @ CHR ''-'' # show_nat (unat ssid)) = Some (length c)"
    using valid_call_no_dash [OF assms(1)] by (simp add: str_find_append)
  then have "split_ssid (c @ ''-'' @ show_nat (unat ssid)) = Inr (c, ssid)"
    using assms(2) by (simp add: split_ssid_def parse_u8_show)
  then show ?thesis
    using assms(1) valid_call_first_invalid [OF assms(1)]
    by (simp add: encode_ax25_address_def address_field_def valid_call_def del: append_Cons append.simps)
qed

lemma encode_without_ssid:
  assumes "valid_call c"
  shows "encode_ax25_address c f = Inr (address_field c f)"
proof -
  have "split_ssid c = Inr (c, 0)"
    using valid_call_no_dash [OF assms] str_find_None [of "\<lambda>x. x = CHR ''-''" c]
    by (simp add: split_ssid_def)
  then show ?thesis
    using assms valid_call_first_invalid [OF assms]
    by (simp add: encode_ax25_address_def address_field_def valid_call_def)
qed

section \<open>The text of every well-formed frame\<close>

text \<open>A frame from its parts: an address is a call with its SSID byte.\<close>

type_synonym ax25_addr = "string \<times> u8"

definition addr_bytes :: "ax25_addr \<Rightarrow> u8 list" where
  "addr_bytes a = address_field (fst a) (snd a)"

definition addr_text :: "bool \<Rightarrow> ax25_addr \<Rightarrow> string" where
  "addr_text mark a =
     call_text (fst a) (drop_bit 1 (snd a) AND 0x0F) (mark \<and> snd a AND 0x80 \<noteq> 0)"

definition end_bit :: "ax25_addr \<Rightarrow> bool" where
  "end_bit a \<longleftrightarrow> snd a AND 0x01 \<noteq> 0"

definition frame_bytes ::
  "ax25_addr \<Rightarrow> ax25_addr \<Rightarrow> ax25_addr list \<Rightarrow> u8 \<Rightarrow> u8 \<Rightarrow> u8 list \<Rightarrow> u8 list" where
  "frame_bytes dst src vias control pid payload =
     addr_bytes dst @ addr_bytes src @ concat (map addr_bytes vias) @ [control, pid] @ payload"

definition vias_text :: "ax25_addr list \<Rightarrow> string" where
  "vias_text vias = concat (map (\<lambda>a. '','' @ addr_text True a) vias)"

text \<open>Only the last of the source and the vias carries the end bit.\<close>

definition end_marked :: "ax25_addr list \<Rightarrow> bool" where
  "end_marked as \<longleftrightarrow> as \<noteq> [] \<and> end_bit (last as) \<and> (\<forall>a\<in>set (butlast as). \<not> end_bit a)"

lemma length_addr_bytes [simp]: "length (addr_bytes a) = 7"
  by (simp add: addr_bytes_def)

lemma length_concat_addr [simp]: "length (concat (map addr_bytes vias)) = 7 * length vias"
  by (induction vias) auto

lemma decode_addr_bytes:
  "valid_call (fst a) \<Longrightarrow> decode_ax25_address (addr_bytes a) mark = Inr (addr_text mark a, snd a)"
  by (simp add: addr_bytes_def addr_text_def decode_field)

lemma via_loop_frame:
  assumes "\<forall>a\<in>set vias. valid_call (fst a)"
    and "k + length vias \<le> MAX_VIA_ADDRS"
    and "end_marked (b # vias)"
  shows "via_loop (pre @ concat (map addr_bytes vias) @ rest) t (length pre) k (end_bit b)
         = Inr (t @ vias_text vias, length pre + 7 * length vias)"
  using assms
proof (induction vias arbitrary: pre t k b)
  case Nil
  then have "end_bit b" by (simp add: end_marked_def)
  then show ?case by (subst via_loop.simps) (simp add: vias_text_def)
next
  case (Cons a as)
  have b: "\<not> end_bit b" and as: "end_marked (a # as)"
    using Cons.prems(3) by (auto simp: end_marked_def)
  have dec: "decode_ax25_address (addr_bytes a) True = Inr (addr_text True a, snd a)"
    using Cons.prems(1) by (simp add: decode_addr_bytes)
  have step: "via_loop (pre @ concat (map addr_bytes (a # as)) @ rest) t (length pre) k (end_bit b)
      = via_loop ((pre @ addr_bytes a) @ concat (map addr_bytes as) @ rest)
          (t @ '','' @ addr_text True a) (length (pre @ addr_bytes a)) (Suc k) (end_bit a)"
    using b Cons.prems(2) dec
    by (subst via_loop.simps) (simp add: end_bit_def)
  show ?case
    unfolding step
    using Cons.IH [of "Suc k" a "pre @ addr_bytes a" "t @ '','' @ addr_text True a"]
      Cons.prems(1,2) as
    by (simp add: vias_text_def)
qed

lemma concat_frame_take:
  "take 7 (frame_bytes dst src vias c p pl) = addr_bytes dst"
  "take 7 (drop 7 (frame_bytes dst src vias c p pl)) = addr_bytes src"
  by (simp_all add: frame_bytes_def)

lemma after_prefix:
  assumes "length xs = n"
  shows "(xs @ a # b # ys) ! n = a" "(xs @ a # b # ys) ! Suc n = b"
    "drop (n + 2) (xs @ a # b # ys) = ys" "length (xs @ a # b # ys) = n + 2 + length ys"
  using assms by (auto simp: nth_append)

lemma frame_bytes_tail:
  fixes vias :: "ax25_addr list"
  defines "n \<equiv> 14 + 7 * length vias"
  shows "frame_bytes dst src vias c p pl ! n = c"
    and "frame_bytes dst src vias c p pl ! Suc n = p"
    and "drop (n + 2) (frame_bytes dst src vias c p pl) = pl"
    and "length (frame_bytes dst src vias c p pl) = n + 2 + length pl"
proof -
  let ?pre = "addr_bytes dst @ addr_bytes src @ concat (map addr_bytes vias)"
  have f: "frame_bytes dst src vias c p pl = ?pre @ c # p # pl"
    by (simp add: frame_bytes_def)
  have l: "length ?pre = n" by (simp add: n_def)
  show "frame_bytes dst src vias c p pl ! n = c"
    "frame_bytes dst src vias c p pl ! Suc n = p"
    "drop (n + 2) (frame_bytes dst src vias c p pl) = pl"
    "length (frame_bytes dst src vias c p pl) = n + 2 + length pl"
    unfolding f by (rule after_prefix [OF l])+
qed

lemma ax25_to_tnc2_frame:
  assumes "valid_call (fst dst)" "valid_call (fst src)" "\<forall>a\<in>set vias. valid_call (fst a)"
    and "length vias \<le> 8" and "end_marked (src # vias)"
  defines "addr \<equiv> addr_text False src @ ''>'' @ addr_text False dst @ vias_text vias"
  shows "ax25_to_tnc2 (frame_bytes dst src vias 0x03 pid payload)
         = Inr \<lparr>frame_tnc2 = addr @ '':'' @ payload_text payload,
                frame_tnc2_addr_len = length addr,
                frame_ax25_addr_len = 14 + 7 * length vias,
                frame_is_aprs = (pid = 0xF0), frame_ui_pid = uint pid\<rparr>"
proof -
  let ?f = "frame_bytes dst src vias 0x03 pid payload"
  have "via_loop ((addr_bytes dst @ addr_bytes src) @ concat (map addr_bytes vias) @ [0x03, pid] @ payload)
          (addr_text False src @ ''>'' @ addr_text False dst)
          (length (addr_bytes dst @ addr_bytes src)) 0 (end_bit src)
        = Inr ((addr_text False src @ ''>'' @ addr_text False dst) @ vias_text vias,
               length (addr_bytes dst @ addr_bytes src) + 7 * length vias)"
    using assms(3,4,5) by (intro via_loop_frame) (auto simp: MAX_VIA_ADDRS_def)
  then have loop: "via_loop ?f (addr_text False src @ CHR ''>'' # addr_text False dst) 14 0 (snd src AND 1 \<noteq> 0)
      = Inr (addr, 14 + 7 * length vias)"
    by (simp add: frame_bytes_def end_bit_def addr_def)
  note tail = frame_bytes_tail [where dst = dst and src = src and vias = vias and c = "0x03"
      and p = pid and pl = payload]
  have dst: "decode_ax25_address (take 7 ?f) False = Inr (addr_text False dst, snd dst)"
    and src: "decode_ax25_address (take 7 (drop 7 ?f)) False = Inr (addr_text False src, snd src)"
    using assms(1,2) by (simp_all only: concat_frame_take decode_addr_bytes)
  show ?thesis
    using tail by (simp add: ax25_to_tnc2_def dst src loop MIN_FRAME_LEN_def)
qed

section \<open>What every accepted frame guarantees\<close>

text \<open>
  A TNC2 line whose address part has length \<open>n\<close>: ASCII addresses, a colon, and a payload
  that starts on a character boundary and holds no line break.
\<close>

definition tnc2_shape :: "string \<Rightarrow> nat \<Rightarrow> bool" where
  "tnc2_shape t n \<longleftrightarrow>
     (\<exists>addr p. t = addr @ CHR '':'' # p \<and> length addr = n
             \<and> (\<forall>c\<in>set addr. is_ascii_char c) \<and> (p = [] \<or> \<not> is_cont (hd p)) \<and> line_free p)"

lemma of_char_char_of_byte [simp]: "of_char (char_of_byte b) = unat b"
  by (metis byte_of_char_of_byte unat_byte_of)

lemma utf8_of_byte_hd: "utf8_of_byte b \<noteq> [] \<and> \<not> is_cont (hd (utf8_of_byte b))"
proof -
  have "unat b < 256" using unsigned_less [of b, where 'a = nat] by simp
  then have "unat b div 64 < 4" by (simp add: div_less_iff_less_mult)
  then show ?thesis by (auto simp: utf8_of_byte_def is_cont_def)
qed

lemma high_char_not_break:
  assumes "14 \<le> n" "n < 256"
  shows "char_of (n :: nat) \<noteq> CHR 0x0A \<and> char_of n \<noteq> CHR 0x0D"
proof -
  have "(of_char (char_of n) :: nat) = n" using assms by simp
  then show ?thesis using assms by (auto simp del: of_char_of)
qed

lemma utf8_of_byte_line_free:
  assumes "b \<noteq> 0x0A" "b \<noteq> 0x0D"
  shows "line_free (utf8_of_byte b)"
proof -
  have b: "char_of_byte b \<noteq> CHR 0x0A" "char_of_byte b \<noteq> CHR 0x0D"
    using assms byte_of_char_of_byte [of b] by (auto simp: byte_of_def)
  have "unat b < 256" using unsigned_less [of b, where 'a = nat] by simp
  then have "192 + unat b div 64 < 256" by (simp add: div_less_iff_less_mult)
  moreover have "128 + unat b mod 64 < 256" by (simp add: less_trans [of _ 64])
  ultimately show ?thesis
    using b high_char_not_break [of "192 + unat b div 64"] high_char_not_break [of "128 + unat b mod 64"]
    by (auto simp: utf8_of_byte_def line_free_def)
qed

lemma payload_text_line_free: "line_free (payload_text bs)"
  by (induction bs) (simp_all add: utf8_of_byte_line_free)

lemma payload_text_hd: "payload_text bs = [] \<or> \<not> is_cont (hd (payload_text bs))"
  by (induction bs) (auto simp: utf8_of_byte_hd)

lemma show_nat_ascii: "c \<in> set (show_nat n) \<Longrightarrow> is_ascii_char c"
  by (auto dest: show_nat_digits simp: is_ascii_digit_def is_ascii_char_def)

text \<open>Address texts hold none of the separators of a line.\<close>

lemma addr_text_chars:
  assumes "valid_call (fst a)" "c \<in> set (addr_text m a)"
  shows "is_valid_call_char c \<or> c = CHR ''-'' \<or> c = CHR ''*''"
  using assms
  by (auto simp: addr_text_def call_text_def valid_call_def is_valid_call_char_def dest: show_nat_digits split: if_splits)

lemma addr_text_plain:
  assumes "valid_call (fst a)"
  shows "CHR ''>'' \<notin> set (addr_text m a)" "CHR '','' \<notin> set (addr_text m a)" "CHR '':'' \<notin> set (addr_text m a)"
    "line_free (addr_text m a)"
  using addr_text_chars [OF assms, of _ m]
  by (fastforce simp: line_free_def is_valid_call_char_def is_ascii_uppercase_def is_ascii_digit_def)+

lemma vias_split:
  "\<forall>a\<in>set vias. valid_call (fst a) \<Longrightarrow> CHR '','' \<notin> set d
    \<Longrightarrow> str_split (\<lambda>c. c = CHR '','') (d @ vias_text vias) = d # map (addr_text True) vias"
proof (induction vias arbitrary: d)
  case Nil
  then show ?case by (simp add: vias_text_def split_char)
next
  case (Cons a vias)
  have "d @ vias_text (a # vias) = d @ CHR '','' # (addr_text True a @ vias_text vias)" by (simp add: vias_text_def)
  then show ?case
    using Cons.IH [of "addr_text True a"] Cons.prems addr_text_plain(2) [of a True]
    by (simp add: split_char(2))
qed

lemma vias_text_plain:
  "\<forall>a\<in>set vias. valid_call (fst a) \<Longrightarrow> CHR ''>'' \<notin> set (vias_text vias) \<and> line_free (vias_text vias)"
proof (induction vias)
  case Nil
  then show ?case by (simp add: vias_text_def line_free_def)
next
  case (Cons a vias)
  have "vias_text (a # vias) = CHR '','' # addr_text True a @ vias_text vias" by (simp add: vias_text_def)
  then show ?case using Cons addr_text_plain(1,4) [of a True] by (simp add: line_free_def)
qed

lemma decode_call_ascii: "c \<in> set (decode_call bs) \<Longrightarrow> is_ascii_char c"
proof -
  have "unat (drop_bit 1 b) < 128" for b :: u8
    using unsigned_less [of b, where 'a = nat]
    by (simp only: unat_drop_bit_eq) (simp add: drop_bit_eq_div less_mult_imp_div_less)
  then show "c \<in> set (decode_call bs) \<Longrightarrow> is_ascii_char c"
    by (auto simp: decode_call_def is_ascii_char_def)
qed

lemma decode_ascii:
  "decode_ax25_address a mark = Inr (t, s) \<Longrightarrow> t \<noteq> [] \<and> (\<forall>c\<in>set t. is_ascii_char c)"
  by (auto simp: decode_ax25_address_def Let_def is_ascii_char_def [of "CHR ''-''"]
        is_ascii_char_def [of "CHR ''*''"] split: if_splits dest: decode_call_ascii show_nat_ascii)

lemma via_loop_step:
  assumes "via_loop frame t e k l = Inr (t', e')" "\<not> l"
  obtains c s where "\<not> MAX_VIA_ADDRS \<le> k" "\<not> e + 7 > length frame"
    "decode_ax25_address (take 7 (drop e frame)) True = Inr (c, s)"
    "via_loop frame (t @ '','' @ c) (e + 7) (Suc k) (s AND 0x01 \<noteq> 0) = Inr (t', e')"
  using assms by (subst (asm) via_loop.simps) (auto split: if_splits sum.splits)

lemma via_loop_done [simp]: "via_loop frame t e k True = Inr (t, e)"
  by (simp add: via_loop.simps)

lemma via_loop_ascii:
  "via_loop frame t e k l = Inr (t', e') \<Longrightarrow> (\<forall>c\<in>set t. is_ascii_char c)
   \<Longrightarrow> (\<forall>c\<in>set t'. is_ascii_char c)"
proof (induction frame t e k l rule: via_loop.induct)
  case (1 frame t e k l)
  show ?case
  proof (cases l)
    case True
    with "1.prems" show ?thesis by simp
  next
    case False
    from via_loop_step [OF "1.prems"(1) False] obtain c s where
      c: "\<not> MAX_VIA_ADDRS \<le> k" "\<not> e + 7 > length frame"
        "decode_ax25_address (take 7 (drop e frame)) True = Inr (c, s)"
        "via_loop frame (t @ '','' @ c) (e + 7) (Suc k) (s AND 0x01 \<noteq> 0) = Inr (t', e')" .
    have "\<forall>x\<in>set (t @ '','' @ c). is_ascii_char x"
      using "1.prems"(2) decode_ascii [OF c(3)] by (auto simp: is_ascii_char_def [of "CHR '',''"])
    with "1.IH" [OF False c(1,2,3) refl c(4)] show ?thesis by blast
  qed
qed

lemma via_loop_end:
  "via_loop frame t e k l = Inr (t', e') \<Longrightarrow> k \<le> MAX_VIA_ADDRS
   \<Longrightarrow> \<exists>j. e' = e + 7 * j \<and> k + j \<le> MAX_VIA_ADDRS"
proof (induction frame t e k l rule: via_loop.induct)
  case (1 frame t e k l)
  show ?case
  proof (cases l)
    case True
    with "1.prems" show ?thesis by (auto intro: exI [of _ 0])
  next
    case False
    from via_loop_step [OF "1.prems"(1) False] obtain c s where c: "\<not> MAX_VIA_ADDRS \<le> k" "\<not> e + 7 > length frame"
      "decode_ax25_address (take 7 (drop e frame)) True = Inr (c, s)"
      "via_loop frame (t @ '','' @ c) (e + 7) (Suc k) (s AND 0x01 \<noteq> 0) = Inr (t', e')" .
    from "1.IH" [OF False c(1,2,3) refl c(4)] c(1)
    obtain j where "e' = e + 7 + 7 * j" "Suc k + j \<le> MAX_VIA_ADDRS" by auto
    then show ?thesis by (intro exI [of _ "Suc j"]) simp
  qed
qed

lemma ax25_to_tnc2_shape:
  assumes "ax25_to_tnc2 frame = Inr f"
  shows "tnc2_shape (frame_tnc2 f) (frame_tnc2_addr_len f)"
proof -
  obtain d s t e where dec: "decode_ax25_address (take 7 frame) False = Inr d"
    "decode_ax25_address (take 7 (drop 7 frame)) False = Inr s"
    "via_loop frame (fst s @ ''>'' @ fst d) 14 0 (snd s AND 0x01 \<noteq> 0) = Inr (t, e)"
    and f: "\<exists>p. frame_tnc2 f = t @ CHR '':'' # p \<and> (p = [] \<or> p = payload_text (drop (e + 2) frame))"
      "frame_tnc2_addr_len f = length t"
    using assms
    by (auto simp: ax25_to_tnc2_def Let_def split: if_splits sum.splits prod.splits)
  have "\<forall>c\<in>set (fst s @ ''>'' @ fst d). is_ascii_char c"
    using dec(1,2) decode_ascii [of _ _ "fst d" "snd d"] decode_ascii [of _ _ "fst s" "snd s"]
    by (auto simp: is_ascii_char_def [of "CHR ''>''"])
  then have "\<forall>c\<in>set t. is_ascii_char c"
    by (rule via_loop_ascii [OF dec(3)])
  moreover obtain p where p: "frame_tnc2 f = t @ CHR '':'' # p"
    "p = [] \<or> p = payload_text (drop (e + 2) frame)"
    using f(1) by blast
  moreover have "(p = [] \<or> \<not> is_cont (hd p)) \<and> line_free p"
    using p(2) payload_text_hd payload_text_line_free by auto
  ultimately show ?thesis
    using f(2) unfolding tnc2_shape_def by metis
qed

lemma ax25_to_tnc2_lengths:
  assumes "ax25_to_tnc2 frame = Inr f"
  shows "\<exists>n\<le>8. frame_ax25_addr_len f = 14 + 7 * n \<and> frame_ax25_addr_len f + 2 \<le> length frame"
proof -
  obtain s t e where "via_loop frame t 14 0 s = Inr (fst e, snd e)"
    and f: "frame_ax25_addr_len f = snd e" "snd e + 2 \<le> length frame"
    using assms
    by (auto simp: ax25_to_tnc2_def Let_def split: if_splits sum.splits prod.splits)
  then obtain j where "snd e = 14 + 7 * j" "j \<le> MAX_VIA_ADDRS"
    using via_loop_end [of frame t 14 0 s "fst e" "snd e"] by auto
  with f show ?thesis by (auto simp: MAX_VIA_ADDRS_def)
qed

section \<open>Properties\<close>

text \<open>C22: An address field decodes to what was encoded: for every valid call sign of one to six
  characters, every SSID up to 15 and every flag byte outside the SSID bits, the encoder accepts
  \<open>CALL-SSID\<close>, and decoding gives back the call, the SSID (left out when it is 0), the star
  exactly when the H bit is set and marks are asked for, and the SSID byte.\<close>

theorem ax25_address_roundtrip:
  assumes "valid_call c" "unat ssid \<le> 15" "f AND 0x1E = 0"
  shows "\<exists>a. encode_ax25_address (c @ ''-'' @ show_nat (unat ssid)) f = Inr a \<and> length a = 7
    \<and> decode_ax25_address a mark
       = Inr (call_text c ssid (mark \<and> f AND 0x80 \<noteq> 0), f OR push_bit 1 ssid)"
  using encode_with_ssid [OF assms(1,2), of f] decode_field [OF assms(1), of _ mark]
    ssid_bits [OF assms(2,3)]
  by (intro exI [of _ "address_field c (f OR push_bit 1 ssid)"])
     (simp only: length_address_field simp_thms)

theorem ax25_address_roundtrip_witness:
  "\<exists>a. encode_ax25_address ''OH2MQK-15'' 0xE0 = Inr a \<and> length a = 7
     \<and> decode_ax25_address a True = Inr (''OH2MQK-15*'', 0xFE)"
proof -
  have v: "valid_call ''OH2MQK''"
    by (simp add: valid_call_def is_valid_call_char_def is_ascii_uppercase_def is_ascii_digit_def)
  have "call_text ''OH2MQK'' 15 (True \<and> 0xE0 AND (0x80 :: u8) \<noteq> 0) = ''OH2MQK-15*''"
    "''OH2MQK'' @ ''-'' @ show_nat (unat (15 :: u8)) = ''OH2MQK-15''"
    "0xE0 OR push_bit 1 (15 :: u8) = 0xFE"
    by (simp_all add: call_text_def show_nat.simps)
  with ax25_address_roundtrip [OF v, of 15 "0xE0" True] show ?thesis by simp
qed



text \<open>C20: Whatever bytes are received, a frame that is accepted gives a line with an ASCII address
  part of the recorded length, a colon, and a payload without line breaks that starts on a
  character boundary; the recorded address length is that of at most ten addresses and leaves room
  for control and PID in the frame.\<close>

theorem ax25_accepted_line_safe:
  assumes "ax25_to_tnc2 frame = Inr f"
  shows "tnc2_shape (frame_tnc2 f) (frame_tnc2_addr_len f)
    \<and> (\<exists>n\<le>8. frame_ax25_addr_len f = 14 + 7 * n \<and> frame_ax25_addr_len f + 2 \<le> length frame)"
  using ax25_to_tnc2_shape [OF assms] ax25_to_tnc2_lengths [OF assms] by blast

theorem ax25_accepted_line_safe_witness:
  "\<exists>f. ax25_to_tnc2 ([0x82, 0x82, 0x82, 0x82, 0x82, 0x82, 0x60, 0x84, 0x84, 0x84, 0x84, 0x84, 0x84, 0x61, 0x03, 0xF0, 0x0A]) = Inr f
     \<and> tnc2_shape (frame_tnc2 f) (frame_tnc2_addr_len f)"
proof -
  let ?frame = "[0x82, 0x82, 0x82, 0x82, 0x82, 0x82, 0x60, 0x84, 0x84, 0x84, 0x84, 0x84, 0x84, 0x61, 0x03, 0xF0, 0x0A] :: u8 list"
  have "\<exists>f. ax25_to_tnc2 ?frame = Inr f"
    by (simp add: ax25_to_tnc2_def MIN_FRAME_LEN_def decode_ax25_address_def
          decode_call_def drop_bit_eq_div Let_def)
  then show ?thesis using ax25_accepted_line_safe by blast
qed

end
