(* ===== verification/Kiss.thy ===== *)
theory Kiss
  imports Crc
begin

text \<open>
  \<open>src/kiss.rs\<close>: KISS framing. The encoder is a function on byte lists; the decoder is the
  state machine of the source with its state and buffer, \<open>feed\<close> running it over a chunk and
  returning the frames completed in it. The locale \<open>stream_decoder\<close> is the interface the
  interfaces' read loops rely on (a decoder fed chunk by chunk); it is interpreted on the
  model's own encoder and decoder.
\<close>

unbundle bit_operations_syntax

section \<open>Constants, variants, frames\<close>

definition FEND :: u8 where "FEND = 0xC0"
definition FESC :: u8 where "FESC = 0xDB"
definition TFEND :: u8 where "TFEND = 0xDC"
definition TFESC :: u8 where "TFESC = 0xDD"

lemmas kiss_bytes = FEND_def FESC_def TFEND_def TFESC_def

definition MAX_FRAME_LEN :: nat where
  "MAX_FRAME_LEN = 2000"

datatype kiss_variant = Plain | Smack | FlexNet | BpqCrc

record kiss_frame =
  cmd_byte :: u8
  frame_data :: "u8 list"

definition tnc_id :: "kiss_frame \<Rightarrow> u8" where
  "tnc_id f = drop_bit 4 (cmd_byte f) AND 0x0F"

definition cmd :: "kiss_frame \<Rightarrow> u8" where
  "cmd f = cmd_byte f AND 0x0F"

section \<open>Encoder\<close>

definition kiss_escape_byte :: "u8 \<Rightarrow> u8 list" where
  "kiss_escape_byte byte =
     (if byte = FEND then [FESC, TFEND]
      else if byte = FESC then [FESC, TFESC]
      else [byte])"

text \<open>The checksum bytes of a variant, before escaping.\<close>

fun variant_crc :: "kiss_variant \<Rightarrow> u8 \<Rightarrow> u8 list \<Rightarrow> u8 list" where
  "variant_crc Plain cb data = []"
| "variant_crc Smack cb data =
     (let crc_val = crc16 (cb # data) in [lo_byte crc_val, hi_byte crc_val])"
| "variant_crc FlexNet cb data =
     (let crc_val = crc_flex (cb # data) in [hi_byte crc_val, lo_byte crc_val])"
| "variant_crc BpqCrc cb data = [foldl (XOR) 0 data]"

definition kiss_encode :: "u8 list \<Rightarrow> u8 \<Rightarrow> kiss_variant \<Rightarrow> u8 list" where
  "kiss_encode data cb variant =
     [FEND, cb] @ concat (map kiss_escape_byte data)
     @ concat (map kiss_escape_byte (variant_crc variant cb data)) @ [FEND]"

section \<open>Decoder\<close>

datatype kiss_state = SyncHunt | Collecting | Escaped

record kiss_decoder =
  kd_state :: kiss_state
  kd_buffer :: "u8 list"

definition decoder_new :: kiss_decoder where
  "decoder_new = \<lparr>kd_state = SyncHunt, kd_buffer = []\<rparr>"

definition emit_frame :: "kiss_decoder \<Rightarrow> kiss_decoder \<times> kiss_frame option" where
  "emit_frame d =
     (case kd_buffer d of
        [] \<Rightarrow> (d, None)
      | b # bs \<Rightarrow> (d\<lparr>kd_buffer := []\<rparr>, Some \<lparr>cmd_byte = b, frame_data = bs\<rparr>))"

text \<open>One iteration of the loop of \<open>feed\<close>: the frames are zero or one.\<close>

definition decode_byte :: "kiss_decoder \<Rightarrow> u8 \<Rightarrow> kiss_decoder \<times> kiss_frame list" where
  "decode_byte d byte =
     (case kd_state d of
        SyncHunt \<Rightarrow>
          (if byte = FEND then (d\<lparr>kd_state := Collecting, kd_buffer := []\<rparr>, []) else (d, []))
      | Collecting \<Rightarrow>
          (if byte = FEND
           then (case emit_frame d of (d', None) \<Rightarrow> (d', []) | (d', Some f) \<Rightarrow> (d', [f]))
           else if byte = FESC then (d\<lparr>kd_state := Escaped\<rparr>, [])
           else (let buf = kd_buffer d @ [byte]
                 in if length buf > MAX_FRAME_LEN
                    then (d\<lparr>kd_buffer := [], kd_state := SyncHunt\<rparr>, [])
                    else (d\<lparr>kd_buffer := buf\<rparr>, [])))
      | Escaped \<Rightarrow>
          (let buf = (if byte = TFEND then kd_buffer d @ [FEND]
                      else if byte = TFESC then kd_buffer d @ [FESC]
                      else kd_buffer d)
           in (d\<lparr>kd_buffer := buf, kd_state := Collecting\<rparr>, [])))"

fun feed :: "kiss_decoder \<Rightarrow> u8 list \<Rightarrow> kiss_decoder \<times> kiss_frame list" where
  "feed d [] = (d, [])"
| "feed d (byte # data) =
     (let (d', fs) = decode_byte d byte; (d'', gs) = feed d' data in (d'', fs @ gs))"

section \<open>Streams fed chunk by chunk\<close>

text \<open>
  What a read loop relies on: feeding two chunks one after the other is feeding their
  concatenation, and an encoded message fed to a decoder that is ready comes out as its
  view and leaves the decoder ready.
\<close>

fun run_chunks :: "('d \<Rightarrow> 'b list \<Rightarrow> 'd \<times> 'f list) \<Rightarrow> 'd \<Rightarrow> 'b list list \<Rightarrow> 'd \<times> 'f list" where
  "run_chunks run d [] = (d, [])"
| "run_chunks run d (c # cs) =
     (let (d', fs) = run d c; (d'', gs) = run_chunks run d' cs in (d'', fs @ gs))"

locale stream_decoder =
  fixes run :: "'d \<Rightarrow> 'b list \<Rightarrow> 'd \<times> 'f list"
    and encode :: "'m \<Rightarrow> 'b list"
    and view :: "'m \<Rightarrow> 'f"
    and ready :: "'d \<Rightarrow> bool"
    and ok :: "'m \<Rightarrow> bool"
  assumes run_Nil: "run d [] = (d, [])"
    and run_append: "run d (xs @ ys)
      = (fst (run (fst (run d xs)) ys), snd (run d xs) @ snd (run (fst (run d xs)) ys))"
    and run_encode: "ready d \<Longrightarrow> ok m \<Longrightarrow> ready (fst (run d (encode m))) \<and> snd (run d (encode m)) = [view m]"
begin

lemma chunks_concat: "run_chunks run d cs = run d (concat cs)"
proof (induction cs arbitrary: d)
  case (Cons c cs)
  then show ?case by (simp add: run_append [of d c] split_def Let_def)
qed (simp add: run_Nil)

lemma messages:
  "ready d \<Longrightarrow> \<forall>m\<in>set ms. ok m \<Longrightarrow>
   ready (fst (run d (concat (map encode ms)))) \<and> snd (run d (concat (map encode ms))) = map view ms"
proof (induction ms arbitrary: d)
  case (Cons m ms)
  then have m: "ready (fst (run d (encode m)))" "snd (run d (encode m)) = [view m]"
    using run_encode by auto
  from Cons.IH [OF m(1)] Cons.prems(2) m(2) show ?case
    by (simp add: run_append [of d "encode m"])
qed (simp add: run_Nil)

lemma chunked_messages:
  assumes "ready d" "\<forall>m\<in>set ms. ok m" "concat cs = concat (map encode ms)"
  shows "snd (run_chunks run d cs) = map view ms"
  unfolding chunks_concat assms(3) using messages [OF assms(1,2)] by blast

end

text \<open>A decoder that is ready again after a synchronisation sequence, whatever it has seen.\<close>

locale resync_decoder = stream_decoder run encode view ready ok
  for run :: "'d \<Rightarrow> 'b list \<Rightarrow> 'd \<times> 'f list"
    and encode :: "'m \<Rightarrow> 'b list"
    and view :: "'m \<Rightarrow> 'f"
    and ready :: "'d \<Rightarrow> bool"
    and ok :: "'m \<Rightarrow> bool" +
  fixes sync :: "'b list"
  assumes ready_sync: "ready (fst (run d sync))"
begin

lemma recovers:
  assumes "\<forall>m\<in>set ms. ok m" "concat cs = garbage @ sync @ concat (map encode ms)"
  shows "\<exists>fs. snd (run_chunks run d cs) = fs @ map view ms"
proof -
  let ?d = "fst (run (fst (run d garbage)) sync)"
  have "snd (run ?d (concat (map encode ms))) = map view ms" using messages [OF ready_sync assms(1)] by blast
  then have "snd (run d (garbage @ sync @ concat (map encode ms)))
      = (snd (run d garbage) @ snd (run (fst (run d garbage)) sync)) @ map view ms"
    by (simp add: run_append [of d garbage] run_append [of "fst (run d garbage)" sync])
  then show ?thesis unfolding chunks_concat assms(2) by blast
qed

end

section \<open>The decoder on encoded frames\<close>

lemma feed_parts:
  "fst (feed d (b # bs)) = fst (feed (fst (decode_byte d b)) bs)"
  "snd (feed d (b # bs)) = snd (decode_byte d b) @ snd (feed (fst (decode_byte d b)) bs)"
  by (simp_all split: prod.splits)

lemma feed_append:
  "feed d (xs @ ys) = (fst (feed (fst (feed d xs)) ys), snd (feed d xs) @ snd (feed (fst (feed d xs)) ys))"
proof (induction xs arbitrary: d)
  case (Cons x xs)
  show ?case
    by (rule prod_eqI) (simp_all only: append_Cons feed_parts Cons.IH fst_conv snd_conv append_assoc)
qed simp

lemma feed_singleton [simp]: "feed d [b] = decode_byte d b"
  by (simp split: prod.splits)

lemma feed_escaped:
  assumes "kd_state d = Collecting" "length (kd_buffer d) < MAX_FRAME_LEN"
  shows "feed d (kiss_escape_byte b) = (d\<lparr>kd_buffer := kd_buffer d @ [b]\<rparr>, [])"
  using assms
  by (auto simp: kiss_escape_byte_def decode_byte_def Let_def kiss_bytes MAX_FRAME_LEN_def)

lemma feed_data:
  assumes "kd_state d = Collecting" "length (kd_buffer d) + length data \<le> MAX_FRAME_LEN"
  shows "feed d (concat (map kiss_escape_byte data)) = (d\<lparr>kd_buffer := kd_buffer d @ data\<rparr>, [])"
  using assms
proof (induction data arbitrary: d)
  case (Cons b bs)
  let ?d = "d\<lparr>kd_buffer := kd_buffer d @ [b]\<rparr>"
  have one: "feed d (kiss_escape_byte b) = (?d, [])"
    using Cons.prems by (intro feed_escaped) auto
  have "feed ?d (concat (map kiss_escape_byte bs)) = (?d\<lparr>kd_buffer := kd_buffer ?d @ bs\<rparr>, [])"
    using Cons.prems by (intro Cons.IH) auto
  with one show ?case by (simp add: feed_append [of d "kiss_escape_byte b"])
qed simp

definition ready :: "kiss_decoder \<Rightarrow> bool" where
  "ready d \<longleftrightarrow> kd_state d = SyncHunt \<or> kd_state d = Collecting \<and> kd_buffer d = []"

text \<open>A message: data, command byte, variant.\<close>

type_synonym kiss_message = "u8 list \<times> u8 \<times> kiss_variant"

fun encode_message :: "kiss_message \<Rightarrow> u8 list" where
  "encode_message (data, cb, v) = kiss_encode data cb v"

fun message_view :: "kiss_message \<Rightarrow> kiss_frame" where
  "message_view (data, cb, v) = \<lparr>cmd_byte = cb, frame_data = data @ variant_crc v cb data\<rparr>"

fun message_ok :: "kiss_message \<Rightarrow> bool" where
  "message_ok (data, cb, v) \<longleftrightarrow>
     cb \<noteq> FEND \<and> cb \<noteq> FESC \<and> 1 + length data + length (variant_crc v cb data) \<le> MAX_FRAME_LEN"

lemma feed_start:
  assumes "ready d"
  shows "feed d [FEND] = (\<lparr>kd_state = Collecting, kd_buffer = []\<rparr>, [])"
  using assms by (cases d) (auto simp: ready_def decode_byte_def emit_frame_def)

lemma feed_encode:
  assumes "ready d" "message_ok (data, cb, v)"
  shows "feed d (kiss_encode data cb v)
         = (\<lparr>kd_state = Collecting, kd_buffer = []\<rparr>, [message_view (data, cb, v)])"
proof -
  let ?c0 = "\<lparr>kd_state = Collecting, kd_buffer = []\<rparr>"
  let ?c1 = "\<lparr>kd_state = Collecting, kd_buffer = [cb]\<rparr>"
  let ?all = "data @ variant_crc v cb data"
  have enc: "kiss_encode data cb v = [FEND] @ [cb] @ concat (map kiss_escape_byte ?all) @ [FEND]"
    by (simp add: kiss_encode_def)
  have c1: "feed ?c0 [cb] = (?c1, [])"
    using assms(2) by (simp add: decode_byte_def MAX_FRAME_LEN_def)
  have c2: "feed ?c1 (concat (map kiss_escape_byte ?all))
      = (\<lparr>kd_state = Collecting, kd_buffer = cb # ?all\<rparr>, [])"
    using assms(2) feed_data [of ?c1 ?all] by simp
  have c3: "feed \<lparr>kd_state = Collecting, kd_buffer = cb # ?all\<rparr> [FEND]
      = (?c0, [\<lparr>cmd_byte = cb, frame_data = ?all\<rparr>])"
    by (simp add: decode_byte_def emit_frame_def)
  show ?thesis
    unfolding enc feed_append [of d] feed_start [OF assms(1)] fst_conv snd_conv
      feed_append [of ?c0] c1 feed_append [of ?c1] c2 c3
    by simp
qed

interpretation kiss_stream: stream_decoder feed encode_message message_view ready message_ok
proof unfold_locales
  fix d m assume d: "ready d" and m: "message_ok m"
  obtain data cb v where mm: "m = (data, cb, v)" by (cases m)
  show "ready (fst (feed d (encode_message m))) \<and> snd (feed d (encode_message m)) = [message_view m]"
    using feed_encode [OF d m [unfolded mm]] by (simp add: mm ready_def)
qed (simp_all add: feed_append)

lemma ready_new: "ready decoder_new"
  by (simp add: ready_def decoder_new_def)

section \<open>Resynchronisation and the buffer\<close>

lemma collecting_after_FEND: "kd_state (fst (decode_byte d FEND)) = Collecting"
  by (cases "kd_state d") (auto simp: decode_byte_def emit_frame_def Let_def split: list.splits)

lemma ready_after_FEND: "kd_state d = Collecting \<Longrightarrow> ready (fst (decode_byte d FEND))"
  by (auto simp: decode_byte_def emit_frame_def ready_def split: list.splits)

lemma ready_after_two_FENDs: "ready (fst (feed d [FEND, FEND]))"
  using ready_after_FEND [OF collecting_after_FEND] by (simp only: feed_parts feed.simps(1) fst_conv)

interpretation kiss_sync: resync_decoder feed encode_message message_view ready message_ok "[FEND, FEND]"
  by unfold_locales (rule ready_after_two_FENDs)

text \<open>The escape branch appends without looking at the length of the buffer.\<close>

lemma escapes_fill_buffer:
  assumes "kd_state d = Collecting"
  shows "feed d (concat (replicate n [FESC, TFEND]))
         = (d\<lparr>kd_buffer := kd_buffer d @ replicate n FEND\<rparr>, [])"
  using assms
proof (induction n arbitrary: d)
  case (Suc n)
  have "feed d [FESC, TFEND] = (d\<lparr>kd_buffer := kd_buffer d @ [FEND]\<rparr>, [])"
    using Suc.prems by (auto simp: decode_byte_def Let_def kiss_bytes)
  with Suc.IH [of "d\<lparr>kd_buffer := kd_buffer d @ [FEND]\<rparr>"] Suc.prems show ?case
    unfolding replicate_Suc concat.simps feed_append [of d "[FESC, TFEND]"] by simp
qed simp

section \<open>Properties\<close>

text \<open>C6: A KISS stream survives any chunking: if the bytes of a sequence of encoded messages
  (any variant, command byte not one of the two special bytes, at most 2000 bytes each) arrive in
  chunks of any sizes, the decoder returns exactly those messages, in order, each carrying its data
  followed by the checksum bytes of its variant.\<close>

theorem kiss_stream_roundtrip:
  assumes "\<forall>m\<in>set ms. message_ok m" and "concat cs = concat (map encode_message ms)"
  shows "snd (run_chunks feed decoder_new cs) = map message_view ms"
  by (rule kiss_stream.chunked_messages [OF ready_new assms])

theorem kiss_stream_roundtrip_witness:
  "snd (run_chunks feed decoder_new
         [[0xC0, 0], [0x41, 0xDB], [0xDC, 0xC0, 0xC0, 0], [0x42, 0xC0]])
   = [\<lparr>cmd_byte = 0, frame_data = [0x41, 0xC0]\<rparr>, \<lparr>cmd_byte = 0, frame_data = [0x42]\<rparr>]"
  using kiss_stream_roundtrip [of "[([0x41, 0xC0], 0, Plain), ([0x42], 0, Plain)]"
      "[[0xC0, 0], [0x41, 0xDB], [0xDC, 0xC0, 0xC0, 0], [0x42, 0xC0]]"]
  by (simp add: kiss_encode_def kiss_escape_byte_def kiss_bytes MAX_FRAME_LEN_def)

text \<open>C25: The decoder resynchronises: whatever state it is in and whatever bytes come first, after two frame delimiters every
  message is decoded, in order and however the bytes are cut into chunks.\<close>

theorem kiss_resynchronises:
  assumes "\<forall>m\<in>set ms. message_ok m" and "concat cs = garbage @ [FEND, FEND] @ concat (map encode_message ms)"
  shows "\<exists>fs. snd (run_chunks feed d cs) = fs @ map message_view ms"
  by (rule kiss_sync.recovers [OF assms])

theorem kiss_resynchronises_witness:
  "\<exists>fs. snd (run_chunks feed decoder_new [[0x01, 0xC0, 0x02], [0xDB, 0xC0], 0xC0 # kiss_encode [0x41] 0 Plain])
        = fs @ [\<lparr>cmd_byte = 0, frame_data = [0x41]\<rparr>]"
  using kiss_resynchronises [of "[([0x41], 0, Plain)]" "[[0x01, 0xC0, 0x02], [0xDB, 0xC0], 0xC0 # kiss_encode [0x41] 0 Plain]"
      "[0x01, 0xC0, 0x02, 0xDB]" decoder_new]
  by (simp add: kiss_bytes MAX_FRAME_LEN_def)

text \<open>The frame limit of 2000 bytes does not hold for escaped bytes: a stream of escape
  sequences makes the buffer as long as the sender likes, and the decoder is still collecting.\<close>

theorem kiss_buffer_unbounded:
  "feed decoder_new (FEND # concat (replicate n [FESC, TFEND]))
   = (\<lparr>kd_state = Collecting, kd_buffer = replicate n FEND\<rparr>, [])"
proof -
  have "feed decoder_new (FEND # concat (replicate n [FESC, TFEND]))
      = feed decoder_new ([FEND] @ concat (replicate n [FESC, TFEND]))" by simp
  then show ?thesis
    unfolding feed_append feed_start [OF ready_new] fst_conv snd_conv by (simp add: escapes_fill_buffer)
qed

end
