(* ===== verification/Packet.thy ===== *)
theory Packet
  imports Ax25
begin

text \<open>
  \<open>src/packet.rs\<close>: the packet record and its accessors. \<open>payload()\<close> and
  \<open>addresses()\<close> slice the TNC2 text at \<open>tnc2_addr_len\<close>, so they can panic;
  \<open>source_call()\<close> and \<open>dest_call()\<close> split it and cannot. The instant a packet was
  received at is an argument of \<open>packet_new\<close>.
\<close>

definition MAX_AX25_LEN :: nat where "MAX_AX25_LEN = 2000"
definition MAX_TNC2_LEN :: nat where "MAX_TNC2_LEN = 2800"

record packet =
  tnc2 :: string
  tnc2_addr_len :: nat
  ax25 :: "u8 list option"
  ax25_addr_len :: nat
  source_interface :: string
  is_aprs :: bool
  ui_pid :: int
  received_at :: instant
  igate_group :: u8

definition packet_new :: "instant \<Rightarrow> string \<Rightarrow> string \<Rightarrow> bool \<Rightarrow> packet" where
  "packet_new now line iface aprs =
     \<lparr>tnc2 = line,
      tnc2_addr_len = unwrap_or (str_find (\<lambda>c. c = CHR '':'') line) 0,
      ax25 = None,
      ax25_addr_len = 0,
      source_interface = iface,
      is_aprs = aprs,
      ui_pid = (if aprs then 0xF0 else -1),
      received_at = now,
      igate_group = 0\<rparr>"

definition payload :: "packet \<Rightarrow> string may_panic" where
  "payload p =
     (if tnc2_addr_len p + 1 < length (tnc2 p)
      then str_from (tnc2 p) (tnc2_addr_len p + 1) else Some [])"

definition addresses :: "packet \<Rightarrow> string may_panic" where
  "addresses p = str_to (tnc2 p) (tnc2_addr_len p)"

definition source_call :: "packet \<Rightarrow> string" where
  "source_call p = unwrap_or (nth_opt (str_split (\<lambda>c. c = CHR ''>'') (tnc2 p)) 0) []"

definition dest_call :: "packet \<Rightarrow> string" where
  "dest_call p =
     (let after_gt = unwrap_or (nth_opt (str_split (\<lambda>c. c = CHR ''>'') (tnc2 p)) 1) []
      in unwrap_or (nth_opt (str_split (\<lambda>c. c = CHR '','' \<or> c = CHR '':'') after_gt) 0) [])"

section \<open>The accessors on the parts of a line\<close>

lemma packet_new_simps [simp]:
  "tnc2 (packet_new now l i a) = l" "source_interface (packet_new now l i a) = i"
  "is_aprs (packet_new now l i a) = a" "received_at (packet_new now l i a) = now"
  "ax25 (packet_new now l i a) = None" "igate_group (packet_new now l i a) = 0"
  by (simp_all add: packet_new_def)

lemma addr_len_colon:
  "CHR '':'' \<notin> set a \<Longrightarrow> tnc2_addr_len (packet_new now (a @ CHR '':'' # p) i b) = length a"
  by (simp add: packet_new_def find_char)

lemma addr_len_no_colon: "CHR '':'' \<notin> set l \<Longrightarrow> tnc2_addr_len (packet_new now l i b) = 0"
  by (simp add: packet_new_def find_char)

lemma colon_not_cont [simp]: "\<not> is_cont (CHR '':'')"
  by (simp add: is_cont_def)

text \<open>Any packet whose text has a colon at \<open>tnc2_addr_len\<close> with a character after it.\<close>

lemma slices_at_colon:
  assumes "tnc2 p = a @ CHR '':'' # q" "tnc2_addr_len p = length a" "q = [] \<or> \<not> is_cont (hd q)"
  shows "addresses p = Some a" "payload p = Some q"
proof -
  show "addresses p = Some a"
    using assms by (simp add: addresses_def str_to_def is_char_boundary_def nth_append)
  show "payload p = Some q"
    using assms
    by (cases q) (auto simp: payload_def str_from_def is_char_boundary_def nth_append)
qed

lemma shape_slices:
  assumes "tnc2_shape (tnc2 p) (tnc2_addr_len p)"
  shows "\<exists>a q. tnc2 p = a @ CHR '':'' # q \<and> addresses p = Some a \<and> payload p = Some q \<and> line_free q
    \<and> (\<forall>c\<in>set a. is_ascii_char c)"
proof -
  obtain a q where "tnc2 p = a @ CHR '':'' # q" "length a = tnc2_addr_len p"
    "\<forall>c\<in>set a. is_ascii_char c" "q = [] \<or> \<not> is_cont (hd q)" "line_free q"
    using assms unfolding tnc2_shape_def by blast
  then show ?thesis using slices_at_colon [of p a q] by auto
qed

lemma new_slices:
  assumes "utf8_valid (a @ CHR '':'' # q)" "CHR '':'' \<notin> set a"
  shows "addresses (packet_new now (a @ CHR '':'' # q) i b) = Some a"
    "payload (packet_new now (a @ CHR '':'' # q) i b) = Some q"
proof -
  have "utf8_valid q"
    using utf8_valid_split [OF assms(1)] by (simp add: is_ascii_char_def)
  then have "q = [] \<or> \<not> is_cont (hd q)" by (rule utf8_valid_hd)
  then show "addresses (packet_new now (a @ CHR '':'' # q) i b) = Some a"
    "payload (packet_new now (a @ CHR '':'' # q) i b) = Some q"
    using slices_at_colon [of "packet_new now (a @ CHR '':'' # q) i b" a q] assms(2)
    by (simp_all add: addr_len_colon)
qed

lemma no_colon_payload:
  assumes "CHR '':'' \<notin> set l"
  shows "payload (packet_new now l i b) =
    (if 1 < length l \<and> is_cont (l ! 1) then None else Some (drop 1 l))"
    "addresses (packet_new now l i b) = Some []"
  using assms
  by (auto simp: payload_def addresses_def addr_len_no_colon str_from_def is_char_boundary_def)

lemma source_call_eq: "source_call p = takeWhile (\<lambda>c. c \<noteq> CHR ''>'') (tnc2 p)"
  by (subst source_call_def, subst str_split_Cons) simp

lemma source_dest_of:
  assumes "CHR ''>'' \<notin> set s" "CHR ''>'' \<notin> set d" "CHR '','' \<notin> set d" "CHR '':'' \<notin> set d"
    and "r = [] \<or> hd r \<in> {CHR '','', CHR '':''}"
    and "tnc2 p = s @ CHR ''>'' # d @ r"
  shows "source_call p = s" "dest_call p = d"
proof -
  have sp: "str_split (\<lambda>c. c = CHR ''>'') (tnc2 p) = s # str_split (\<lambda>c. c = CHR ''>'') (d @ r)"
    unfolding assms(6) by (rule split_char(2) [OF assms(1)])
  then show "source_call p = s" by (simp add: source_call_def)
  have hd: "hd (str_split (\<lambda>c. c = CHR ''>'') (d @ r)) = d @ takeWhile (\<lambda>c. c \<noteq> CHR ''>'') r"
    using assms(2) by (simp add: str_split_hd takeWhile_char)
  have nth: "nth_opt xs 0 = (if xs = [] then None else Some (hd xs))" for xs :: "'b list"
    by (cases xs) simp_all
  have "takeWhile (\<lambda>c. \<not> (c = CHR '','' \<or> c = CHR '':'')) (d @ takeWhile (\<lambda>c. c \<noteq> CHR ''>'') r) = d"
    using assms(3,4,5) by (cases r) (auto simp: takeWhile_two_chars)
  then show "dest_call p = d"
    by (simp add: dest_call_def sp nth str_split_hd takeWhile_char [OF assms(2)])
qed

section \<open>Properties\<close>

text \<open>For a line that is valid UTF-8 and has a colon, \<open>addresses()\<close> and \<open>payload()\<close>
  never panic and return the text before and after the first colon.\<close>

theorem packet_slices_total:
  assumes "utf8_valid (a @ CHR '':'' # q)" and "CHR '':'' \<notin> set a"
  shows "addresses (packet_new now (a @ CHR '':'' # q) i b) = Some a
    \<and> payload (packet_new now (a @ CHR '':'' # q) i b) = Some q"
  using new_slices [OF assms] by blast

theorem packet_slices_total_witness:
  "addresses (packet_new 0 ''SRC>DST,VIA1,VIA2:payload'' ''port0'' True) = Some ''SRC>DST,VIA1,VIA2''
   \<and> payload (packet_new 0 ''SRC>DST,VIA1,VIA2:payload'' ''port0'' True) = Some ''payload''"
proof -
  have "utf8_valid (''SRC>DST,VIA1,VIA2'' @ CHR '':'' # ''payload'')"
    by (rule utf8_valid_all_ascii) (simp add: is_ascii_char_def)
  from packet_slices_total [OF this] show ?thesis by simp
qed

text \<open>A line without a colon makes \<open>payload()\<close> panic exactly when its second byte is a
  continuation byte, that is when the line starts with a two-byte or longer character.\<close>

theorem packet_payload_panics:
  "CHR '':'' \<notin> set l \<Longrightarrow>
   payload (packet_new now l i b) = None \<longleftrightarrow> 1 < length l \<and> is_cont (l ! 1)"
  using no_colon_payload(1) [of l now i b] by simp

theorem packet_payload_panics_witness:
  "payload (packet_new 0 [CHR 0xC3, CHR 0xA9] ''port0'' True) = None"
  using packet_payload_panics [of "[CHR 0xC3, CHR 0xA9]" 0 "''port0''" True]
  by (simp add: is_cont_def)

end
