(* ===== verification/Dedupe.thy ===== *)
theory Dedupe
  imports Packet
begin

text \<open>
  \<open>src/digipeater/dedupe.rs\<close>: the duplicate detector. The current instant is an argument.
  \<open>check\<close> is \<open>check_key\<close> on the packet's key; computing the key slices the packet, so it can
  panic. The locale \<open>packet_key\<close> is what the detector and the viscous queue rely on: two
  packets have the same key when source, destination and trimmed payload agree, whatever their
  via paths. The second half of the theory states what a run of checks and cleanups guarantees.
\<close>

definition DEFAULT_STORETIME :: duration where
  "DEFAULT_STORETIME = from_secs 30"

datatype dupe_result = New | Duplicate u32

record dupe_key =
  key_addr :: string
  key_payload :: string

record dupe_entry =
  seen_count :: u32
  expires_at :: instant

record dupe_checker =
  storetime :: duration
  dupe_entries :: "(dupe_key, dupe_entry) hash_map"

definition from_packet :: "packet \<Rightarrow> dupe_key may_panic" where
  "from_packet p = do {
     let addr = source_call p @ ''>'' @ dest_call p;
     pl \<leftarrow> payload p;
     Some \<lparr>key_addr = addr, key_payload = trim_end pl\<rparr>
   }"

definition dupe_new :: "duration \<Rightarrow> dupe_checker" where
  "dupe_new st = \<lparr>storetime = st, dupe_entries = []\<rparr>"

text \<open>The body of \<open>check\<close> after the key is known.\<close>

definition check_key :: "dupe_checker \<Rightarrow> dupe_key \<Rightarrow> instant \<Rightarrow> dupe_checker \<times> dupe_result" where
  "check_key c k now =
     (case hm_get (dupe_entries c) k of
        Some entry \<Rightarrow>
          if expires_at entry > now
          then (let entry = entry\<lparr>seen_count := seen_count entry + 1\<rparr>
                in (c\<lparr>dupe_entries := hm_insert k entry (dupe_entries c)\<rparr>, Duplicate (seen_count entry)))
          else (c\<lparr>dupe_entries := hm_insert k (entry\<lparr>seen_count := 1, expires_at := now + storetime c\<rparr>)
                                   (dupe_entries c)\<rparr>, New)
      | None \<Rightarrow>
          (c\<lparr>dupe_entries := hm_insert k \<lparr>seen_count = 1, expires_at = now + storetime c\<rparr>
                               (dupe_entries c)\<rparr>, New))"

definition check :: "dupe_checker \<Rightarrow> packet \<Rightarrow> instant \<Rightarrow> (dupe_checker \<times> dupe_result) may_panic" where
  "check c p now = do { k \<leftarrow> from_packet p; Some (check_key c k now) }"

definition dupe_cleanup :: "dupe_checker \<Rightarrow> instant \<Rightarrow> dupe_checker" where
  "dupe_cleanup c now =
     c\<lparr>dupe_entries := hm_retain (\<lambda>entry. expires_at entry > now) (dupe_entries c)\<rparr>"

definition dupe_len :: "dupe_checker \<Rightarrow> nat" where
  "dupe_len c = length (dupe_entries c)"

definition dupe_is_empty :: "dupe_checker \<Rightarrow> bool" where
  "dupe_is_empty c \<longleftrightarrow> dupe_entries c = []"

section \<open>Keys that ignore the via path\<close>

locale packet_key =
  fixes key :: "packet \<Rightarrow> 'k may_panic"
  assumes key_eq_iff: "payload p = Some x \<Longrightarrow> payload q = Some y \<Longrightarrow>
      key p = key q \<longleftrightarrow> source_call p = source_call q \<and> dest_call p = dest_call q \<and> trim_end x = trim_end y"
    and key_panics: "key p = None \<longleftrightarrow> payload p = None"
begin

text \<open>Two relayed copies of one packet: the same source, destination and payload up to trailing
  spaces, any via paths.\<close>

lemma copies_same_key:
  assumes "CHR ''>'' \<notin> set s" "CHR '':'' \<notin> set s"
    and "CHR ''>'' \<notin> set d" "CHR '','' \<notin> set d" "CHR '':'' \<notin> set d"
    and "CHR '':'' \<notin> set v" "v = [] \<or> hd v = CHR '',''"
    and "CHR '':'' \<notin> set w" "w = [] \<or> hd w = CHR '',''"
    and "utf8_valid (s @ CHR ''>'' # d @ v @ CHR '':'' # x)"
    and "utf8_valid (s @ CHR ''>'' # d @ w @ CHR '':'' # x @ replicate n (CHR '' ''))"
  shows "key (packet_new t (s @ CHR ''>'' # d @ v @ CHR '':'' # x) i a)
       = key (packet_new t' (s @ CHR ''>'' # d @ w @ CHR '':'' # x @ replicate n (CHR '' '')) j b)"
    and "key (packet_new t (s @ CHR ''>'' # d @ v @ CHR '':'' # x) i a) \<noteq> None"
proof -
  let ?p = "packet_new t (s @ CHR ''>'' # d @ v @ CHR '':'' # x) i a"
  let ?q = "packet_new t' (s @ CHR ''>'' # d @ w @ CHR '':'' # x @ replicate n (CHR '' '')) j b"
  have p: "payload ?p = Some x"
    using new_slices(2) [of "s @ CHR ''>'' # d @ v" x t i a] assms by simp
  have q: "payload ?q = Some (x @ replicate n (CHR '' ''))"
    using new_slices(2) [of "s @ CHR ''>'' # d @ w" "x @ replicate n (CHR '' '')" t' j b] assms by simp
  have hv: "v @ CHR '':'' # x = [] \<or> hd (v @ CHR '':'' # x) \<in> {CHR '','', CHR '':''}"
    using assms(7) by (cases v) auto
  have hw: "w @ CHR '':'' # x @ replicate n (CHR '' '') = []
      \<or> hd (w @ CHR '':'' # x @ replicate n (CHR '' '')) \<in> {CHR '','', CHR '':''}"
    using assms(9) by (cases w) auto
  have "source_call ?p = s" "dest_call ?p = d" "source_call ?q = s" "dest_call ?q = d"
    using source_dest_of [OF assms(1,3,4,5) hv, of ?p] source_dest_of [OF assms(1,3,4,5) hw, of ?q]
    by simp_all
  then show "key ?p = key ?q"
    using key_eq_iff [OF p q] by (simp add: trim_end_spaces)
  show "key ?p \<noteq> None" using key_panics p by simp
qed

end

text \<open>The separator makes the address part of a key injective.\<close>

lemma source_no_gt: "CHR ''>'' \<notin> set (source_call p)"
  unfolding source_call_eq by (auto dest: set_takeWhileD)

lemma address_text_inj:
  assumes "CHR ''>'' \<notin> set s" "CHR ''>'' \<notin> set s'" "s @ CHR ''>'' # d = s' @ CHR ''>'' # d'"
  shows "s = s' \<and> d = d'"
proof -
  have "takeWhile (\<lambda>x. x \<noteq> CHR ''>'') (s @ CHR ''>'' # d) = s"
    "takeWhile (\<lambda>x. x \<noteq> CHR ''>'') (s' @ CHR ''>'' # d') = s'"
    using assms(1,2) by (simp_all add: takeWhile_char)
  then have "s = s'" using assms(3) by simp
  with assms(3) show ?thesis by simp
qed

interpretation dupe: packet_key from_packet
proof
  fix p q x y assume "payload p = Some x" "payload q = Some y"
  then show "from_packet p = from_packet q \<longleftrightarrow>
      source_call p = source_call q \<and> dest_call p = dest_call q \<and> trim_end x = trim_end y"
    using address_text_inj [OF source_no_gt source_no_gt, of p "dest_call p" q "dest_call q"]
    by (auto simp: from_packet_def)
next
  fix p show "from_packet p = None \<longleftrightarrow> payload p = None"
    by (cases "payload p") (simp_all add: from_packet_def)
qed

section \<open>Runs of checks and cleanups\<close>

definition dupe_ok :: "dupe_checker \<Rightarrow> bool" where
  "dupe_ok c \<longleftrightarrow> hm_ok (dupe_entries c)"

text \<open>The live entry of a key.\<close>

definition live :: "dupe_checker \<Rightarrow> dupe_key \<Rightarrow> instant \<Rightarrow> dupe_entry option" where
  "live c k now =
     (case hm_get (dupe_entries c) k of
        None \<Rightarrow> None | Some e \<Rightarrow> if expires_at e > now then Some e else None)"

text \<open>The entry a check stores, given the live entry.\<close>

definition bump :: "dupe_entry option \<Rightarrow> instant \<Rightarrow> duration \<Rightarrow> dupe_entry" where
  "bump l now st =
     (case l of
        None \<Rightarrow> \<lparr>seen_count = 1, expires_at = now + st\<rparr>
      | Some e \<Rightarrow> e\<lparr>seen_count := seen_count e + 1\<rparr>)"

lemma entry_reset [simp]:
  "(e :: dupe_entry)\<lparr>seen_count := a, expires_at := b\<rparr> = \<lparr>seen_count = a, expires_at = b\<rparr>"
  by (cases e) simp

lemma check_key_live:
  "check_key c k now =
     (c\<lparr>dupe_entries := hm_insert k (bump (live c k now) now (storetime c)) (dupe_entries c)\<rparr>,
      case live c k now of
        None \<Rightarrow> New | Some _ \<Rightarrow> Duplicate (seen_count (bump (live c k now) now (storetime c))))"
  by (auto simp: check_key_def live_def Let_def bump_def split: option.splits)

lemma live_insert:
  "live (c\<lparr>dupe_entries := hm_insert k e (dupe_entries c)\<rparr>) j t
   = (if j = k then (if expires_at e > t then Some e else None) else live c j t)"
  by (simp add: live_def)

lemma check_key_storetime [simp]: "storetime (fst (check_key c k now)) = storetime c"
  by (simp add: check_key_live)

lemma live_check_key:
  "live (fst (check_key c k now)) j t =
     (if j = k
      then (let e = bump (live c k now) now (storetime c) in if expires_at e > t then Some e else None)
      else live c j t)"
  by (simp add: check_key_live live_insert)

lemma live_cleanup:
  "dupe_ok c \<Longrightarrow> now \<le> t \<Longrightarrow> live (dupe_cleanup c now) k t = live c k t"
  by (auto simp: live_def dupe_cleanup_def dupe_ok_def hm_get_retain split: option.splits)

text \<open>Two detectors are alike from \<open>now\<close> on when they agree on the entries live then or later.\<close>

definition dupe_alike :: "instant \<Rightarrow> dupe_checker \<Rightarrow> dupe_checker \<Rightarrow> bool" where
  "dupe_alike now c c' \<longleftrightarrow> storetime c = storetime c' \<and> (\<forall>k t. now \<le> t \<longrightarrow> live c k t = live c' k t)"

interpretation dupe_store: swept_store check_key dupe_cleanup dupe_alike dupe_ok
proof
  fix s s' :: dupe_checker and x now
  assume a: "dupe_alike now s s'"
  then have l: "\<And>k t. now \<le> t \<Longrightarrow> live s k t = live s' k t" and st: "storetime s = storetime s'"
    by (simp_all add: dupe_alike_def)
  have x: "live s x now = live s' x now" by (rule l) simp
  have r: "snd (check_key s x now) = snd (check_key s' x now)"
    unfolding check_key_live snd_conv x st ..
  show "snd (check_key s x now) = snd (check_key s' x now)
      \<and> dupe_alike now (fst (check_key s x now)) (fst (check_key s' x now))"
    unfolding dupe_alike_def live_check_key x st check_key_storetime
    using l r by simp
next
  fix s s' :: dupe_checker and now assume "dupe_ok s'" "dupe_alike now s s'"
  then show "dupe_alike now s (dupe_cleanup s' now)"
    by (simp add: dupe_alike_def live_cleanup) (simp add: dupe_cleanup_def)
qed (auto simp: dupe_alike_def dupe_ok_def check_key_live dupe_cleanup_def)

text \<open>
  The promise of the detector: between two observations of one key answered \<open>New\<close> at least
  the store time passes. For a run whose clock does not go back, by induction over the events
  from a state in which the key was last new at \<open>t0\<close>.
\<close>

fun news :: "dupe_key \<Rightarrow> dupe_key timed list \<Rightarrow> dupe_result list \<Rightarrow> instant list" where
  "news k (Op j t # es) (r # rs) = (if j = k \<and> r = New then [t] else []) @ news k es rs"
| "news k (Sweep t # es) rs = news k es rs"
| "news k es rs = []"

fun spaced :: "duration \<Rightarrow> instant list \<Rightarrow> bool" where
  "spaced st (s # t # ts) \<longleftrightarrow> s + st \<le> t \<and> spaced st (t # ts)"
| "spaced st ts \<longleftrightarrow> True"

abbreviation dupe_run :: "dupe_checker \<Rightarrow> dupe_key timed list \<Rightarrow> dupe_checker \<times> dupe_result list" where
  "dupe_run \<equiv> run_timed check_key dupe_cleanup"

lemma bump_expires: "live c k now = Some e \<Longrightarrow> expires_at (bump (live c k now) now st) = expires_at e"
  "live c k now = None \<Longrightarrow> expires_at (bump (live c k now) now st) = now + st"
  by (simp_all add: bump_def)

text \<open>A key that is live until \<open>x\<close> is not new before \<open>x\<close>; the invariant of the induction.\<close>

definition held :: "dupe_checker \<Rightarrow> dupe_key \<Rightarrow> instant \<Rightarrow> instant \<Rightarrow> bool" where
  "held c k now x \<longleftrightarrow> (\<forall>t. now \<le> t \<and> t < x \<longrightarrow> (\<exists>e. live c k t = Some e \<and> expires_at e = x))"

lemma held_check_other: "j \<noteq> k \<Longrightarrow> held (fst (check_key c j t)) k now x = held c k now x"
  by (simp add: held_def live_check_key)

lemma dupe_cleanup_storetime [simp]: "storetime (dupe_cleanup c now) = storetime c"
  by (simp add: dupe_cleanup_def)

lemma held_later: "held c k now x \<Longrightarrow> now \<le> t \<Longrightarrow> held c k t x"
  by (simp add: held_def)

lemma held_cleanup: "dupe_ok c \<Longrightarrow> held c k t x \<Longrightarrow> held (dupe_cleanup c t) k t x"
  by (simp add: held_def live_cleanup)

lemma held_check_same:
  assumes "held c k t x" "t < x"
  shows "snd (check_key c k t) \<noteq> New" "held (fst (check_key c k t)) k t x"
proof -
  obtain e where e: "live c k t = Some e" "expires_at e = x"
    using assms by (auto simp: held_def)
  then show "snd (check_key c k t) \<noteq> New" by (simp add: check_key_live)
  show "held (fst (check_key c k t)) k t x"
    using e bump_expires(1) [OF e(1), of "storetime c"] by (simp add: held_def live_check_key Let_def)
qed

lemma held_check_new:
  assumes "snd (check_key c k t) = New"
  shows "held (fst (check_key c k t)) k t (t + storetime c)"
proof -
  have "live c k t = None" using assms by (simp add: check_key_live split: option.splits)
  then show ?thesis
    using bump_expires(2) [of c k t "storetime c"] by (simp add: held_def live_check_key Let_def)
qed

lemma dupe_run_Op:
  "snd (dupe_run c (Op j t # es)) = snd (check_key c j t) # snd (dupe_run (fst (check_key c j t)) es)"
  by (simp add: split_def Let_def)

lemma news_spaced_gen:
  assumes "dupe_ok c" "clock_from now es" "held c k now (s + storetime c)"
  shows "spaced (storetime c) (s # news k es (snd (dupe_run c es)))"
  using assms
proof (induction es arbitrary: c now s)
  case (Cons e es)
  show ?case
  proof (cases e)
    case (Sweep t)
    have st: "storetime (dupe_cleanup c t) = storetime c" "dupe_ok (dupe_cleanup c t)"
      using Cons.prems(1) by (auto simp: dupe_cleanup_def dupe_ok_def)
    have "held (dupe_cleanup c t) k t (s + storetime (dupe_cleanup c t))"
      using Cons.prems Sweep unfolding st(1) by (auto intro: held_cleanup held_later)
    then show ?thesis
      using Cons.prems Sweep Cons.IH [of "dupe_cleanup c t" t s] st by simp
  next
    case (Op j t)
    let ?c = "fst (check_key c j t)"
    have t: "now \<le> t" "clock_from t es" using Cons.prems(2) Op by auto
    have ok: "dupe_ok ?c" using Cons.prems(1) by (rule dupe_store.invar_step)
    have held: "held c k t (s + storetime c)" using Cons.prems(3) t(1) by (rule held_later)
    have IH: "held ?c k t (r + storetime c) \<Longrightarrow> spaced (storetime c) (r # news k es (snd (dupe_run ?c es)))" for r
      using Cons.IH [OF ok t(2), of r] by simp
    consider "j \<noteq> k" | "j = k" "snd (check_key c k t) \<noteq> New" | "j = k" "snd (check_key c k t) = New"
      by blast
    then show ?thesis
    proof cases
      case 1
      then show ?thesis
        unfolding Op dupe_run_Op using held by (simp add: held_check_other IH)
    next
      case 2
      have "held ?c k t (s + storetime c)"
      proof (cases "t < s + storetime c")
        case True
        with 2 held_check_same(2) [OF held True] show ?thesis by simp
      next
        case False
        then show ?thesis unfolding held_def by auto
      qed
      from IH [OF this] show ?thesis unfolding Op dupe_run_Op using 2 by simp
    next
      case 3
      have "s + storetime c \<le> t"
        using held_check_same(1) [OF held] 3 by force
      moreover have "spaced (storetime c) (t # news k es (snd (dupe_run ?c es)))"
        using held_check_new [OF 3(2)] 3(1) by (intro IH) simp
      ultimately show ?thesis unfolding Op dupe_run_Op using 3 by simp
    qed
  qed
qed simp

lemma news_spaced:
  "dupe_ok c \<Longrightarrow> clock_from now es \<Longrightarrow> spaced (storetime c) (news k es (snd (dupe_run c es)))"
proof (induction es arbitrary: c now)
  case (Cons e es)
  show ?case
  proof (cases e)
    case (Sweep t)
    have "dupe_ok (dupe_cleanup c t)" using Cons.prems(1) by (rule dupe_store.invar_sweep)
    then show ?thesis using Cons.IH [of "dupe_cleanup c t" t] Cons.prems(2) Sweep by simp
  next
    case (Op j t)
    let ?c = "fst (check_key c j t)"
    have t: "clock_from t es" and ok: "dupe_ok ?c"
      using Cons.prems Op dupe_store.invar_step by auto
    show ?thesis
    proof (cases "j = k \<and> snd (check_key c k t) = New")
      case True
      then have "held ?c k t (t + storetime ?c)" using held_check_new [of c k t] by simp
      from news_spaced_gen [OF ok t this] True show ?thesis
        unfolding Op dupe_run_Op by simp
    next
      case False
      with Cons.IH [OF ok t] show ?thesis unfolding Op dupe_run_Op by auto
    qed
  qed
qed simp

section \<open>Refinement of an abstract detector\<close>

text \<open>
  The abstract detector remembers, per key, when it was last new and how many observations there
  were since; it never forgets. Its answers are the code's, whatever was swept.
\<close>

type_synonym dupe_spec = "dupe_key \<Rightarrow> (instant \<times> nat) option"

definition spec_check :: "duration \<Rightarrow> dupe_spec \<Rightarrow> dupe_key \<Rightarrow> instant \<Rightarrow> dupe_spec \<times> dupe_result" where
  "spec_check st a k now =
     (case a k of
        Some (s, n) \<Rightarrow> if now < s + st then (a(k \<mapsto> (s, Suc n)), Duplicate (of_nat (Suc n)))
                       else (a(k \<mapsto> (now, 1)), New)
      | None \<Rightarrow> (a(k \<mapsto> (now, 1)), New))"

fun spec_run :: "duration \<Rightarrow> dupe_spec \<Rightarrow> dupe_key timed list \<Rightarrow> dupe_result list" where
  "spec_run st a [] = []"
| "spec_run st a (Op k t # es) = (let (a', r) = spec_check st a k t in r # spec_run st a' es)"
| "spec_run st a (Sweep t # es) = spec_run st a es"

definition refines :: "dupe_checker \<Rightarrow> dupe_spec \<Rightarrow> instant \<Rightarrow> bool" where
  "refines c a now \<longleftrightarrow>
     (\<forall>k t. now \<le> t \<longrightarrow> live c k t =
        (case a k of
           None \<Rightarrow> None
         | Some (s, n) \<Rightarrow> if t < s + storetime c
             then Some \<lparr>seen_count = of_nat n, expires_at = s + storetime c\<rparr> else None))"

lemma refines_later: "refines c a now \<Longrightarrow> now \<le> t \<Longrightarrow> refines c a t"
  by (simp add: refines_def)

lemma refines_cleanup:
  "dupe_ok c \<Longrightarrow> refines c a now \<Longrightarrow> refines (dupe_cleanup c now) a now"
  unfolding refines_def dupe_cleanup_storetime by (simp add: live_cleanup)

lemma refines_check:
  assumes "refines c a now"
  shows "snd (check_key c k now) = snd (spec_check (storetime c) a k now)"
    and "refines (fst (check_key c k now)) (fst (spec_check (storetime c) a k now)) now"
proof -
  have l: "live c k now = (case a k of None \<Rightarrow> None
      | Some (s, n) \<Rightarrow> if now < s + storetime c
          then Some \<lparr>seen_count = of_nat n, expires_at = s + storetime c\<rparr> else None)"
    using assms by (simp add: refines_def)
  show "snd (check_key c k now) = snd (spec_check (storetime c) a k now)"
    by (auto simp: check_key_live spec_check_def l bump_def split: option.splits prod.splits)
  show "refines (fst (check_key c k now)) (fst (spec_check (storetime c) a k now)) now"
    using assms unfolding refines_def live_check_key check_key_storetime
    by (auto simp: l spec_check_def bump_def split: option.splits prod.splits)
qed

lemma dupe_run_refines:
  "dupe_ok c \<Longrightarrow> clock_from now es \<Longrightarrow> refines c a now
   \<Longrightarrow> snd (dupe_run c es) = spec_run (storetime c) a es"
proof (induction es arbitrary: c a now)
  case (Cons e es)
  show ?case
  proof (cases e)
    case (Sweep t)
    have "storetime (dupe_cleanup c t) = storetime c" "dupe_ok (dupe_cleanup c t)"
      using Cons.prems(1) by (auto simp: dupe_cleanup_def dupe_ok_def)
    moreover have "refines (dupe_cleanup c t) a t"
      using Cons.prems Sweep by (auto intro: refines_cleanup refines_later)
    ultimately show ?thesis
      using Cons.IH [of "dupe_cleanup c t" t a] Cons.prems Sweep by simp
  next
    case (Op k t)
    have r: "refines c a t" using Cons.prems Op by (auto intro: refines_later)
    have "snd (dupe_run (fst (check_key c k t)) es)
        = spec_run (storetime c) (fst (spec_check (storetime c) a k t)) es"
      using Cons.IH [of "fst (check_key c k t)" t "fst (spec_check (storetime c) a k t)"]
        Cons.prems Op refines_check(2) [OF r] dupe_store.invar_step by simp
    then show ?thesis
      unfolding Op dupe_run_Op using refines_check(1) [OF r, of k] by (simp add: split_def Let_def)
  qed
qed simp

section \<open>Properties\<close>

lemma dupe_new_ok: "dupe_ok (dupe_new st)" "storetime (dupe_new st) = st"
  by (simp_all add: dupe_new_def dupe_ok_def)

text \<open>Whatever checks and cleanups a detector performs on a clock that does not go back, two
  observations of one key that it answers New are at least the store time apart.\<close>

theorem dupe_new_spaced:
  assumes "clock_from now es"
  shows "spaced st (news k es (snd (dupe_run (dupe_new st) es)))"
  using news_spaced [OF dupe_new_ok(1) assms] by (simp add: dupe_new_ok)

theorem dupe_new_spaced_witness:
  "spaced 30 (news \<lparr>key_addr = ''A>B'', key_payload = ''x''\<rparr>
     [Op \<lparr>key_addr = ''A>B'', key_payload = ''x''\<rparr> 5, Sweep 6,
      Op \<lparr>key_addr = ''A>B'', key_payload = ''x''\<rparr> 7, Op \<lparr>key_addr = ''A>B'', key_payload = ''x''\<rparr> 35]
     (snd (dupe_run (dupe_new 30)
       [Op \<lparr>key_addr = ''A>B'', key_payload = ''x''\<rparr> 5, Sweep 6,
        Op \<lparr>key_addr = ''A>B'', key_payload = ''x''\<rparr> 7, Op \<lparr>key_addr = ''A>B'', key_payload = ''x''\<rparr> 35])))"
  by (rule dupe_new_spaced [of 0]) simp

text \<open>C9: The detector refines an abstract one that never forgets a key: on every clock that does
  not go back, with cleanups anywhere, its answers (and the counts of the duplicates) are those of
  the map from keys to the instant they were last new and the number of observations since.\<close>

theorem dupe_refines_spec:
  assumes "clock_from now es"
  shows "snd (dupe_run (dupe_new st) es) = spec_run st (\<lambda>_. None) es"
proof -
  have "refines (dupe_new st) (\<lambda>_. None) now"
    by (simp add: refines_def live_def dupe_new_def)
  from dupe_run_refines [OF dupe_new_ok(1) assms this] show ?thesis by (simp add: dupe_new_ok)
qed

theorem dupe_refines_spec_witness:
  "snd (dupe_run (dupe_new 30)
      [Op \<lparr>key_addr = ''A>B'', key_payload = ''x''\<rparr> 5, Sweep 6,
       Op \<lparr>key_addr = ''A>B'', key_payload = ''x''\<rparr> 7, Op \<lparr>key_addr = ''A>B'', key_payload = ''x''\<rparr> 35])
   = [New, Duplicate 2, New]"
proof -
  let ?es = "[Op \<lparr>key_addr = ''A>B'', key_payload = ''x''\<rparr> 5, Sweep 6,
      Op \<lparr>key_addr = ''A>B'', key_payload = ''x''\<rparr> 7, Op \<lparr>key_addr = ''A>B'', key_payload = ''x''\<rparr> 35]"
  have "clock_from 0 ?es" by simp
  from dupe_refines_spec [OF this, of 30] show ?thesis
    by (simp add: spec_check_def)
qed

end
