(* ===== verification/Viscous.thy ===== *)
theory Viscous
  imports Dedupe "HOL-Library.Multiset"
begin

text \<open>
  \<open>src/digipeater/viscous.rs\<close>: the queue of packets that wait before they are digipeated. The
  current instant is an argument. \<open>drain_loop\<close> is the index loop of \<open>drain_expired\<close> with its
  \<open>swap_remove\<close>, so the order in which packets leave is the code's. The lemmas show that the
  loop splits the queue into what waited long enough and the rest, and that a packet heard from
  elsewhere is never sent afterwards.
\<close>

record pending_packet =
  pend_packet :: packet
  digipeated_tnc2 :: string
  added_at :: instant
  delay :: duration

type_synonym viscous_queue = "pending_packet list"

definition viscous_new :: viscous_queue where
  "viscous_new = []"

definition viscous_add :: "viscous_queue \<Rightarrow> packet \<Rightarrow> string \<Rightarrow> duration \<Rightarrow> instant \<Rightarrow> viscous_queue" where
  "viscous_add pending p digi d now =
     pending @ [\<lparr>pend_packet = p, digipeated_tnc2 = digi, added_at = now, delay = d\<rparr>]"

definition dedup_key :: "packet \<Rightarrow> (string \<times> string) may_panic" where
  "dedup_key p = do {
     let addr = source_call p @ ''>'' @ dest_call p;
     pl \<leftarrow> payload p;
     Some (addr, trim_end pl)
   }"

text \<open>\<open>Vec::retain\<close> with a predicate that may panic.\<close>

fun retain_panicking :: "('a \<Rightarrow> bool may_panic) \<Rightarrow> 'a list \<Rightarrow> 'a list may_panic" where
  "retain_panicking p [] = Some []"
| "retain_panicking p (x # xs) = do {
     b \<leftarrow> p x;
     ys \<leftarrow> retain_panicking p xs;
     Some (if b then x # ys else ys)
   }"

definition cancel_if_heard :: "viscous_queue \<Rightarrow> packet \<Rightarrow> (viscous_queue \<times> nat) may_panic" where
  "cancel_if_heard pending p = do {
     heard_key \<leftarrow> dedup_key p;
     kept \<leftarrow> retain_panicking
       (\<lambda>entry. map_option (\<lambda>k. k \<noteq> heard_key) (dedup_key (pend_packet entry))) pending;
     Some (kept, length pending - length kept)
   }"

text \<open>\<open>Vec::swap_remove(i)\<close>: the last element takes the place of the removed one.\<close>

definition swap_remove :: "'a list \<Rightarrow> nat \<Rightarrow> 'a list" where
  "swap_remove xs i = (if Suc i = length xs then butlast xs else (butlast xs)[i := last xs])"

definition has_expired :: "instant \<Rightarrow> pending_packet \<Rightarrow> bool" where
  "has_expired now e \<longleftrightarrow> duration_since now (added_at e) \<ge> delay e"

function drain_loop ::
  "instant \<Rightarrow> viscous_queue \<Rightarrow> nat \<Rightarrow> (packet \<times> string) list \<Rightarrow> viscous_queue \<times> (packet \<times> string) list" where
  "drain_loop now pending i expired =
     (if i < length pending
      then if has_expired now (pending ! i)
           then drain_loop now (swap_remove pending i) i
                  (expired @ [(pend_packet (pending ! i), digipeated_tnc2 (pending ! i))])
           else drain_loop now pending (Suc i) expired
      else (pending, expired))"
  by pat_completeness auto
termination
  by (relation "measure (\<lambda>(now, pending, i, expired). length pending - i)")
     (auto simp: swap_remove_def)

declare drain_loop.simps [simp del]

definition drain_expired :: "viscous_queue \<Rightarrow> instant \<Rightarrow> viscous_queue \<times> (packet \<times> string) list" where
  "drain_expired pending now = drain_loop now pending 0 []"

definition viscous_len :: "viscous_queue \<Rightarrow> nat" where
  "viscous_len pending = length pending"

definition viscous_is_empty :: "viscous_queue \<Rightarrow> bool" where
  "viscous_is_empty pending \<longleftrightarrow> pending = []"

section \<open>Keys and cancelling\<close>

interpretation viscous: packet_key dedup_key
proof
  fix p q x y assume "payload p = Some x" "payload q = Some y"
  then show "dedup_key p = dedup_key q \<longleftrightarrow>
      source_call p = source_call q \<and> dest_call p = dest_call q \<and> trim_end x = trim_end y"
    using address_text_inj [OF source_no_gt source_no_gt, of p "dest_call p" q "dest_call q"]
    by (auto simp: dedup_key_def)
next
  fix p show "dedup_key p = None \<longleftrightarrow> payload p = None"
    by (cases "payload p") (simp_all add: dedup_key_def)
qed

lemma retain_panicking_total:
  "\<forall>x\<in>set xs. p x \<noteq> None \<Longrightarrow> retain_panicking p xs = Some (filter (\<lambda>x. p x = Some True) xs)"
  by (induction xs) (auto split: option.splits)

lemma retain_panicking_Some:
  "retain_panicking p xs = Some ys \<Longrightarrow> ys = filter (\<lambda>x. p x = Some True) xs"
  by (induction xs arbitrary: ys) (auto split: option.splits bind_splits)

definition keyed :: "viscous_queue \<Rightarrow> bool" where
  "keyed q \<longleftrightarrow> (\<forall>e\<in>set q. dedup_key (pend_packet e) \<noteq> None)"

lemma cancel_total:
  assumes "keyed q" "dedup_key p = Some k"
  shows "cancel_if_heard q p
    = Some (filter (\<lambda>e. dedup_key (pend_packet e) \<noteq> Some k) q,
            length (filter (\<lambda>e. dedup_key (pend_packet e) = Some k) q))"
proof -
  let ?p = "\<lambda>e. map_option (\<lambda>k'. k' \<noteq> k) (dedup_key (pend_packet e))"
  have "filter (\<lambda>e. ?p e = Some True) q = filter (\<lambda>e. dedup_key (pend_packet e) \<noteq> Some k) q"
    using assms(1) by (intro filter_cong) (auto simp: keyed_def)
  moreover have "length q - length (filter (\<lambda>e. dedup_key (pend_packet e) \<noteq> Some k) q)
      = length (filter (\<lambda>e. dedup_key (pend_packet e) = Some k) q)"
    using sum_length_filter_compl [of "\<lambda>e. dedup_key (pend_packet e) = Some k" q] by simp
  ultimately show ?thesis
    using assms retain_panicking_total [of q ?p]
    by (simp add: cancel_if_heard_def keyed_def)
qed

lemma cancel_Some:
  assumes "cancel_if_heard q p = Some (q', n)"
  shows "\<exists>k. dedup_key p = Some k \<and> set q' \<subseteq> {e \<in> set q. dedup_key (pend_packet e) \<noteq> Some k}"
proof -
  obtain k where k: "dedup_key p = Some k"
    and r: "retain_panicking (\<lambda>entry. map_option (\<lambda>j. j \<noteq> k) (dedup_key (pend_packet entry))) q = Some q'"
    using assms by (auto simp: cancel_if_heard_def split: bind_splits)
  from k retain_panicking_Some [OF r] show ?thesis by auto
qed

section \<open>Draining\<close>

definition sent_of :: "pending_packet \<Rightarrow> packet \<times> string" where
  "sent_of e = (pend_packet e, digipeated_tnc2 e)"

lemma mset_swap_remove:
  assumes "i < length xs"
  shows "mset xs = add_mset (xs ! i) (mset (swap_remove xs i))"
proof -
  obtain ys y where xs: "xs = ys @ [y]" using assms by (cases xs rule: rev_cases) auto
  show ?thesis
  proof (cases "i = length ys")
    case True
    then show ?thesis by (simp add: swap_remove_def xs)
  next
    case False
    then have "i < length ys" using assms xs by simp
    then show ?thesis by (simp add: swap_remove_def xs nth_append mset_update)
  qed
qed

lemma swap_remove_take: "i < length xs \<Longrightarrow> take i (swap_remove xs i) = take i xs"
  by (cases xs rule: rev_cases) (auto simp: swap_remove_def)

lemma drain_loop_spec:
  assumes "drain_loop now q i out = (q', out')" "i \<le> length q" "\<forall>e\<in>set (take i q). \<not> has_expired now e"
  shows "mset q' = filter_mset (\<lambda>e. \<not> has_expired now e) (mset q)
    \<and> mset out' = mset out + image_mset sent_of (filter_mset (has_expired now) (mset q))"
  using assms
proof (induction now q i out rule: drain_loop.induct)
  case (1 now q i out)
  show ?case
  proof (cases "i < length q")
    case False
    then have "q' = q" "out' = out" "\<forall>e\<in>set q. \<not> has_expired now e"
      using "1.prems" drain_loop.simps [of now q i out] by auto
    then show ?thesis by (simp add: filter_id_conv filter_empty_conv flip: mset_filter)
  next
    case i: True
    show ?thesis
    proof (cases "has_expired now (q ! i)")
      case True
      have "drain_loop now (swap_remove q i) i (out @ [sent_of (q ! i)]) = (q', out')"
        using "1.prems"(1) i True by (simp add: drain_loop.simps [of now q i out] sent_of_def)
      moreover have "i \<le> length (swap_remove q i)" using i by (simp add: swap_remove_def)
      ultimately show ?thesis
        using "1.IH"(1) [OF i True] "1.prems"(3) mset_swap_remove [OF i] True
        by (simp add: swap_remove_take [OF i] sent_of_def)
    next
      case False
      have "drain_loop now q (Suc i) out = (q', out')"
        using "1.prems"(1) i False by (simp add: drain_loop.simps [of now q i out])
      then show ?thesis
        using "1.IH"(2) [OF i False] "1.prems"(3) i False by (auto simp: take_Suc_conv_app_nth)
    qed
  qed
qed

lemma drain_spec:
  assumes "drain_expired q now = (q', out)"
  shows "mset q' = filter_mset (\<lambda>e. \<not> has_expired now e) (mset q)"
    and "mset out = image_mset sent_of (filter_mset (has_expired now) (mset q))"
  using drain_loop_spec [OF assms [unfolded drain_expired_def]] by auto

lemma drain_sets:
  assumes "drain_expired q now = (q', out)"
  shows "set q' \<subseteq> set q" "set out \<subseteq> sent_of ` set q"
  using arg_cong [OF drain_spec(1) [OF assms], of set_mset]
    arg_cong [OF drain_spec(2) [OF assms], of set_mset] by auto

section \<open>Runs\<close>

datatype viscous_event = VAdd packet string duration instant | VHeard packet | VDrain instant

fun viscous_run ::
  "viscous_queue \<Rightarrow> viscous_event list \<Rightarrow> (viscous_queue \<times> (packet \<times> string) list) may_panic" where
  "viscous_run q [] = Some (q, [])"
| "viscous_run q (VAdd p s d t # es) = viscous_run (viscous_add q p s d t) es"
| "viscous_run q (VHeard p # es) = do { (q', n) \<leftarrow> cancel_if_heard q p; viscous_run q' es }"
| "viscous_run q (VDrain t # es) = do {
     let (q', out) = drain_expired q t;
     (q'', outs) \<leftarrow> viscous_run q' es;
     Some (q'', out @ outs)
   }"

fun adds_key :: "(string \<times> string) option \<Rightarrow> viscous_event \<Rightarrow> bool" where
  "adds_key k (VAdd p s d t) \<longleftrightarrow> dedup_key p = k"
| "adds_key k _ \<longleftrightarrow> False"

definition without_key :: "(string \<times> string) option \<Rightarrow> viscous_queue \<Rightarrow> bool" where
  "without_key k q \<longleftrightarrow> (\<forall>e\<in>set q. dedup_key (pend_packet e) \<noteq> k)"

lemma without_key_run:
  "without_key k q \<Longrightarrow> \<forall>e\<in>set es. \<not> adds_key k e \<Longrightarrow> viscous_run q es = Some (q', out)
   \<Longrightarrow> (\<forall>x\<in>set out. dedup_key (fst x) \<noteq> k) \<and> without_key k q'"
proof (induction es arbitrary: q q' out)
  case (Cons e es)
  show ?case
  proof (cases e)
    case (VAdd p s d t)
    then have "without_key k (viscous_add q p s d t)"
      using Cons.prems by (simp add: without_key_def viscous_add_def)
    then show ?thesis using Cons VAdd by simp
  next
    case (VHeard p)
    with Cons.prems obtain q1 n where c: "cancel_if_heard q p = Some (q1, n)" "viscous_run q1 es = Some (q', out)"
      by (auto split: bind_splits)
    have "without_key k q1"
      using cancel_Some [OF c(1)] Cons.prems(1) by (auto simp: without_key_def)
    then show ?thesis using Cons.IH [OF _ _ c(2)] Cons.prems(2) by simp
  next
    case (VDrain t)
    obtain q1 o1 where d: "drain_expired q t = (q1, o1)" by fastforce
    with Cons.prems VDrain obtain o2 where r: "viscous_run q1 es = Some (q', o2)" "out = o1 @ o2"
      by (auto split: bind_splits)
    have "without_key k q1" "\<forall>x\<in>set o1. dedup_key (fst x) \<noteq> k"
      using drain_sets [OF d] Cons.prems(1) by (fastforce simp: without_key_def sent_of_def)+
    then show ?thesis using Cons.IH [OF _ _ r(1)] Cons.prems(2) r(2) by auto
  qed
qed simp

section \<open>Properties\<close>

text \<open>One drain splits the queue: what leaves is, as a multiset, exactly the entries that
  waited at least their delay, what stays exactly the others; nothing is lost, sent twice, or sent
  early by the swapping loop.\<close>

theorem viscous_drain_splits:
  "\<exists>q' out. drain_expired q now = (q', out)
    \<and> mset out = image_mset (\<lambda>e. (pend_packet e, digipeated_tnc2 e))
        (filter_mset (\<lambda>e. now - added_at e \<ge> delay e) (mset q))
    \<and> mset q' = filter_mset (\<lambda>e. \<not> now - added_at e \<ge> delay e) (mset q)"
proof -
  obtain q' out where d: "drain_expired q now = (q', out)" by fastforce
  from drain_spec [OF d] show ?thesis
    using d unfolding has_expired_def duration_since_def sent_of_def by auto
qed

text \<open>C11: A packet heard from another station is not sent by this one: after a packet was heard,
  and as long as no packet with its source, destination and payload is queued again, whatever
  is heard, queued and drained, no packet of its key leaves the queue.\<close>

theorem viscous_heard_not_sent:
  assumes "viscous_run q (VHeard p # es) = Some (q', out)"
    and "\<forall>e\<in>set es. \<not> adds_key (dedup_key p) e"
  shows "\<forall>x\<in>set out. dedup_key (fst x) \<noteq> dedup_key p"
proof -
  obtain q1 n where c: "cancel_if_heard q p = Some (q1, n)" "viscous_run q1 es = Some (q', out)"
    using assms(1) by (auto split: bind_splits)
  have "without_key (dedup_key p) q1" using cancel_Some [OF c(1)] by (auto simp: without_key_def)
  from without_key_run [OF this assms(2) c(2)] show ?thesis by blast
qed

theorem viscous_heard_not_sent_witness:
  "(let p = packet_new 0 ''A>B,WIDE1-1:x'' ''rf'' True; r = packet_new 0 ''A>B,DIGI*:x '' ''rf'' True;
        o1 = packet_new 0 ''C>B,WIDE1-1:x'' ''rf'' True
    in viscous_run [\<lparr>pend_packet = p, digipeated_tnc2 = ''A>B,ME*:x'', added_at = 0, delay = 5\<rparr>]
         [VHeard r, VAdd o1 ''C>B,ME*:x'' 5 2, VDrain 9] = Some ([], [(o1, ''C>B,ME*:x'')])
       \<and> dedup_key (fst (o1, ''C>B,ME*:x'')) \<noteq> dedup_key r)"
proof -
  let ?p = "packet_new 0 ''A>B,WIDE1-1:x'' ''rf'' True"
  let ?r = "packet_new 0 ''A>B,DIGI*:x '' ''rf'' True"
  let ?o = "packet_new 0 ''C>B,WIDE1-1:x'' ''rf'' True"
  let ?q = "[\<lparr>pend_packet = ?p, digipeated_tnc2 = ''A>B,ME*:x'', added_at = 0, delay = 5\<rparr>]"
  have run: "viscous_run ?q [VHeard ?r, VAdd ?o ''C>B,ME*:x'' 5 2, VDrain 9]
      = Some ([], [(?o, ''C>B,ME*:x'')])"
    by code_simp
  moreover have "\<forall>e\<in>set [VAdd ?o ''C>B,ME*:x'' 5 2, VDrain 9]. \<not> adds_key (dedup_key ?r) e"
    by code_simp
  ultimately show ?thesis
    using viscous_heard_not_sent [OF run] unfolding Let_def by simp
qed

end
