(* ===== verification/Digipeater.thy ===== *)
theory Digipeater
  imports Dedupe
begin

text \<open>
  \<open>src/digipeater/mod.rs\<close>: the New-N digipeater and its rate limiter. \<open>process_digipeat\<close> slices
  the packet, so it can panic. The lemmas show that what it sends parses back to the path with
  one more used hop, that every relay uses up the hops of the path, and that a digipeater drops
  its own output; the rate limiter is shown to keep to its rate over any run.
\<close>

record digi_config =
  transmitter_call :: string
  max_hops_req :: u8
  max_hops_done :: u8
  wide_keywords :: "string list"

definition digi_config_default :: digi_config where
  "digi_config_default =
     \<lparr>transmitter_call = [], max_hops_req = 4, max_hops_done = 4,
      wide_keywords = [''WIDE'', ''RELAY'']\<rparr>"

datatype drop_reason =
    NotAprs
  | NoViasToProcess
  | HopsExhausted
  | ExceedsMaxHops
  | AlreadyDigipeated
  | RateLimited
  | DuplicatePacket

datatype digi_result = Digipeat string | Drop drop_reason

record via_addr =
  via_raw :: string
  via_callsign :: string
  via_ssid :: u8
  h_bit :: bool

record parsed_addresses =
  pa_source :: string
  pa_dest :: string
  pa_vias :: "via_addr list"

definition parse_via :: "string \<Rightarrow> via_addr" where
  "parse_via field =
     (let hb = ends_with_char (CHR ''*'') field;
          raw = (if hb then trim_end_matches (CHR ''*'') field else field);
          (callsign, ssid) =
            (case str_rfind (\<lambda>c. c = CHR ''-'') raw of
               Some dash_pos \<Rightarrow> (take dash_pos raw, unwrap_or (parse_u8 (drop (dash_pos + 1) raw)) 0)
             | None \<Rightarrow> (raw, 0))
      in \<lparr>via_raw = raw, via_callsign = callsign, via_ssid = ssid, h_bit = hb\<rparr>)"

definition parse_addresses :: "string \<Rightarrow> parsed_addresses option" where
  "parse_addresses addrs = do {
     (source, rest) \<leftarrow> split_once (CHR ''>'') addrs;
     let parts = str_split (\<lambda>c. c = CHR '','') rest;
     dest \<leftarrow> nth_opt parts 0;
     Some \<lparr>pa_source = source, pa_dest = dest, pa_vias = map parse_via (drop 1 parts)\<rparr>
   }"

definition reassemble_tnc2 :: "string \<Rightarrow> string \<Rightarrow> string list \<Rightarrow> string \<Rightarrow> string" where
  "reassemble_tnc2 source dest vias pl =
     fold (\<lambda>via result. result @ '','' @ via) vias (source @ ''>'' @ dest) @ '':'' @ pl"

definition matches_keyword :: "string \<Rightarrow> string list \<Rightarrow> bool" where
  "matches_keyword callsign keywords =
     list_ex (\<lambda>kw. starts_with (to_uppercase callsign) (to_uppercase kw)) keywords"

definition extract_requested_n :: "string \<Rightarrow> u8" where
  "extract_requested_n callsign =
     unwrap_or (parse_u8 (rev (takeWhile is_ascii_digit (rev callsign)))) 0"

text \<open>How a via is written back, and the position of the first unused one.\<close>

definition via_out :: "via_addr \<Rightarrow> string" where
  "via_out v = (if h_bit v then via_raw v @ ''*'' else via_raw v)"

fun position :: "('a \<Rightarrow> bool) \<Rightarrow> 'a list \<Rightarrow> nat option" where
  "position p [] = None"
| "position p (x # xs) = (if p x then Some 0 else map_option Suc (position p xs))"

definition process_digipeat :: "packet \<Rightarrow> digi_config \<Rightarrow> digi_result may_panic" where
  "process_digipeat p cfg =
     (if \<not> is_aprs p then Some (Drop NotAprs)
      else do {
        addrs \<leftarrow> addresses p;
        case parse_addresses addrs of
          None \<Rightarrow> Some (Drop NotAprs)
        | Some parsed \<Rightarrow>
          (let vias = pa_vias parsed;
               our_call_upper = to_uppercase (transmitter_call cfg);
               hops_done = (of_nat (length (filter h_bit vias)) :: u8)
           in
           if vias = [] then Some (Drop NoViasToProcess)
           else if list_ex (\<lambda>via. h_bit via \<and> to_uppercase (via_raw via) = our_call_upper) vias
           then Some (Drop AlreadyDigipeated)
           else if hops_done > max_hops_done cfg then Some (Drop ExceedsMaxHops)
           else (case position (\<lambda>v. \<not> h_bit v) vias of
             None \<Rightarrow> Some (Drop HopsExhausted)
           | Some target_idx \<Rightarrow>
             (let target = vias ! target_idx;
                  out_vias = map via_out (take target_idx vias);
                  rest = map via_out (drop (target_idx + 1) vias)
              in
              if to_uppercase (via_raw target) = our_call_upper
              then do {
                pl \<leftarrow> payload p;
                Some (Digipeat (reassemble_tnc2 (pa_source parsed) (pa_dest parsed)
                  (out_vias @ [transmitter_call cfg @ ''*''] @ rest) pl))
              }
              else if matches_keyword (via_callsign target) (wide_keywords cfg)
              then (let n = via_ssid target in
                if n = 0 then Some (Drop HopsExhausted)
                else if extract_requested_n (via_callsign target) > max_hops_req cfg
                then Some (Drop ExceedsMaxHops)
                else do {
                  pl \<leftarrow> payload p;
                  Some (Digipeat (reassemble_tnc2 (pa_source parsed) (pa_dest parsed)
                    (out_vias
                     @ (if n = 1 then [transmitter_call cfg @ ''*'']
                        else [transmitter_call cfg @ ''*'',
                              via_callsign target @ ''-'' @ show_nat (unat (n - 1))])
                     @ rest) pl))
                })
              else Some (Drop NoViasToProcess))))
      })"

section \<open>The rate limiter\<close>

record rate_limiter =
  tokens :: f64
  max_tokens :: f64
  refill_rate :: f64
  last_refill :: instant

definition rate_limiter_new :: "f64 \<Rightarrow> f64 \<Rightarrow> instant \<Rightarrow> rate_limiter" where
  "rate_limiter_new max_per_minute burst now =
     \<lparr>tokens = burst, max_tokens = burst, refill_rate = max_per_minute / 60, last_refill = now\<rparr>"

definition as_secs_f64 :: "duration \<Rightarrow> f64" where
  "as_secs_f64 d = of_nat d / 1000000000"

definition refill :: "rate_limiter \<Rightarrow> instant \<Rightarrow> rate_limiter" where
  "refill r now =
     (let elapsed = as_secs_f64 (duration_since now (last_refill r))
      in r\<lparr>tokens := min (tokens r + elapsed * refill_rate r) (max_tokens r), last_refill := now\<rparr>)"

definition try_consume :: "rate_limiter \<Rightarrow> instant \<Rightarrow> rate_limiter \<times> bool" where
  "try_consume r now =
     (let r = refill r now
      in if tokens r \<ge> 1 then (r\<lparr>tokens := tokens r - 1\<rparr>, True) else (r, False))"

section \<open>Writing and parsing back\<close>

lemma fold_commas: "fold (\<lambda>via r. r @ '','' @ via) vias s = s @ joined (CHR '','') vias"
  by (induction vias arbitrary: s) auto

lemma reassemble_eq:
  "reassemble_tnc2 s d vias pl = (s @ CHR ''>'' # d @ joined (CHR '','') vias) @ CHR '':'' # pl"
  using fold_commas [of vias "s @ CHR ''>'' # d"] by (simp add: reassemble_tnc2_def)

lemma parse_joined:
  assumes "CHR ''>'' \<notin> set s" "CHR '','' \<notin> set d" "\<forall>v\<in>set vias. CHR '','' \<notin> set v"
  shows "parse_addresses (s @ CHR ''>'' # d @ joined (CHR '','') vias)
    = Some \<lparr>pa_source = s, pa_dest = d, pa_vias = map parse_via vias\<rparr>"
  using assms by (simp add: parse_addresses_def split_once_def find_char split_joined)

lemma parse_addresses_parts:
  assumes "parse_addresses a = Some pa"
  obtains parts where "CHR ''>'' \<notin> set (pa_source pa)" "CHR '','' \<notin> set (pa_dest pa)"
    "pa_vias pa = map parse_via parts" "\<forall>f\<in>set parts. CHR '','' \<notin> set f"
    "a = pa_source pa @ CHR ''>'' # pa_dest pa @ joined (CHR '','') parts"
proof -
  obtain i where f: "str_find (\<lambda>x. x = CHR ''>'') a = Some i"
    using assms by (auto simp: parse_addresses_def split_once_def split: option.splits)
  let ?r = "drop (Suc i) a"
  let ?ps = "str_split (\<lambda>c. c = CHR '','') ?r"
  have a: "a = take i a @ CHR ''>'' # ?r"
    using str_find_Some [OF f] by (metis id_take_nth_drop)
  have ps: "?ps = hd ?ps # tl ?ps" by simp
  then have "nth_opt ?ps 0 = Some (hd ?ps)" by (metis nth_opt_simps(2))
  then have pa: "pa = \<lparr>pa_source = take i a, pa_dest = hd ?ps, pa_vias = map parse_via (tl ?ps)\<rparr>"
    using assms by (simp add: parse_addresses_def split_once_def f drop_Suc Let_def)
  have "CHR '','' \<notin> set x" if "x \<in> set ?ps" for x
    using str_split_pieces [OF that] by blast
  moreover have "hd ?ps \<in> set ?ps" "set (tl ?ps) \<subseteq> set ?ps"
    using ps by (auto intro: list.set_sel(2))
  ultimately show ?thesis
    using that [of "tl ?ps"] str_find_Some [OF f] a joined_split [of "CHR '',''" ?r]
    by (auto simp: pa)
qed

lemma ends_with_snoc [simp]: "ends_with_char c (s @ [d]) \<longleftrightarrow> c = d"
  by (auto simp: ends_with_char_def)

lemma via_raw_parse:
  "via_raw (parse_via f) = (if ends_with_char (CHR ''*'') f then trim_end_matches (CHR ''*'') f else f)"
  "h_bit (parse_via f) = ends_with_char (CHR ''*'') f"
  by (simp_all add: parse_via_def Let_def split_def)

lemma parse_via_out: "parse_via (via_out (parse_via f)) = parse_via f"
proof (cases "ends_with_char (CHR ''*'') f")
  case True
  then have "via_out (parse_via f) = trim_end_matches (CHR ''*'') f @ [CHR ''*'']"
    by (simp add: via_out_def via_raw_parse)
  with True show ?thesis by (simp add: parse_via_def)
next
  case False
  then show ?thesis by (simp add: via_out_def via_raw_parse)
qed

lemma parse_via_mine: "h_bit (parse_via (c @ ''*''))" "via_raw (parse_via (c @ ''*'')) = trim_end_matches (CHR ''*'') c"
  by (simp_all add: via_raw_parse)

lemma show_nat_no_char: "\<not> is_ascii_digit c \<Longrightarrow> c \<notin> set (show_nat n)"
  using show_nat_digits by blast

lemma parse_via_ssid:
  assumes "unat n \<le> 255"
  shows "via_ssid (parse_via (c @ ''-'' @ show_nat (unat n))) = n"
    "\<not> h_bit (parse_via (c @ ''-'' @ show_nat (unat n)))"
proof -
  have d: "CHR ''-'' \<notin> set (show_nat (unat n))" "CHR ''*'' \<notin> set (show_nat (unat n))"
    by (simp_all add: show_nat_no_char is_ascii_digit_def)
  have "last (show_nat (unat n)) \<in> set (show_nat (unat n))" by simp
  with d(2) have "last (show_nat (unat n)) \<noteq> CHR ''*''" by metis
  then have e: "\<not> ends_with_char (CHR ''*'') (c @ CHR ''-'' # show_nat (unat n))"
    by (simp add: ends_with_char_def)
  then show "\<not> h_bit (parse_via (c @ ''-'' @ show_nat (unat n)))" by (simp add: via_raw_parse)
  show "via_ssid (parse_via (c @ ''-'' @ show_nat (unat n))) = n"
    using e rfind_char [OF d(1), of c] parse_u8_show [OF assms]
    by (simp add: parse_via_def Let_def)
qed

lemma trim_end_matches_subset: "set (trim_end_matches c s) \<subseteq> set s"
  using trim_end_matches_prefix [of s c] by (metis Un_upper1 set_append)

lemma via_raw_subset: "set (via_raw (parse_via f)) \<subseteq> set f"
  by (simp add: via_raw_parse trim_end_matches_subset)

lemma via_callsign_subset: "set (via_callsign (parse_via f)) \<subseteq> set f"
proof -
  have "via_callsign (parse_via f) = (case str_rfind (\<lambda>c. c = CHR ''-'') (via_raw (parse_via f)) of
      Some n \<Rightarrow> take n (via_raw (parse_via f)) | None \<Rightarrow> via_raw (parse_via f))"
    by (simp add: parse_via_def Let_def split: option.splits)
  then have "set (via_callsign (parse_via f)) \<subseteq> set (via_raw (parse_via f))"
    by (auto dest: in_set_takeD split: option.splits)
  with via_raw_subset show ?thesis by blast
qed

lemma via_out_subset: "set (via_out (parse_via f)) \<subseteq> set f"
proof (cases "ends_with_char (CHR ''*'') f")
  case True
  then have "CHR ''*'' \<in> set f" by (metis ends_with_char_def last_in_set)
  with True trim_end_matches_subset [of "CHR ''*''" f] show ?thesis
    by (auto simp: via_out_def via_raw_parse)
next
  case False
  then show ?thesis by (simp add: via_out_def via_raw_parse)
qed

section \<open>What a relay does to the path\<close>

text \<open>The shape of every packet that is sent: the used vias, the digipeater's own call marked as
  used, the requested hop with one less unless it was the last one or named the digipeater itself, and the rest.\<close>

definition relayed_vias :: "digi_config \<Rightarrow> via_addr list \<Rightarrow> string list \<Rightarrow> bool" where
  "relayed_vias cfg vias out \<longleftrightarrow>
     (\<exists>pre target post mid. vias = pre @ target # post \<and> (\<forall>v\<in>set pre. h_bit v) \<and> \<not> h_bit target
       \<and> out = map via_out pre @ (transmitter_call cfg @ ''*'') # mid @ map via_out post
       \<and> (mid = [] \<or> 2 \<le> unat (via_ssid target)
            \<and> mid = [via_callsign target @ ''-'' @ show_nat (unat (via_ssid target - 1))]))"

lemma position_Some:
  "position p xs = Some i \<Longrightarrow> xs = take i xs @ (xs ! i) # drop (Suc i) xs \<and> p (xs ! i) \<and> (\<forall>x\<in>set (take i xs). \<not> p x)"
proof (induction xs arbitrary: i)
  case (Cons x xs)
  then show ?case by (cases "p x") auto
qed simp

lemma digipeat_cases:
  assumes "process_digipeat p cfg = Some (Digipeat t)"
  obtains a pa out pl where "is_aprs p" "addresses p = Some a" "parse_addresses a = Some pa" "payload p = Some pl"
    "relayed_vias cfg (pa_vias pa) out" "t = reassemble_tnc2 (pa_source pa) (pa_dest pa) out pl"
    "\<forall>v\<in>set (pa_vias pa). \<not> (h_bit v \<and> to_uppercase (via_raw v) = to_uppercase (transmitter_call cfg))"
proof -
  obtain a pa where a: "is_aprs p" "addresses p = Some a" "parse_addresses a = Some pa"
    using assms unfolding process_digipeat_def
    by (auto split: if_splits bind_splits option.splits)
  note d = assms [unfolded process_digipeat_def Let_def, simplified a bind.bind_lunit simp_thms if_True if_False option.case]
  have used: "\<forall>v\<in>set (pa_vias pa). \<not> (h_bit v \<and> to_uppercase (via_raw v) = to_uppercase (transmitter_call cfg))"
    using d by (auto simp: list_ex_iff split: if_splits)
  obtain i where i: "position (\<lambda>v. \<not> h_bit v) (pa_vias pa) = Some i"
    using d by (auto split: if_splits option.splits)
  let ?v = "pa_vias pa ! i"
  let ?pre = "take i (pa_vias pa)" and ?post = "drop (Suc i) (pa_vias pa)"
  note v = position_Some [OF i]
  have rel: "relayed_vias cfg (pa_vias pa) (map via_out ?pre @ (transmitter_call cfg @ ''*'') # mid @ map via_out ?post)"
    if "mid = [] \<or> 2 \<le> unat (via_ssid ?v)
          \<and> mid = [via_callsign ?v @ ''-'' @ show_nat (unat (via_ssid ?v - 1))]" for mid
    unfolding relayed_vias_def using v that
    by (intro exI [of _ ?pre] exI [of _ ?v] exI [of _ ?post] exI [of _ mid]) auto
  have "\<exists>pl out. payload p = Some pl \<and> relayed_vias cfg (pa_vias pa) out
      \<and> t = reassemble_tnc2 (pa_source pa) (pa_dest pa) out pl"
  proof (cases "to_uppercase (via_raw ?v) = to_uppercase (transmitter_call cfg)")
    case True
    then obtain pl where "payload p = Some pl" "t = reassemble_tnc2 (pa_source pa) (pa_dest pa)
        (map via_out ?pre @ (transmitter_call cfg @ ''*'') # [] @ map via_out ?post) pl"
      using d i by (auto split: if_splits bind_splits)
    with rel [of "[]"] show ?thesis by blast
  next
    case other: False
    let ?mid = "if via_ssid ?v = 1 then [] else [via_callsign ?v @ ''-'' @ show_nat (unat (via_ssid ?v - 1))]"
    have n0: "via_ssid ?v \<noteq> 0" and "\<exists>pl. payload p = Some pl \<and> t = reassemble_tnc2 (pa_source pa) (pa_dest pa)
        (map via_out ?pre @ (transmitter_call cfg @ ''*'') # ?mid @ map via_out ?post) pl"
      using d i other by (auto split: if_splits bind_splits)
    moreover have "via_ssid ?v \<noteq> 1 \<Longrightarrow> 2 \<le> unat (via_ssid ?v)"
    proof -
      assume "via_ssid ?v \<noteq> 1"
      with n0 have "unat (via_ssid ?v) \<noteq> 0 \<and> unat (via_ssid ?v) \<noteq> 1"
        by (simp add: word_unat_eq_iff)
      then show ?thesis by simp
    qed
    ultimately show ?thesis using rel [of ?mid] by (cases "via_ssid ?v = 1") auto
  qed
  with that a used show ?thesis by blast
qed

text \<open>What is left of a path: each unused via counts for its SSID, at least for one.\<close>

definition hops_of :: "via_addr \<Rightarrow> nat" where
  "hops_of v = (if h_bit v then 0 else max 1 (unat (via_ssid v)))"

definition hops_left :: "via_addr list \<Rightarrow> nat" where
  "hops_left vias = sum_list (map hops_of vias)"

definition used_hops :: "via_addr list \<Rightarrow> nat" where
  "used_hops vias = length (filter h_bit vias)"

definition digi_name :: "string \<Rightarrow> bool" where
  "digi_name c \<longleftrightarrow> CHR '','' \<notin> set c \<and> CHR '':'' \<notin> set c"

lemma relayed_vias_parse:
  assumes "relayed_vias cfg (map parse_via parts) out" "\<forall>f\<in>set parts. CHR '','' \<notin> set f \<and> CHR '':'' \<notin> set f"
    and "digi_name (transmitter_call cfg)"
  shows "\<forall>v\<in>set out. CHR '','' \<notin> set v \<and> CHR '':'' \<notin> set v"
    and "hops_left (map parse_via out) < hops_left (map parse_via parts)"
    and "used_hops (map parse_via out) = Suc (used_hops (map parse_via parts))"
    and "\<exists>v\<in>set (map parse_via out). h_bit v \<and> via_raw v = trim_end_matches (CHR ''*'') (transmitter_call cfg)"
proof -
  obtain fpre ft fpost mid where f: "parts = fpre @ ft # fpost"
    and target: "\<not> h_bit (parse_via ft)"
    and out: "out = map via_out (map parse_via fpre) @ (transmitter_call cfg @ ''*'') # mid @ map via_out (map parse_via fpost)"
    and mid: "mid = [] \<or> 2 \<le> unat (via_ssid (parse_via ft))
        \<and> mid = [via_callsign (parse_via ft) @ ''-'' @ show_nat (unat (via_ssid (parse_via ft) - 1))]"
    using assms(1) unfolding relayed_vias_def map_eq_append_conv map_eq_Cons_conv by blast
  have clean: "CHR '','' \<notin> set s \<and> CHR '':'' \<notin> set s" if "set s \<subseteq> set f" "f \<in> set parts" for s f
    using that assms(2) by blast
  have "CHR '','' \<notin> set v \<and> CHR '':'' \<notin> set v" if "v \<in> set mid" for v
    using that mid clean [OF via_callsign_subset, of ft] f
    by (auto simp: show_nat_no_char is_ascii_digit_def)
  then show "\<forall>v\<in>set out. CHR '','' \<notin> set v \<and> CHR '':'' \<notin> set v"
    using clean [OF via_out_subset] assms(3) by (auto simp: out f digi_name_def)
  have same: "map parse_via (map via_out (map parse_via fs)) = map parse_via fs" for fs
    by (simp add: parse_via_out)
  have parsed: "map parse_via out = map parse_via fpre @ parse_via (transmitter_call cfg @ ''*'')
      # map parse_via mid @ map parse_via fpost"
    unfolding out map_append list.map(2) same ..
  have mine: "hops_of (parse_via (transmitter_call cfg @ ''*'')) = 0" "h_bit (parse_via (transmitter_call cfg @ ''*''))"
    by (simp_all only: hops_of_def parse_via_mine if_True)
  have "hops_left (map parse_via mid) < hops_of (parse_via ft) \<and> used_hops (map parse_via mid) = 0"
  proof (cases "mid = []")
    case True
    then show ?thesis using target by (simp add: hops_left_def used_hops_def hops_of_def)
  next
    case False
    let ?n = "via_ssid (parse_via ft)"
    have n: "2 \<le> unat ?n" and m: "mid = [via_callsign (parse_via ft) @ ''-'' @ show_nat (unat (?n - 1))]"
      using mid False by auto
    have "unat (?n - 1) = unat ?n - 1" using n by (simp add: unat_sub word_le_nat_alt)
    moreover have "unat (?n - 1) \<le> 255" using unsigned_less [of "?n - 1", where 'a = nat] by simp
    ultimately show ?thesis
      using n target parse_via_ssid [of "?n - 1" "via_callsign (parse_via ft)"]
      by (simp add: m hops_left_def used_hops_def hops_of_def)
  qed
  then show "hops_left (map parse_via out) < hops_left (map parse_via parts)"
    and "used_hops (map parse_via out) = Suc (used_hops (map parse_via parts))"
    unfolding parsed using mine target by (auto simp: f hops_left_def used_hops_def)
  show "\<exists>v\<in>set (map parse_via out). h_bit v \<and> via_raw v = trim_end_matches (CHR ''*'') (transmitter_call cfg)"
    unfolding parsed using parse_via_mine [of "transmitter_call cfg"] by (intro bexI) auto
qed


section \<open>The output as a packet\<close>

lemma payload_hd:
  assumes "payload p = Some pl"
  shows "pl = [] \<or> \<not> is_cont (hd pl)"
  using assms
  by (auto simp: payload_def str_from_def is_char_boundary_def hd_drop_conv_nth split: if_splits)

text \<open>A relayed packet read back: the source, destination and payload are kept, one more hop is
  used, fewer are left, and the digipeater's call is among the used ones.\<close>

lemma digipeat_output:
  assumes "process_digipeat p cfg = Some (Digipeat t)" "digi_name (transmitter_call cfg)"
    and "addresses p = Some a" "CHR '':'' \<notin> set a"
  obtains pa a' pa' where "parse_addresses a = Some pa"
    "addresses (packet_new now t i b) = Some a'" "CHR '':'' \<notin> set a'"
    "parse_addresses a' = Some pa'" "payload (packet_new now t i b) = payload p"
    "pa_source pa' = pa_source pa" "pa_dest pa' = pa_dest pa"
    "used_hops (pa_vias pa') = Suc (used_hops (pa_vias pa))"
    "hops_left (pa_vias pa') < hops_left (pa_vias pa)"
    "\<exists>v\<in>set (pa_vias pa'). h_bit v \<and> via_raw v = trim_end_matches (CHR ''*'') (transmitter_call cfg)"
proof -
  from digipeat_cases [OF assms(1)] assms(3) obtain pa out pl where
    pa: "parse_addresses a = Some pa" and pl: "payload p = Some pl"
    and rel: "relayed_vias cfg (pa_vias pa) out"
    and t: "t = reassemble_tnc2 (pa_source pa) (pa_dest pa) out pl"
    by (metis option.inject)
  from parse_addresses_parts [OF pa] obtain parts where
    parts: "CHR ''>'' \<notin> set (pa_source pa)" "CHR '','' \<notin> set (pa_dest pa)"
      "pa_vias pa = map parse_via parts" "\<forall>f\<in>set parts. CHR '','' \<notin> set f"
      "a = pa_source pa @ CHR ''>'' # pa_dest pa @ joined (CHR '','') parts" .
  have "\<forall>f\<in>set parts. CHR '','' \<notin> set f \<and> CHR '':'' \<notin> set f"
    using parts(4,5) assms(4) by auto
  note out = relayed_vias_parse [OF rel [unfolded parts(3)] this assms(2)]
  let ?a' = "pa_source pa @ CHR ''>'' # pa_dest pa @ joined (CHR '','') out"
  have colon: "CHR '':'' \<notin> set ?a'"
    using assms(4) out(1) by (auto simp: parts(5))
  have "addresses (packet_new now t i b) = Some ?a'" "payload (packet_new now t i b) = Some pl"
    using slices_at_colon [of "packet_new now t i b" ?a' pl] payload_hd [OF pl] addr_len_colon [OF colon]
    by (simp_all add: t reassemble_eq)
  moreover have "parse_addresses ?a' = Some \<lparr>pa_source = pa_source pa, pa_dest = pa_dest pa, pa_vias = map parse_via out\<rparr>"
    using parts(1,2) out(1) by (intro parse_joined) auto
  ultimately show ?thesis
    using that [OF pa _ colon] out(2,3,4) parts(3) pl by simp
qed

section \<open>Tokens\<close>

fun try_all :: "rate_limiter \<Rightarrow> instant list \<Rightarrow> rate_limiter \<times> bool list" where
  "try_all r [] = (r, [])"
| "try_all r (t # ts) =
     (let (r', ok) = try_consume r t; (r'', oks) = try_all r' ts in (r'', ok # oks))"

definition granted :: "bool list \<Rightarrow> nat" where
  "granted oks = length (filter id oks)"

definition limiter_ok :: "rate_limiter \<Rightarrow> bool" where
  "limiter_ok r \<longleftrightarrow> 0 \<le> tokens r \<and> tokens r \<le> max_tokens r \<and> 0 \<le> refill_rate r"

lemma refill_simps [simp]: "max_tokens (refill r t) = max_tokens r" "refill_rate (refill r t) = refill_rate r"
  "last_refill (refill r t) = t"
  by (simp_all add: refill_def Let_def)

lemma try_simps [simp]: "max_tokens (fst (try_consume r t)) = max_tokens r"
  "refill_rate (fst (try_consume r t)) = refill_rate r" "last_refill (fst (try_consume r t)) = t"
  by (simp_all add: try_consume_def Let_def)

lemma refill_ok: "limiter_ok r \<Longrightarrow> limiter_ok (refill r t)"
  by (auto simp: limiter_ok_def refill_def Let_def as_secs_f64_def min_def)

lemma refill_tokens: "limiter_ok r \<Longrightarrow>
    tokens (refill r t) \<le> tokens r + as_secs_f64 (t - last_refill r) * refill_rate r"
  by (simp add: refill_def Let_def duration_since_def)

lemma refill_refill: "limiter_ok r \<Longrightarrow> refill (refill r t) t = refill r t"
  by (cases r) (auto simp: refill_def Let_def duration_since_def as_secs_f64_def limiter_ok_def min_def)

lemma try_consume_tokens:
  "tokens (fst (try_consume r t)) + (if snd (try_consume r t) then 1 else 0) = tokens (refill r t)"
  by (simp add: try_consume_def Let_def)

lemma try_consume_ok: "limiter_ok r \<Longrightarrow> limiter_ok (fst (try_consume r t))"
  using refill_ok [of r t] by (auto simp: try_consume_def Let_def limiter_ok_def)

lemma try_all_bound:
  "limiter_ok r \<Longrightarrow> sorted (last_refill r # ts)
   \<Longrightarrow> of_nat (granted (snd (try_all r ts)))
       \<le> tokens r + as_secs_f64 (last (last_refill r # ts) - last_refill r) * refill_rate r"
proof (induction ts arbitrary: r)
  case Nil
  then show ?case by (simp add: granted_def limiter_ok_def as_secs_f64_def)
next
  case (Cons t ts)
  let ?r = "fst (try_consume r t)"
  have IH: "of_nat (granted (snd (try_all ?r ts))) \<le> tokens ?r + as_secs_f64 (last (t # ts) - t) * refill_rate r"
    using Cons.IH [OF try_consume_ok [OF Cons.prems(1)], of t] Cons.prems(2) by simp
  have "t \<le> last (t # ts)" "last_refill r \<le> t" using Cons.prems(2) by auto
  then have "as_secs_f64 (t - last_refill r) + as_secs_f64 (last (t # ts) - t) = as_secs_f64 (last (t # ts) - last_refill r)"
    by (simp add: as_secs_f64_def of_nat_diff diff_divide_distrib add_divide_distrib [symmetric])
  then have "as_secs_f64 (t - last_refill r) * refill_rate r + as_secs_f64 (last (t # ts) - t) * refill_rate r
      = as_secs_f64 (last (t # ts) - last_refill r) * refill_rate r"
    by (metis distrib_right)
  then show ?case
    using IH refill_tokens [OF Cons.prems(1), of t] try_consume_tokens [of r t]
    by (cases "snd (try_consume r t)") (auto simp: split_def Let_def granted_def)
qed

lemma try_all_append: "try_all r (ts @ us) =
    (let (r', oks) = try_all r ts; (r'', oks') = try_all r' us in (r'', oks @ oks'))"
  by (induction ts arbitrary: r) (simp_all add: split_def Let_def)

lemma try_all_ok: "limiter_ok r \<Longrightarrow> limiter_ok (fst (try_all r ts))
    \<and> max_tokens (fst (try_all r ts)) = max_tokens r \<and> refill_rate (fst (try_all r ts)) = refill_rate r"
  by (induction ts arbitrary: r) (simp_all add: split_def Let_def try_consume_ok)


section \<open>Properties\<close>

text \<open>C8: A relayed packet, read back as a packet, has the source, destination and payload of the
  one received and a path in which exactly one more hop is used and strictly fewer hops are left:
  the New-N rules use up the path whatever its vias are.\<close>

theorem digipeat_uses_one_hop:
  assumes "process_digipeat p cfg = Some (Digipeat t)" and "digi_name (transmitter_call cfg)"
    and "addresses p = Some a" and "CHR '':'' \<notin> set a"
  shows "\<exists>pa a' pa'. parse_addresses a = Some pa
    \<and> addresses (packet_new now t i b) = Some a' \<and> parse_addresses a' = Some pa'
    \<and> payload (packet_new now t i b) = payload p
    \<and> pa_source pa' = pa_source pa \<and> pa_dest pa' = pa_dest pa
    \<and> used_hops (pa_vias pa') = Suc (used_hops (pa_vias pa))
    \<and> hops_left (pa_vias pa') < hops_left (pa_vias pa)"
  by (rule digipeat_output [OF assms, of now i b]) blast

theorem digipeat_uses_one_hop_witness:
  "\<exists>pa a' pa'. parse_addresses ''N0CALL>APRS,K1ABC*,WIDE2-2'' = Some pa
    \<and> addresses (packet_new 0 ''N0CALL>APRS,K1ABC*,DIGI*,WIDE2-1:>hi'' ''rf'' True) = Some a'
    \<and> parse_addresses a' = Some pa' \<and> hops_left (pa_vias pa') < hops_left (pa_vias pa)"
proof -
  let ?p = "packet_new 0 ''N0CALL>APRS,K1ABC*,WIDE2-2:>hi'' ''rf'' True"
  let ?cfg = "digi_config_default\<lparr>transmitter_call := ''DIGI''\<rparr>"
  have "process_digipeat ?p ?cfg = Some (Digipeat ''N0CALL>APRS,K1ABC*,DIGI*,WIDE2-1:>hi'')"
    by code_simp
  moreover have "digi_name (transmitter_call ?cfg)" by code_simp
  moreover have "addresses ?p = Some ''N0CALL>APRS,K1ABC*,WIDE2-2''" by code_simp
  moreover have "CHR '':'' \<notin> set ''N0CALL>APRS,K1ABC*,WIDE2-2''" by simp
  ultimately have "\<exists>pa a' pa'. parse_addresses ''N0CALL>APRS,K1ABC*,WIDE2-2'' = Some pa
    \<and> addresses (packet_new 0 ''N0CALL>APRS,K1ABC*,DIGI*,WIDE2-1:>hi'' ''rf'' True) = Some a' \<and> parse_addresses a' = Some pa'
    \<and> payload (packet_new 0 ''N0CALL>APRS,K1ABC*,DIGI*,WIDE2-1:>hi'' ''rf'' True) = payload ?p
    \<and> pa_source pa' = pa_source pa \<and> pa_dest pa' = pa_dest pa
    \<and> used_hops (pa_vias pa') = Suc (used_hops (pa_vias pa))
    \<and> hops_left (pa_vias pa') < hops_left (pa_vias pa)"
    by (rule digipeat_uses_one_hop)
  then show ?thesis by blast
qed

text \<open>Digipeaters relaying one after the other, each hearing the one before.\<close>

fun relay_chain :: "digi_config list \<Rightarrow> packet \<Rightarrow> packet option" where
  "relay_chain [] p = Some p"
| "relay_chain (cfg # cfgs) p =
     (case process_digipeat p cfg of
        Some (Digipeat t) \<Rightarrow> relay_chain cfgs (packet_new (received_at p) t (source_interface p) True)
      | _ \<Rightarrow> None)"

lemma relay_chain_bound:
  "relay_chain cfgs p = Some q \<Longrightarrow> \<forall>cfg\<in>set cfgs. digi_name (transmitter_call cfg)
   \<Longrightarrow> addresses p = Some a \<Longrightarrow> CHR '':'' \<notin> set a \<Longrightarrow> parse_addresses a = Some pa
   \<Longrightarrow> length cfgs \<le> hops_left (pa_vias pa)"
proof (induction cfgs arbitrary: p a pa)
  case (Cons cfg cfgs)
  obtain t where t: "process_digipeat p cfg = Some (Digipeat t)"
    and r: "relay_chain cfgs (packet_new (received_at p) t (source_interface p) True) = Some q"
    using Cons.prems(1) by (auto split: option.splits digi_result.splits)
  have "digi_name (transmitter_call cfg)" using Cons.prems(2) by simp
  from digipeat_output [OF t this Cons.prems(3,4), of "received_at p" "source_interface p" True]
    Cons.prems(5) obtain a' pa' where
      "addresses (packet_new (received_at p) t (source_interface p) True) = Some a'" "CHR '':'' \<notin> set a'"
      "parse_addresses a' = Some pa'" "hops_left (pa_vias pa') < hops_left (pa_vias pa)"
    by (metis option.inject)
  moreover from this Cons.IH [OF r] Cons.prems(2) have "length cfgs \<le> hops_left (pa_vias pa')" by simp
  ultimately show ?case by simp
qed simp

text \<open>C21: Flooding is bounded: however the digipeaters are configured, a packet can be relayed by at
  most as many of them in a row as its path had hops left when it was first heard.\<close>

theorem digipeat_flood_bounded:
  assumes "relay_chain cfgs p = Some q" and "\<forall>cfg\<in>set cfgs. digi_name (transmitter_call cfg)"
    and "addresses p = Some a" and "CHR '':'' \<notin> set a" and "parse_addresses a = Some pa"
  shows "length cfgs \<le> hops_left (pa_vias pa)"
  by (rule relay_chain_bound [OF assms])

theorem digipeat_flood_bounded_witness:
  "relay_chain [digi_config_default\<lparr>transmitter_call := ''D1''\<rparr>, digi_config_default\<lparr>transmitter_call := ''D2''\<rparr>]
     (packet_new 0 ''N0CALL>APRS,WIDE2-2:>hi'' ''rf'' True)
     = Some (packet_new 0 ''N0CALL>APRS,D1*,D2*:>hi'' ''rf'' True)
   \<and> length [digi_config_default\<lparr>transmitter_call := ''D1''\<rparr>, digi_config_default\<lparr>transmitter_call := ''D2''\<rparr>]
     \<le> hops_left [parse_via ''WIDE2-2'']"
proof -
  let ?p = "packet_new 0 ''N0CALL>APRS,WIDE2-2:>hi'' ''rf'' True"
  let ?cfgs = "[digi_config_default\<lparr>transmitter_call := ''D1''\<rparr>, digi_config_default\<lparr>transmitter_call := ''D2''\<rparr>]"
  have r: "relay_chain ?cfgs ?p = Some (packet_new 0 ''N0CALL>APRS,D1*,D2*:>hi'' ''rf'' True)"
    by code_simp
  have n: "\<forall>cfg\<in>set ?cfgs. digi_name (transmitter_call cfg)" by code_simp
  have a: "addresses ?p = Some ''N0CALL>APRS,WIDE2-2''" by code_simp
  have pa: "parse_addresses ''N0CALL>APRS,WIDE2-2'' = Some \<lparr>pa_source = ''N0CALL'', pa_dest = ''APRS'',
      pa_vias = [parse_via ''WIDE2-2'']\<rparr>" by code_simp
  show ?thesis using r digipeat_flood_bounded [OF r n a _ pa] by simp
qed

text \<open>No relay loop: a digipeater that hears its own output again drops it.\<close>

theorem digipeat_own_output_dropped:
  assumes "process_digipeat p cfg = Some (Digipeat t)" and "digi_name (transmitter_call cfg)"
    and "\<not> ends_with_char (CHR ''*'') (transmitter_call cfg)"
    and "addresses p = Some a" and "CHR '':'' \<notin> set a"
  shows "process_digipeat (packet_new now t i True) cfg = Some (Drop AlreadyDigipeated)"
proof -
  from digipeat_output [OF assms(1,2,4,5), of now i True] obtain a' pa' where
    a': "addresses (packet_new now t i True) = Some a'" "parse_addresses a' = Some pa'"
    and v: "\<exists>v\<in>set (pa_vias pa'). h_bit v \<and> via_raw v = trim_end_matches (CHR ''*'') (transmitter_call cfg)"
    by metis
  have "trim_end_matches (CHR ''*'') c = c" if "\<not> ends_with_char (CHR ''*'') c" for c
    using that by (cases c rule: rev_cases) (simp_all add: trim_end_matches_def)
  with v assms(3) have "\<exists>v\<in>set (pa_vias pa'). h_bit v \<and> via_raw v = transmitter_call cfg" by auto
  then show ?thesis by (auto simp: process_digipeat_def a' Let_def list_ex_iff)
qed

theorem digipeat_own_output_dropped_witness:
  "process_digipeat (packet_new 9 ''N0CALL>APRS,DIGI*,WIDE2-1:>hi'' ''rf'' True)
     (digi_config_default\<lparr>transmitter_call := ''DIGI''\<rparr>) = Some (Drop AlreadyDigipeated)"
proof -
  let ?p = "packet_new 0 ''N0CALL>APRS,WIDE2-2:>hi'' ''rf'' True"
  let ?cfg = "digi_config_default\<lparr>transmitter_call := ''DIGI''\<rparr>"
  have "process_digipeat ?p ?cfg = Some (Digipeat ''N0CALL>APRS,DIGI*,WIDE2-1:>hi'')"
    "digi_name (transmitter_call ?cfg)" "\<not> ends_with_char (CHR ''*'') (transmitter_call ?cfg)"
    "addresses ?p = Some ''N0CALL>APRS,WIDE2-2''" "CHR '':'' \<notin> set ''N0CALL>APRS,WIDE2-2''"
    by code_simp+
  then show ?thesis by (rule digipeat_own_output_dropped)
qed



end
