(* ===== verification/Digi_Filter.thy ===== *)
theory Digi_Filter
  imports Packet "HOL-Library.Multiset"
begin

text \<open>
  \<open>src/digipeater/filter.rs\<close>: source filters of a digipeater. The crate \<open>regex\<close> is a
  parameter: \<open>regex_new\<close> compiles a pattern (or returns the text of the error) and
  \<open>is_match\<close> matches; the type of a compiled expression is the type variable. The lemmas give
  the closed form of the three passes of \<open>check\<close>, and that the order of a chain does not matter.
\<close>

datatype 're packet_filter =
    Budlist "string list" bool
  | Prefix "string list" bool
  | RegexSource 're
  | RegexDestination 're
  | RegexVia 're
  | RegexData 're

type_synonym 're filter_chain = "'re packet_filter list"

definition chain_new :: "'re filter_chain" where
  "chain_new = []"

definition parse_slash_list :: "string \<Rightarrow> string + string list" where
  "parse_slash_list s =
     (let items = map to_uppercase (filter (\<lambda>item. item \<noteq> []) (str_split (\<lambda>c. c = CHR ''/'') s))
      in if items = [] then Inl ''empty filter list'' else Inr items)"

definition compiled :: "(string \<Rightarrow> string + 're) \<Rightarrow> string \<Rightarrow> ('re \<Rightarrow> 're packet_filter) \<Rightarrow> string + 're packet_filter" where
  "compiled regex_new rest con =
     (case regex_new rest of Inl e \<Rightarrow> Inl (''invalid regex: '' @ e) | Inr re \<Rightarrow> Inr (con re))"

definition listed :: "string \<Rightarrow> (string list \<Rightarrow> 're packet_filter) \<Rightarrow> string + 're packet_filter" where
  "listed rest con = (case parse_slash_list rest of Inl e \<Rightarrow> Inl e | Inr xs \<Rightarrow> Inr (con xs))"

definition parse_filter :: "(string \<Rightarrow> string + 're) \<Rightarrow> string \<Rightarrow> string + 're packet_filter" where
  "parse_filter regex_new spec =
     (case strip_prefix ''-b/'' spec of Some rest \<Rightarrow> listed rest (\<lambda>xs. Budlist xs True) | None \<Rightarrow>
     (case strip_prefix ''-p/'' spec of Some rest \<Rightarrow> listed rest (\<lambda>xs. Prefix xs True) | None \<Rightarrow>
     (case strip_prefix ''b/'' spec of Some rest \<Rightarrow> listed rest (\<lambda>xs. Budlist xs False) | None \<Rightarrow>
     (case strip_prefix ''p/'' spec of Some rest \<Rightarrow> listed rest (\<lambda>xs. Prefix xs False) | None \<Rightarrow>
     (case strip_prefix ''regex-source/'' spec of Some rest \<Rightarrow> compiled regex_new rest RegexSource | None \<Rightarrow>
     (case strip_prefix ''regex-destination/'' spec of Some rest \<Rightarrow> compiled regex_new rest RegexDestination | None \<Rightarrow>
     (case strip_prefix ''regex-via/'' spec of Some rest \<Rightarrow> compiled regex_new rest RegexVia | None \<Rightarrow>
     (case strip_prefix ''regex-data/'' spec of Some rest \<Rightarrow> compiled regex_new rest RegexData | None \<Rightarrow>
      Inl (''unknown filter type: '' @ spec)))))))))"

definition add_filter ::
  "(string \<Rightarrow> string + 're) \<Rightarrow> 're filter_chain \<Rightarrow> string \<Rightarrow> string + 're filter_chain" where
  "add_filter regex_new chain spec =
     (case parse_filter regex_new spec of Inl e \<Rightarrow> Inl e | Inr f \<Rightarrow> Inr (chain @ [f]))"

definition matches_budlist :: "string \<Rightarrow> string list \<Rightarrow> bool" where
  "matches_budlist source patterns =
     (let upper = to_uppercase source
      in list_ex (\<lambda>pattern. case strip_suffix_char (CHR ''*'') pattern of
           Some prefix \<Rightarrow> starts_with upper prefix
         | None \<Rightarrow> upper = pattern) patterns)"

definition matches_prefix :: "string \<Rightarrow> string list \<Rightarrow> bool" where
  "matches_prefix dest prefixes =
     (let upper = to_uppercase dest in list_ex (\<lambda>prefix. starts_with upper prefix) prefixes)"

definition matches_regex_via :: "('re \<Rightarrow> string \<Rightarrow> bool) \<Rightarrow> packet \<Rightarrow> 're \<Rightarrow> bool may_panic" where
  "matches_regex_via is_match p re = do {
     addrs \<leftarrow> addresses p;
     Some (case split_once (CHR ''>'') addrs of
       None \<Rightarrow> False
     | Some (_, rest) \<Rightarrow>
         list_ex (\<lambda>via. is_match re (trim_end_matches (CHR ''*'') via))
           (drop 1 (str_split (\<lambda>c. c = CHR '','') rest)))
   }"

text \<open>The three passes of \<open>check\<close>: each returns whether it ended the function.\<close>

fun negative_pass :: "packet \<Rightarrow> 're packet_filter list \<Rightarrow> bool" where
  "negative_pass p [] = False"
| "negative_pass p (Budlist callsigns True # fs) =
     (if matches_budlist (source_call p) callsigns then True else negative_pass p fs)"
| "negative_pass p (Prefix prefixes True # fs) =
     (if matches_prefix (dest_call p) prefixes then True else negative_pass p fs)"
| "negative_pass p (_ # fs) = negative_pass p fs"

fun regex_pass :: "('re \<Rightarrow> string \<Rightarrow> bool) \<Rightarrow> packet \<Rightarrow> 're packet_filter list \<Rightarrow> bool may_panic" where
  "regex_pass is_match p [] = Some False"
| "regex_pass is_match p (RegexSource re # fs) =
     (if is_match re (source_call p) then Some True else regex_pass is_match p fs)"
| "regex_pass is_match p (RegexDestination re # fs) =
     (if is_match re (dest_call p) then Some True else regex_pass is_match p fs)"
| "regex_pass is_match p (RegexVia re # fs) = do {
     m \<leftarrow> matches_regex_via is_match p re;
     if m then Some True else regex_pass is_match p fs
   }"
| "regex_pass is_match p (RegexData re # fs) = do {
     pl \<leftarrow> payload p;
     if is_match re pl then Some True else regex_pass is_match p fs
   }"
| "regex_pass is_match p (_ # fs) = regex_pass is_match p fs"

fun is_positive :: "'re packet_filter \<Rightarrow> bool" where
  "is_positive (Budlist _ negate) = (\<not> negate)"
| "is_positive (Prefix _ negate) = (\<not> negate)"
| "is_positive _ = False"

fun positive_pass :: "packet \<Rightarrow> 're packet_filter list \<Rightarrow> bool" where
  "positive_pass p [] = False"
| "positive_pass p (Budlist callsigns False # fs) =
     (if matches_budlist (source_call p) callsigns then True else positive_pass p fs)"
| "positive_pass p (Prefix prefixes False # fs) =
     (if matches_prefix (dest_call p) prefixes then True else positive_pass p fs)"
| "positive_pass p (_ # fs) = positive_pass p fs"

definition chain_check :: "('re \<Rightarrow> string \<Rightarrow> bool) \<Rightarrow> 're filter_chain \<Rightarrow> packet \<Rightarrow> bool may_panic" where
  "chain_check is_match chain p =
     (if chain = [] then Some True
      else if negative_pass p chain then Some False
      else do {
        rejected \<leftarrow> regex_pass is_match p chain;
        if rejected then Some False
        else if \<not> list_ex is_positive chain then Some True
        else Some (positive_pass p chain)
      })"

definition chain_is_empty :: "'re filter_chain \<Rightarrow> bool" where
  "chain_is_empty chain \<longleftrightarrow> chain = []"

definition chain_len :: "'re filter_chain \<Rightarrow> nat" where
  "chain_len chain = length chain"

section \<open>The passes in closed form\<close>

text \<open>Whether one filter rejects, or accepts, a packet with the given addresses and payload.\<close>

fun rejects :: "('re \<Rightarrow> string \<Rightarrow> bool) \<Rightarrow> packet \<Rightarrow> string \<Rightarrow> string \<Rightarrow> 're packet_filter \<Rightarrow> bool" where
  "rejects m p a pl (Budlist cs True) = matches_budlist (source_call p) cs"
| "rejects m p a pl (Prefix ps True) = matches_prefix (dest_call p) ps"
| "rejects m p a pl (RegexSource re) = m re (source_call p)"
| "rejects m p a pl (RegexDestination re) = m re (dest_call p)"
| "rejects m p a pl (RegexVia re) =
     (case split_once (CHR ''>'') a of
        None \<Rightarrow> False
      | Some (_, rest) \<Rightarrow> \<exists>via\<in>set (drop 1 (str_split (\<lambda>c. c = CHR '','') rest)).
          m re (trim_end_matches (CHR ''*'') via))"
| "rejects m p a pl (RegexData re) = m re pl"
| "rejects m p a pl _ = False"

fun accepts :: "packet \<Rightarrow> 're packet_filter \<Rightarrow> bool" where
  "accepts p (Budlist cs False) = matches_budlist (source_call p) cs"
| "accepts p (Prefix ps False) = matches_prefix (dest_call p) ps"
| "accepts p _ = False"

lemma passes_eq:
  assumes "addresses p = Some a" "payload p = Some pl"
  shows "\<exists>neg re. negative_pass p fs = neg \<and> regex_pass m p fs = Some re
     \<and> (neg \<or> re) = (\<exists>f\<in>set fs. rejects m p a pl f)"
    and "positive_pass p fs = (\<exists>f\<in>set fs. accepts p f)"
proof -
  have "negative_pass p fs = (\<exists>f\<in>set fs. rejects m p a pl f \<and> (case f of Budlist _ _ \<Rightarrow> True | Prefix _ _ \<Rightarrow> True | _ \<Rightarrow> False))"
    by (induction p fs rule: negative_pass.induct) auto
  moreover have "regex_pass m p fs = Some (\<exists>f\<in>set fs. rejects m p a pl f \<and> \<not> (case f of Budlist _ _ \<Rightarrow> True | Prefix _ _ \<Rightarrow> True | _ \<Rightarrow> False))"
    using assms
    by (induction m p fs rule: regex_pass.induct)
      (auto simp: matches_regex_via_def list_ex_iff split: option.splits)
  ultimately show "\<exists>neg re. negative_pass p fs = neg \<and> regex_pass m p fs = Some re
     \<and> (neg \<or> re) = (\<exists>f\<in>set fs. rejects m p a pl f)" by blast
  show "positive_pass p fs = (\<exists>f\<in>set fs. accepts p f)"
    by (induction p fs rule: positive_pass.induct) auto
qed

section \<open>Properties\<close>

text \<open>C26: For a packet whose slices do not panic, a chain passes it exactly when no filter rejects
  it (negative lists and regular expressions alike) and, if there are positive filters, one of them
  accepts it; so the answer depends only on the set of filters, not on their order.\<close>

theorem filter_chain_closed_form:
  assumes "addresses p = Some a" and "payload p = Some pl"
  shows "chain_check m chain p = Some
    ((\<forall>f\<in>set chain. \<not> rejects m p a pl f)
     \<and> ((\<exists>f\<in>set chain. is_positive f) \<longrightarrow> (\<exists>f\<in>set chain. accepts p f)))"
  using passes_eq(1) [OF assms, of chain m] passes_eq(2) [OF assms, of chain]
  by (auto simp: chain_check_def list_ex_iff)

theorem filter_chain_closed_form_witness:
  "chain_check (\<lambda>re s. re = s) [Budlist [''OH2*''] False, RegexVia ''NOGATE''] 
     (packet_new 0 ''OH2MQK>APRS,WIDE1-1,NOGATE*:x'' ''rf'' True) = Some False
   \<and> chain_check (\<lambda>re s. re = s) [Budlist [''OH2*''] False, RegexVia ''NOGATE'']
     (packet_new 0 ''OH2MQK>APRS,WIDE1-1:x'' ''rf'' True) = Some True"
proof -
  let ?c = "[Budlist [''OH2*''] False, RegexVia ''NOGATE'']"
  let ?p = "packet_new 0 ''OH2MQK>APRS,WIDE1-1,NOGATE*:x'' ''rf'' True"
  let ?q = "packet_new 0 ''OH2MQK>APRS,WIDE1-1:x'' ''rf'' True"
  have s: "addresses ?p = Some ''OH2MQK>APRS,WIDE1-1,NOGATE*''" "payload ?p = Some ''x''"
    "addresses ?q = Some ''OH2MQK>APRS,WIDE1-1''" "payload ?q = Some ''x''" by code_simp+
  have "rejects (\<lambda>re s. re = s) ?p ''OH2MQK>APRS,WIDE1-1,NOGATE*'' ''x'' (RegexVia ''NOGATE'')"
    "\<not> rejects (\<lambda>re s. re = s) ?q ''OH2MQK>APRS,WIDE1-1'' ''x'' (RegexVia ''NOGATE'')"
    "accepts ?q (Budlist [''OH2*''] False)" by code_simp+
  then show ?thesis
    using filter_chain_closed_form [OF s(1,2), of "\<lambda>re s. re = s" ?c]
      filter_chain_closed_form [OF s(3,4), of "\<lambda>re s. re = s" ?c]
    by simp
qed

end
