(* ===== verification/Decimal.thy ===== *)
theory Decimal
  imports Vaprs_Prelude
begin

text \<open>
  Floating-point numbers as text: \<open>str::parse::<f64>\<close>, which also accepts signs, exponents,
  infinities and not-a-number, and the formats \<open>{:02}\<close>, \<open>{:03}\<close> and \<open>{:05.2}\<close> that positions are
  printed with. A finite \<open>f64\<close> is the exact rational of its decimal text (the rounding of
  binary floating point, less than one part in \<open>2 ^ 52\<close>, is not modelled).
\<close>

datatype float_val = Fin rat | Infinite bool | NaN

text \<open>The comparisons and the arithmetic of the position parser.\<close>

fun float_gt :: "float_val \<Rightarrow> rat \<Rightarrow> bool" where
  "float_gt (Fin x) y = (x > y)"
| "float_gt (Infinite neg) y = (\<not> neg)"
| "float_gt NaN y = False"

fun float_ge :: "float_val \<Rightarrow> rat \<Rightarrow> bool" where
  "float_ge (Fin x) y = (x \<ge> y)"
| "float_ge (Infinite neg) y = (\<not> neg)"
| "float_ge NaN y = False"

fun float_neg :: "float_val \<Rightarrow> float_val" where
  "float_neg (Fin x) = Fin (- x)"
| "float_neg (Infinite neg) = Infinite (\<not> neg)"
| "float_neg NaN = NaN"

fun float_div :: "float_val \<Rightarrow> rat \<Rightarrow> float_val" where
  "float_div (Fin x) y = Fin (x / y)"
| "float_div (Infinite neg) y = Infinite (neg \<noteq> (y < 0))"
| "float_div NaN y = NaN"

fun float_add :: "float_val \<Rightarrow> float_val \<Rightarrow> float_val" where
  "float_add (Fin x) (Fin y) = Fin (x + y)"
| "float_add NaN y = NaN"
| "float_add x NaN = NaN"
| "float_add (Infinite a) (Infinite b) = (if a = b then Infinite a else NaN)"
| "float_add (Infinite a) (Fin y) = Infinite a"
| "float_add (Fin x) (Infinite b) = Infinite b"

section \<open>Parsing\<close>

definition ascii_lower :: "char \<Rightarrow> char" where
  "ascii_lower c = (if is_ascii_uppercase c then char_of (of_char c + 32 :: nat) else c)"

definition digits_nat :: "string \<Rightarrow> nat" where
  "digits_nat ds = foldl (\<lambda>a c. 10 * a + (of_char c - 48)) 0 ds"

definition parse_exponent :: "string \<Rightarrow> int option" where
  "parse_exponent s =
     (let (neg, ds) = (case s of [] \<Rightarrow> (False, s)
            | c # cs \<Rightarrow> if c = CHR ''-'' then (True, cs) else if c = CHR ''+'' then (False, cs) else (False, s))
      in if ds = [] \<or> \<not> list_all is_ascii_digit ds then None
         else Some (if neg then - int (digits_nat ds) else int (digits_nat ds)))"

definition scale10 :: "rat \<Rightarrow> int \<Rightarrow> rat" where
  "scale10 m e = (if 0 \<le> e then m * 10 ^ nat e else m / 10 ^ nat (- e))"

definition parse_decimal :: "string \<Rightarrow> rat option" where
  "parse_decimal t =
     (let i = takeWhile is_ascii_digit t; r = dropWhile is_ascii_digit t;
          (f, r) = (case r of [] \<Rightarrow> ([], r)
             | c # r' \<Rightarrow> if c = CHR ''.'' then (takeWhile is_ascii_digit r', dropWhile is_ascii_digit r') else ([], r));
          m = of_nat (digits_nat (i @ f)) / 10 ^ length f
      in if i = [] \<and> f = [] then None
         else (case r of
           [] \<Rightarrow> Some m
         | c # e \<Rightarrow> if c = CHR ''e'' \<or> c = CHR ''E'' then map_option (scale10 m) (parse_exponent e) else None))"

definition parse_f64 :: "string \<Rightarrow> float_val option" where
  "parse_f64 s =
     (let (neg, t) = (case s of [] \<Rightarrow> (False, s)
            | c # cs \<Rightarrow> if c = CHR ''-'' then (True, cs) else if c = CHR ''+'' then (False, cs) else (False, s));
          l = map ascii_lower t
      in if l = ''inf'' \<or> l = ''infinity'' then Some (Infinite neg)
         else if l = ''nan'' then Some NaN
         else map_option (\<lambda>x. Fin (if neg then - x else x)) (parse_decimal t))"

section \<open>Printing\<close>

text \<open>The nearest integer, ties to even, of a number that is not negative.\<close>

definition round_even :: "rat \<Rightarrow> nat" where
  "round_even x =
     (let n = nat \<lfloor>x\<rfloor>; d = x - of_nat n
      in if d < 1 / 2 then n else if d > 1 / 2 then n + 1 else if even n then n else n + 1)"

text \<open>\<open>{:05.2}\<close> of a number that is not negative.\<close>

definition fixed2 :: "rat \<Rightarrow> string" where
  "fixed2 x =
     (let k = round_even (x * 100)
      in pad_left (CHR ''0'') 5 (show_nat (k div 100) @ ''.'' @ show_nat0 2 (k mod 100)))"

lemma round_even_close: "0 \<le> x \<Longrightarrow> \<bar>of_nat (round_even x) - x\<bar> \<le> 1 / 2"
proof -
  assume x: "0 \<le> x"
  have "of_nat (nat \<lfloor>x\<rfloor>) = (of_int \<lfloor>x\<rfloor> :: rat)" using x by simp
  moreover have "of_int \<lfloor>x\<rfloor> \<le> x" "x < of_int \<lfloor>x\<rfloor> + 1" by linarith+
  ultimately show ?thesis by (auto simp: round_even_def Let_def)
qed

lemma show_nat_small: "n < 10 \<Longrightarrow> show_nat n = [digit_char n]"
  by (simp add: show_nat.simps)

lemma show_nat0_2:
  assumes "n < 100"
  shows "show_nat0 2 n = [digit_char (n div 10), digit_char (n mod 10)]"
proof (cases "n < 10")
  case False
  then have "show_nat n = show_nat (n div 10) @ [digit_char (n mod 10)]" by (subst show_nat.simps) simp
  moreover have "n div 10 < 10" using assms by simp
  ultimately show ?thesis by (simp add: show_nat0_def pad_left_def show_nat_small)
qed (simp add: show_nat0_def pad_left_def show_nat_small)

lemma show_nat0_3:
  assumes "n < 1000"
  shows "show_nat0 3 n = [digit_char (n div 100), digit_char (n div 10 mod 10), digit_char (n mod 10)]"
proof (cases "n < 100")
  case True
  have "show_nat0 3 n = CHR ''0'' # show_nat0 2 n"
  proof -
    have "show_nat n \<noteq> []" "length (show_nat n) \<le> 2"
      using True by (subst show_nat.simps; simp add: show_nat_small)+
    then have "3 - length (show_nat n) = Suc (2 - length (show_nat n))" by (cases "show_nat n") auto
    then show ?thesis by (simp add: show_nat0_def pad_left_def)
  qed
  then show ?thesis using True by (simp add: show_nat0_2)
next
  case False
  have "show_nat n = show_nat (n div 10) @ [digit_char (n mod 10)]" using False by (subst show_nat.simps) simp
  moreover have "show_nat (n div 10) = show_nat (n div 10 div 10) @ [digit_char (n div 10 mod 10)]"
    using False by (subst show_nat.simps) simp
  moreover have "n div 10 div 10 < 10" "n div 10 div 10 = n div 100" using assms by auto
  ultimately show ?thesis by (simp add: show_nat0_def pad_left_def show_nat_small)
qed

lemma fixed2_text:
  assumes "round_even (x * 100) < 10000"
  shows "fixed2 x = show_nat0 2 (round_even (x * 100) div 100) @ CHR ''.'' # show_nat0 2 (round_even (x * 100) mod 100)"
proof -
  let ?k = "round_even (x * 100)"
  have b: "?k div 100 < 100" using assms by simp
  have l: "length (show_nat (?k div 100)) \<le> 2"
    using b by (subst show_nat.simps) (simp add: show_nat_small)
  have "?k mod 100 < 100" by simp
  then have "length (show_nat0 2 (?k mod 100)) = 2" by (simp only: show_nat0_2 list.size)
  then have "5 - length (show_nat (?k div 100) @ ''.'' @ show_nat0 2 (?k mod 100)) = 2 - length (show_nat (?k div 100))"
    using l by simp
  then show ?thesis
    by (simp add: fixed2_def Let_def pad_left_def show_nat0_def [of 2 "?k div 100"])
qed

section \<open>Parsing what was printed\<close>

lemma digits_nat_snoc: "digits_nat (ds @ [digit_char d]) = 10 * digits_nat ds + d" if "d < 10"
  using that by (simp add: digits_nat_def)

lemma parse_digits:
  assumes "\<forall>c\<in>set ds. is_ascii_digit c" "ds \<noteq> []"
  shows "parse_f64 ds = Some (Fin (of_nat (digits_nat ds)))"
proof -
  obtain c cs where ds: "ds = c # cs" using assms(2) by (cases ds) auto
  have c: "is_ascii_digit c" using assms(1) ds by simp
  then have "c \<noteq> CHR ''-''" "c \<noteq> CHR ''+''" "ascii_lower c = c"
    "c \<noteq> CHR ''i''" "c \<noteq> CHR ''n''"
    by (auto simp: is_ascii_digit_def ascii_lower_def is_ascii_uppercase_def)
  moreover have tw: "takeWhile is_ascii_digit ds = ds" "dropWhile is_ascii_digit ds = []"
    using assms(1) by (simp_all add: takeWhile_eq_all_conv)
  have "parse_decimal ds = Some (of_nat (digits_nat ds))"
    unfolding parse_decimal_def tw using assms(2) by (simp add: Let_def)
  ultimately show ?thesis using ds by (simp add: parse_f64_def Let_def)
qed

lemma parse_fraction:
  assumes "\<forall>c\<in>set i. is_ascii_digit c" "\<forall>c\<in>set f. is_ascii_digit c" "i \<noteq> []"
  shows "parse_f64 (i @ CHR ''.'' # f) = Some (Fin (of_nat (digits_nat (i @ f)) / 10 ^ length f))"
proof -
  obtain c cs where i: "i = c # cs" using assms(3) by (cases i) auto
  have c: "is_ascii_digit c" using assms(1) i by simp
  then have n: "c \<noteq> CHR ''-''" "c \<noteq> CHR ''+''" "ascii_lower c = c"
    "c \<noteq> CHR ''i''" "c \<noteq> CHR ''n''"
    by (auto simp: is_ascii_digit_def ascii_lower_def is_ascii_uppercase_def)
  have "\<not> is_ascii_digit (CHR ''.'')" by (simp add: is_ascii_digit_def)
  then have t: "takeWhile is_ascii_digit (i @ CHR ''.'' # f) = i" "dropWhile is_ascii_digit (i @ CHR ''.'' # f) = CHR ''.'' # f"
    using assms(1) by (simp_all add: takeWhile_append2 dropWhile_append2)
  have tf: "takeWhile is_ascii_digit f = f" "dropWhile is_ascii_digit f = []"
    using assms(2) by (simp_all add: takeWhile_eq_all_conv)
  have "parse_decimal (i @ CHR ''.'' # f) = Some (of_nat (digits_nat (i @ f)) / 10 ^ length f)"
    unfolding parse_decimal_def t using assms(3) by (simp add: Let_def tf del: takeWhile_eq_all_conv)
  then show ?thesis using n i by (simp add: parse_f64_def Let_def)
qed

lemma parse_two_digits: "n < 100 \<Longrightarrow> parse_f64 (show_nat0 2 n) = Some (Fin (of_nat n))"
  using parse_digits [of "show_nat0 2 n"] by (simp add: show_nat0_2 digits_nat_def)

lemma parse_three_digits: "n < 1000 \<Longrightarrow> parse_f64 (show_nat0 3 n) = Some (Fin (of_nat n))"
proof -
  assume n: "n < 1000"
  have "digits_nat (show_nat0 3 n) = 10 * (10 * (n div 100) + n div 10 mod 10) + n mod 10"
    using n by (simp add: show_nat0_3 digits_nat_def)
  also have "\<dots> = n"
  proof -
    have "n div 100 = n div 10 div 10" by (simp add: div_mult2_eq [symmetric])
    then show ?thesis by (metis mult_div_mod_eq)
  qed
  finally show ?thesis using parse_digits [of "show_nat0 3 n"] n by (simp add: show_nat0_3)
qed

lemma parse_fixed2:
  assumes "round_even (x * 100) < 10000"
  shows "parse_f64 (fixed2 x) = Some (Fin (of_nat (round_even (x * 100)) / 100))"
proof -
  let ?k = "round_even (x * 100)"
  let ?i = "show_nat0 2 (?k div 100)" and ?f = "show_nat0 2 (?k mod 100)"
  have b: "?k div 100 < 100" "?k mod 100 < 100" using assms by auto
  have d: "\<forall>c\<in>set ?i. is_ascii_digit c" "\<forall>c\<in>set ?f. is_ascii_digit c" "?i \<noteq> []" "length ?f = 2"
    unfolding show_nat0_2 [OF b(1)] show_nat0_2 [OF b(2)] using b by auto
  have "digits_nat (?i @ ?f) = 100 * (?k div 100) + ?k mod 100"
    unfolding show_nat0_2 [OF b(1)] show_nat0_2 [OF b(2)] using b
    by (simp add: digits_nat_def)
  then have "digits_nat (?i @ ?f) = ?k" by simp
  then show ?thesis
    unfolding fixed2_text [OF assms] parse_fraction [OF d(1,2,3)] d(4) by simp
qed

end
