(* ===== verification/History.thy ===== *)
theory History
  imports Decimal
begin

text \<open>
  \<open>src/history.rs\<close>: the stations recently heard on RF. The current instant is an argument;
  \<open>elapsed()\<close> is the time from the record to it. The lemmas show that a station is reported as heard exactly
  when some observation of it is younger than the time to live, with cleanups anywhere, and that
  the count of a record, unlike that, does depend on when the cleanup runs.
\<close>

definition DEFAULT_TTL :: duration where
  "DEFAULT_TTL = from_secs 3600"

record station_record =
  rec_callsign :: string
  last_heard :: instant
  rec_interface :: string
  rec_position :: "(float_val \<times> float_val) option"
  heard_count :: u32

record history_db =
  hist_entries :: "(string, station_record) hash_map"
  ttl :: duration

definition history_new :: "duration \<Rightarrow> history_db" where
  "history_new t = \<lparr>hist_entries = [], ttl = t\<rparr>"

definition heard ::
  "history_db \<Rightarrow> string \<Rightarrow> string \<Rightarrow> (float_val \<times> float_val) option \<Rightarrow> instant \<Rightarrow> history_db" where
  "heard db callsign iface pos now =
     (let key = to_uppercase callsign
      in db\<lparr>hist_entries := hm_insert key
           (case hm_get (hist_entries db) key of
              Some r \<Rightarrow> r\<lparr>last_heard := now, rec_interface := iface,
                         rec_position := (if pos \<noteq> None then pos else rec_position r),
                         heard_count := heard_count r + 1\<rparr>
            | None \<Rightarrow> \<lparr>rec_callsign = key, last_heard = now, rec_interface = iface,
                       rec_position = pos, heard_count = 1\<rparr>)
           (hist_entries db)\<rparr>)"

definition is_fresh :: "duration \<Rightarrow> instant \<Rightarrow> station_record \<Rightarrow> bool" where
  "is_fresh t now r \<longleftrightarrow> duration_since now (last_heard r) < t"

definition was_heard :: "history_db \<Rightarrow> string \<Rightarrow> instant \<Rightarrow> bool" where
  "was_heard db callsign now =
     (case hm_get (hist_entries db) (to_uppercase callsign) of
        None \<Rightarrow> False | Some r \<Rightarrow> is_fresh (ttl db) now r)"

definition history_get :: "history_db \<Rightarrow> string \<Rightarrow> instant \<Rightarrow> station_record option" where
  "history_get db callsign now =
     (case hm_get (hist_entries db) (to_uppercase callsign) of
        None \<Rightarrow> None | Some r \<Rightarrow> if is_fresh (ttl db) now r then Some r else None)"

definition history_cleanup :: "history_db \<Rightarrow> instant \<Rightarrow> history_db" where
  "history_cleanup db now =
     db\<lparr>hist_entries := hm_retain (is_fresh (ttl db) now) (hist_entries db)\<rparr>"

definition history_len :: "history_db \<Rightarrow> instant \<Rightarrow> nat" where
  "history_len db now = length (filter (\<lambda>(k, r). is_fresh (ttl db) now r) (hist_entries db))"

definition history_is_empty :: "history_db \<Rightarrow> instant \<Rightarrow> bool" where
  "history_is_empty db now \<longleftrightarrow> history_len db now = 0"

section \<open>Which keys are fresh\<close>

definition fresh_key :: "history_db \<Rightarrow> string \<Rightarrow> instant \<Rightarrow> bool" where
  "fresh_key db k now =
     (case hm_get (hist_entries db) k of None \<Rightarrow> False | Some r \<Rightarrow> is_fresh (ttl db) now r)"

definition history_ok :: "history_db \<Rightarrow> bool" where
  "history_ok db \<longleftrightarrow> hm_ok (hist_entries db)"

lemma was_heard_fresh: "was_heard db c now = fresh_key db (to_uppercase c) now"
  by (simp add: was_heard_def fresh_key_def)

lemma history_get_fresh: "(history_get db c now \<noteq> None) = was_heard db c now"
  by (simp add: history_get_def was_heard_def split: option.splits)

lemma heard_ttl [simp]: "ttl (heard db c i p now) = ttl db"
  by (simp add: heard_def Let_def)

lemma cleanup_ttl [simp]: "ttl (history_cleanup db now) = ttl db"
  by (simp add: history_cleanup_def)

lemma history_ok_heard [simp]: "history_ok db \<Longrightarrow> history_ok (heard db c i p now)"
  by (simp add: history_ok_def heard_def Let_def)

lemma history_ok_cleanup [simp]: "history_ok db \<Longrightarrow> history_ok (history_cleanup db now)"
  by (simp add: history_ok_def history_cleanup_def)

lemma fresh_heard:
  "fresh_key (heard db c i p now) k t =
     (if k = to_uppercase c then duration_since t now < ttl db else fresh_key db k t)"
  by (simp add: fresh_key_def heard_def Let_def is_fresh_def split: option.splits)

lemma fresh_cleanup:
  "history_ok db \<Longrightarrow> now \<le> t \<Longrightarrow> fresh_key (history_cleanup db now) k t = fresh_key db k t"
  by (auto simp: fresh_key_def history_cleanup_def history_ok_def hm_get_retain is_fresh_def
        duration_since_def split: option.splits)

lemma history_len_fresh:
  assumes "history_ok db"
  shows "history_len db now = card {k. fresh_key db k now}"
proof -
  let ?f = "filter (\<lambda>(k, r). is_fresh (ttl db) now r) (hist_entries db)"
  have d: "distinct (map fst (hist_entries db))"
    using assms by (simp add: history_ok_def hm_ok_def)
  then have "distinct (map fst ?f)" by (rule distinct_map_filter)
  then have "length ?f = card (set (map fst ?f))" by (metis distinct_card length_map)
  moreover have "set (map fst ?f) = {k. fresh_key db k now}"
    unfolding fresh_key_def hm_get_def
    by (auto simp: map_of_eq_None_iff map_of_is_SomeI [OF d] dest: map_of_SomeD intro: rev_image_eqI
          split: option.splits)
  ultimately show ?thesis by (simp add: history_len_def)
qed

section \<open>Cleanups are not observable in what is fresh\<close>

datatype history_op = HHeard string string "(float_val \<times> float_val) option" | HWas string | HLen

datatype history_answer = HDone | HBool bool | HCount nat

fun history_step :: "history_db \<Rightarrow> history_op \<Rightarrow> instant \<Rightarrow> history_db \<times> history_answer" where
  "history_step db (HHeard c i p) now = (heard db c i p now, HDone)"
| "history_step db (HWas c) now = (db, HBool (was_heard db c now))"
| "history_step db HLen now = (db, HCount (history_len db now))"

definition history_alike :: "instant \<Rightarrow> history_db \<Rightarrow> history_db \<Rightarrow> bool" where
  "history_alike now s s' \<longleftrightarrow>
     ttl s = ttl s' \<and> (\<forall>k t. now \<le> t \<longrightarrow> fresh_key s k t = fresh_key s' k t)"

interpretation history_store: swept_store history_step history_cleanup history_alike history_ok
proof
  fix s s' now x assume ok: "history_ok s" "history_ok s'" and a: "history_alike now s s'"
  show "snd (history_step s x now) = snd (history_step s' x now)
      \<and> history_alike now (fst (history_step s x now)) (fst (history_step s' x now))"
    using a by (cases x)
      (simp_all add: history_alike_def fresh_heard was_heard_fresh history_len_fresh ok)
next
  fix s now x assume "history_ok s"
  then show "history_ok (fst (history_step s x now))" by (cases x) simp_all
qed (auto simp: history_alike_def fresh_cleanup)

abbreviation history_run :: "history_db \<Rightarrow> history_op timed list \<Rightarrow> history_db \<times> history_answer list" where
  "history_run \<equiv> run_timed history_step history_cleanup"

text \<open>The observations of a run: who was heard when.\<close>

fun heards :: "history_op timed list \<Rightarrow> (string \<times> instant) list" where
  "heards [] = []"
| "heards (Op (HHeard c i p) t # es) = (c, t) # heards es"
| "heards (_ # es) = heards es"

fun last_time :: "instant \<Rightarrow> 'op timed list \<Rightarrow> instant" where
  "last_time now [] = now"
| "last_time now (e # es) = last_time (time_of e) es"

definition seen_within :: "duration \<Rightarrow> (string \<times> instant) list \<Rightarrow> string \<Rightarrow> instant \<Rightarrow> bool" where
  "seen_within d obs k t \<longleftrightarrow> (\<exists>(c, u)\<in>set obs. to_uppercase c = k \<and> t - u < d)"

definition tracks :: "history_db \<Rightarrow> (string \<times> instant) list \<Rightarrow> instant \<Rightarrow> bool" where
  "tracks db obs now \<longleftrightarrow> history_ok db \<and> (\<forall>(c, u)\<in>set obs. u \<le> now)
     \<and> (\<forall>k t. now \<le> t \<longrightarrow> fresh_key db k t = seen_within (ttl db) obs k t)"

lemma tracks_later: "tracks db obs now \<Longrightarrow> now \<le> t \<Longrightarrow> tracks db obs t"
  unfolding tracks_def by fastforce

lemma tracks_heard:
  assumes "tracks db obs now"
  shows "tracks (heard db c i p now) (obs @ [(c, now)]) now"
proof -
  have old: "u \<le> now" if "(c', u) \<in> set obs" for c' u
    using assms that by (auto simp: tracks_def)
  have "t - now < d" if "(c', u) \<in> set obs" "t - u < d" for c' u d t
    using old [OF that(1)] that(2) by linarith
  then have "seen_within (ttl db) (obs @ [(c, now)]) k t
      = (if k = to_uppercase c then t - now < ttl db else seen_within (ttl db) obs k t)" for k t
    by (auto simp: seen_within_def)
  then show ?thesis
    using assms by (auto simp: tracks_def fresh_heard duration_since_def)
qed

lemma tracks_cleanup: "tracks db obs now \<Longrightarrow> tracks (history_cleanup db now) obs now"
  by (simp add: tracks_def fresh_cleanup)

lemma history_run_tracks:
  "tracks db obs now \<Longrightarrow> clock_from now es
   \<Longrightarrow> tracks (fst (history_run db es)) (obs @ heards es) (last_time now es)
     \<and> ttl (fst (history_run db es)) = ttl db"
proof (induction es arbitrary: db obs now)
  case (Cons e es)
  show ?case
  proof (cases e)
    case (Sweep t)
    then show ?thesis
      using Cons.prems Cons.IH [OF tracks_cleanup [OF tracks_later [OF Cons.prems(1), of t]]] by simp
  next
    case (Op x t)
    have t: "tracks db obs t" "clock_from t es" using Cons.prems Op by (auto intro: tracks_later)
    show ?thesis
      using Cons.IH [OF t] Cons.IH [OF tracks_heard [OF t(1)] t(2)] Op
      by (cases x) (simp_all add: split_def Let_def)
  qed
qed simp

section \<open>Properties\<close>

text \<open>C28: With cleanups anywhere on a clock that does not go back, a station is reported as heard
  exactly when one of its observations, under any letter case, is younger than the time to live;
  the cleanups change no answer of the run.\<close>

theorem history_was_heard_iff:
  assumes "clock_from now es" and "last_time now es \<le> t"
  shows "was_heard (fst (history_run (history_new d) es)) c t
        = (\<exists>(c', u)\<in>set (heards es). to_uppercase c' = to_uppercase c \<and> t - u < d)
    \<and> snd (history_run (history_new d) es) = snd (history_run (history_new d) (without_sweeps es))"
proof -
  have ok: "history_ok (history_new d)" "ttl (history_new d) = d"
    by (simp_all add: history_ok_def history_new_def)
  then have "tracks (history_new d) [] now"
    by (simp add: tracks_def seen_within_def fresh_key_def history_new_def)
  from history_run_tracks [OF this assms(1)] assms(2)
  have "was_heard (fst (history_run (history_new d) es)) c t
      = (\<exists>(c', u)\<in>set (heards es). to_uppercase c' = to_uppercase c \<and> t - u < d)"
    by (simp add: tracks_def was_heard_fresh seen_within_def ok)
  then show ?thesis
    using history_store.sweeps_unobservable [OF ok(1) assms(1)] by blast
qed

theorem history_was_heard_iff_witness:
  "was_heard (fst (history_run (history_new 60)
      [Op (HHeard ''oh2mqk'' ''rf'' None) 5, Sweep 70, Op (HHeard ''N0CALL'' ''rf'' None) 80])) ''n0call'' 100
   \<and> \<not> was_heard (fst (history_run (history_new 60)
      [Op (HHeard ''oh2mqk'' ''rf'' None) 5, Sweep 70, Op (HHeard ''N0CALL'' ''rf'' None) 80])) ''OH2MQK'' 100"
proof -
  let ?es = "[Op (HHeard ''oh2mqk'' ''rf'' None) 5, Sweep 70, Op (HHeard ''N0CALL'' ''rf'' None) 80]"
  have c: "clock_from 0 ?es" "last_time 0 ?es \<le> 100" by simp_all
  have "\<exists>(c', u)\<in>set (heards ?es). to_uppercase c' = to_uppercase ''n0call'' \<and> 100 - u < 60"
    "\<not> (\<exists>(c', u)\<in>set (heards ?es). to_uppercase c' = to_uppercase ''OH2MQK'' \<and> 100 - u < 60)"
    by code_simp+
  then show ?thesis
    using history_was_heard_iff [OF c, of 60 "''n0call''"] history_was_heard_iff [OF c, of 60 "''OH2MQK''"]
    by blast
qed

text \<open>The count of a record is another matter: a station heard again after its record expired
  continues the old count when no cleanup ran in between, and starts at one when one did, so the
  count depends on when the cleanup task happened to run.\<close>

theorem history_count_depends_on_cleanup:
  assumes "d \<le> t - s" "0 < d"
  shows "map_option heard_count (history_get (heard (heard (history_new d) c i None s) c i None t) c t) = Some 2
    \<and> map_option heard_count
        (history_get (heard (history_cleanup (heard (history_new d) c i None s) t) c i None t) c t) = Some 1"
proof -
  have g: "hm_get [(k, r)] k = Some r" for k and r :: station_record by (simp add: hm_get_def)
  show ?thesis
    using assms by (simp add: history_get_def heard_def history_new_def Let_def history_cleanup_def
        hm_retain_def is_fresh_def duration_since_def g)
qed

theorem history_count_depends_on_cleanup_witness:
  "map_option heard_count (history_get
     (heard (heard (history_new 60) ''N0CALL'' ''rf'' None 5) ''N0CALL'' ''rf'' None 100) ''N0CALL'' 100) = Some 2"
  using history_count_depends_on_cleanup [of 60 100 5 "''N0CALL''" "''rf''"] by simp

end
