(* ===== verification/Igate.thy ===== *)
theory Igate
  imports Packet History
begin

text \<open>
  \<open>src/igate.rs\<close>: what is gated from RF to APRS-IS and from APRS-IS to RF. The accessors of a packet can
  panic, so the gating functions can. The lemmas show what every gated line guarantees, what nested
  third-party frames come to, and which messages reach RF.
\<close>

datatype gate_result =
    Gated string
  | DroppedQuery
  | DroppedForbiddenSource
  | DroppedForbiddenDest
  | DroppedForbiddenVia
  | DroppedDepthExceeded

definition FORBIDDEN_SOURCE_PREFIXES :: "string list" where
  "FORBIDDEN_SOURCE_PREFIXES =
     [''WIDE'', ''RELAY'', ''TRACE'', ''TCPIP'', ''TCPXX'', ''NOCALL'', ''N0CALL'']"

definition FORBIDDEN_DEST_PREFIXES :: "string list" where
  "FORBIDDEN_DEST_PREFIXES = [''TCPIP'', ''TCPXX'', ''NOGATE'', ''RFONLY'', ''NOCALL'', ''N0CALL'']"

definition FORBIDDEN_VIA_PREFIXES :: "string list" where
  "FORBIDDEN_VIA_PREFIXES = [''RFONLY'', ''NOGATE'', ''TCPIP'', ''TCPXX'']"

definition MAX_THIRD_PARTY_DEPTH :: nat where
  "MAX_THIRD_PARTY_DEPTH = 3"

definition is_forbidden_source :: "string \<Rightarrow> bool" where
  "is_forbidden_source callsign = list_ex (starts_with callsign) FORBIDDEN_SOURCE_PREFIXES"

definition is_forbidden_destination :: "string \<Rightarrow> bool" where
  "is_forbidden_destination callsign = list_ex (starts_with callsign) FORBIDDEN_DEST_PREFIXES"

definition is_forbidden_via :: "string \<Rightarrow> bool" where
  "is_forbidden_via callsign =
     (let clean = unwrap_or (strip_suffix_char (CHR ''*'') callsign) callsign
      in list_ex (starts_with clean) FORBIDDEN_VIA_PREFIXES)"

definition sanitize_line :: "string \<Rightarrow> string" where
  "sanitize_line s =
     (case str_find (\<lambda>c. c = CHR 0x0D \<or> c = CHR 0x0A) s of Some pos \<Rightarrow> take pos s | None \<Rightarrow> s)"

definition extract_via_callsigns :: "string \<Rightarrow> string list" where
  "extract_via_callsigns addrs =
     (case nth_opt (str_split (\<lambda>c. c = CHR ''>'') addrs) 1 of
        None \<Rightarrow> []
      | Some after_gt \<Rightarrow>
          (let parts = str_split (\<lambda>c. c = CHR '','') after_gt
           in if length parts > 1 then drop 1 parts else []))"

text \<open>The recursion is on the nesting depth: at \<open>MAX_THIRD_PARTY_DEPTH\<close> it stops.\<close>

function gate_to_aprsis_inner :: "packet \<Rightarrow> string \<Rightarrow> nat \<Rightarrow> instant \<Rightarrow> gate_result may_panic" where
  "gate_to_aprsis_inner p gate_call depth now =
     (case payload p of
        None \<Rightarrow> None
      | Some pl \<Rightarrow>
        if starts_with pl ''?'' then Some DroppedQuery
        else (case strip_prefix ''}'' pl of
          Some inner \<Rightarrow>
            if MAX_THIRD_PARTY_DEPTH \<le> depth then Some DroppedDepthExceeded
            else gate_to_aprsis_inner (packet_new now inner (source_interface p) (is_aprs p))
                   gate_call (depth + 1) now
        | None \<Rightarrow>
            if is_forbidden_source (source_call p) then Some DroppedForbiddenSource
            else if is_forbidden_destination (dest_call p) then Some DroppedForbiddenDest
            else do {
              addrs \<leftarrow> addresses p;
              if list_ex is_forbidden_via (extract_via_callsigns addrs) then Some DroppedForbiddenVia
              else Some (Gated (sanitize_line addrs @ '',qAR,'' @ gate_call @ '':'' @ sanitize_line pl))
            }))"
  by pat_completeness auto
termination
  by (relation "measure (\<lambda>(p, g, depth, now). MAX_THIRD_PARTY_DEPTH - depth)") auto

declare gate_to_aprsis_inner.simps [simp del]

definition gate_to_aprsis :: "packet \<Rightarrow> string \<Rightarrow> instant \<Rightarrow> gate_result may_panic" where
  "gate_to_aprsis p gate_call now = gate_to_aprsis_inner p gate_call 0 now"

definition TX_FORBIDDEN_VIA :: "string list" where
  "TX_FORBIDDEN_VIA = [''TCPXX'', ''NOGATE'', ''RFONLY'', ''qAX'']"

definition tx_forbidden :: "string \<Rightarrow> bool" where
  "tx_forbidden s = list_ex (starts_with s) TX_FORBIDDEN_VIA"

definition extract_message_addressee :: "string \<Rightarrow> string may_panic" where
  "extract_message_addressee pl = do {
     after_colon \<leftarrow> str_from pl 1;
     Some (case str_find (\<lambda>c. c = CHR '':'') after_colon of
       Some pos \<Rightarrow> trim (take pos after_colon)
     | None \<Rightarrow> trim after_colon)
   }"

definition gate_to_rf :: "packet \<Rightarrow> string \<Rightarrow> history_db \<Rightarrow> instant \<Rightarrow> string option may_panic" where
  "gate_to_rf p gate_call history now = do {
     pl \<leftarrow> payload p;
     if starts_with pl ''?'' then Some None
     else if starts_with pl ''}'' then Some None
     else if \<not> starts_with pl '':'' then Some None
     else (let source = source_call p; dest = dest_call p in
       if tx_forbidden source then Some None
       else if tx_forbidden dest then Some None
       else do {
         addrs \<leftarrow> addresses p;
         if list_ex (\<lambda>via. tx_forbidden (unwrap_or (strip_suffix_char (CHR ''*'') via) via))
              (extract_via_callsigns addrs)
         then Some None
         else do {
           addressee \<leftarrow> extract_message_addressee pl;
           if \<not> was_heard history addressee now then Some None
           else if was_heard history source now then Some None
           else Some (Some (''}'' @ sanitize_line source @ ''>'' @ sanitize_line dest @ '',TCPIP,''
                            @ gate_call @ ''*:'' @ sanitize_line pl))
         }
       })
   }"

section \<open>Lines without line breaks\<close>

lemma sanitize_line_eq: "sanitize_line s = takeWhile (\<lambda>c. \<not> (c = CHR 0x0D \<or> c = CHR 0x0A)) s"
proof (cases "str_find (\<lambda>c. c = CHR 0x0D \<or> c = CHR 0x0A) s")
  case None
  then have "\<forall>c\<in>set s. \<not> (c = CHR 0x0D \<or> c = CHR 0x0A)" by (simp only: str_find_None)
  then have "takeWhile (\<lambda>c. \<not> (c = CHR 0x0D \<or> c = CHR 0x0A)) s = s"
    by (simp only: takeWhile_eq_all_conv)
  with None show ?thesis unfolding sanitize_line_def by (simp only: option.case)
next
  case (Some i)
  from str_find_eq_takeWhile [OF Some] Some show ?thesis
    unfolding sanitize_line_def by (simp only: option.case)
qed

lemma sanitize_line_free [clean_intros]: "line_free (sanitize_line s)"
  unfolding sanitize_line_eq line_free_def by (auto dest: set_takeWhileD)

lemma sanitize_line_id: "line_free s \<Longrightarrow> sanitize_line s = s"
  unfolding sanitize_line_eq line_free_def by (auto simp: takeWhile_eq_all_conv)

interpretation gate_san: line_sanitizer sanitize_line
  by unfold_locales (simp_all add: sanitize_line_free sanitize_line_id)

section \<open>What a gated line guarantees\<close>

text \<open>The packet a third-party nesting is finally about: the checks and the line are its.\<close>

definition gateable :: "packet \<Rightarrow> string \<Rightarrow> string \<Rightarrow> bool" where
  "gateable p addrs pl \<longleftrightarrow> addresses p = Some addrs \<and> payload p = Some pl
     \<and> \<not> starts_with pl ''?'' \<and> \<not> starts_with pl ''}''
     \<and> \<not> is_forbidden_source (source_call p) \<and> \<not> is_forbidden_destination (dest_call p)
     \<and> (\<forall>via\<in>set (extract_via_callsigns addrs). \<not> is_forbidden_via via)"

lemma gate_inner_gated:
  "gate_to_aprsis_inner p gate_call depth now = Some (Gated l) \<Longrightarrow>
   \<exists>q addrs pl. gateable q addrs pl
     \<and> l = sanitize_line addrs @ '',qAR,'' @ gate_call @ '':'' @ sanitize_line pl"
proof (induction p gate_call depth now rule: gate_to_aprsis_inner.induct)
  case (1 p gate_call depth now)
  note g = "1.prems" [unfolded gate_to_aprsis_inner.simps [of p gate_call depth now]]
  obtain pl where pl: "payload p = Some pl" and q: "\<not> starts_with pl ''?''"
    using g by (auto split: option.splits if_splits)
  show ?case
  proof (cases "strip_prefix ''}'' pl")
    case (Some inner)
    have d: "\<not> MAX_THIRD_PARTY_DEPTH \<le> depth"
      and "gate_to_aprsis_inner (packet_new now inner (source_interface p) (is_aprs p)) gate_call (depth + 1) now
        = Some (Gated l)"
      using g pl q Some by (auto split: if_splits)
    from "1.IH" [OF pl q Some d this(2)] show ?thesis .
  next
    case None
    then have "\<not> starts_with pl ''}''" by (simp add: strip_prefix_def split: if_splits)
    moreover obtain addrs where "addresses p = Some addrs" "\<not> list_ex is_forbidden_via (extract_via_callsigns addrs)"
      "\<not> is_forbidden_source (source_call p)" "\<not> is_forbidden_destination (dest_call p)"
      "l = sanitize_line addrs @ '',qAR,'' @ gate_call @ '':'' @ sanitize_line pl"
      using g pl q None by (auto split: if_splits bind_splits)
    ultimately show ?thesis
      using pl q unfolding gateable_def list_ex_iff by blast
  qed
qed

text \<open>Without a third-party header the checks alone decide.\<close>

lemma gate_direct:
  assumes "addresses p = Some a" "payload p = Some q" "\<not> starts_with q ''}''"
  shows "\<exists>r. gate_to_aprsis_inner p g d now = Some r
    \<and> (\<forall>l. r = Gated l \<longleftrightarrow> gateable p a q \<and> l = sanitize_line a @ '',qAR,'' @ g @ '':'' @ sanitize_line q)"
  using assms
  by (auto simp: gate_to_aprsis_inner.simps [of p g d now] strip_prefix_def gateable_def list_ex_iff)

lemma gated_line_free:
  assumes "line_free gate_call"
  shows "line_free (sanitize_line addrs @ '',qAR,'' @ gate_call @ '':'' @ sanitize_line pl)"
proof -
  have "line_free '',qAR,''" "line_free '':''" by (simp_all add: line_free_def)
  then show ?thesis unfolding line_free_append using assms gate_san.san_free by blast
qed

text \<open>Packets of ASCII text never make the gate panic.\<close>

lemma payload_ascii:
  assumes "all_ascii (tnc2 p)"
  shows "no_panic (payload p)" "payload p = Some pl \<Longrightarrow> all_ascii pl"
  using assms no_panic_slices(2) [OF assms] from_ascii [OF _ assms]
  by (auto simp: payload_def no_panic_def all_ascii_def split: if_splits)

lemma addresses_ascii: "all_ascii (tnc2 p) \<Longrightarrow> tnc2_addr_len p \<le> length (tnc2 p) \<Longrightarrow> no_panic (addresses p)"
  using ascii_boundary [of "tnc2 p" "tnc2_addr_len p"] by (simp add: addresses_def str_to_def no_panic_def all_ascii_def)

lemma packet_new_len: "tnc2_addr_len (packet_new now l i b) \<le> length l"
  using str_find_Some [of "\<lambda>c. c = CHR '':''" l] by (cases "str_find (\<lambda>c. c = CHR '':'') l") (auto simp: packet_new_def)

lemma gate_inner_ascii:
  "all_ascii (tnc2 p) \<Longrightarrow> tnc2_addr_len p \<le> length (tnc2 p) \<Longrightarrow> no_panic (gate_to_aprsis_inner p gate_call depth now)"
proof (induction p gate_call depth now rule: gate_to_aprsis_inner.induct)
  case (1 p gate_call depth now)
  obtain pl where pl: "payload p = Some pl" using payload_ascii(1) [OF 1(2)] by (auto simp: no_panic_def)
  have ascii: "all_ascii pl" by (rule payload_ascii(2) [OF 1(2) pl])
  obtain addrs where addrs: "addresses p = Some addrs" using addresses_ascii [OF 1(2,3)] by (auto simp: no_panic_def)
  show ?case
  proof (cases "strip_prefix ''}'' pl")
    case None
    then show ?thesis
      by (simp add: gate_to_aprsis_inner.simps [of p gate_call depth now] pl addrs no_panic_def)
  next
    case (Some inner)
    have "all_ascii inner" using ascii Some by (auto simp: strip_prefix_def all_ascii_def split: if_splits dest: in_set_dropD)
    then have "no_panic (gate_to_aprsis_inner (packet_new now inner (source_interface p) (is_aprs p)) gate_call (depth + 1) now)"
      if "\<not> starts_with pl ''?''" "\<not> MAX_THIRD_PARTY_DEPTH \<le> depth"
      using 1(1) [OF pl that(1) Some that(2)] packet_new_len by simp
    then show ?thesis
      by (simp add: gate_to_aprsis_inner.simps [of p gate_call depth now] pl Some no_panic_def)
  qed
qed

section \<open>Nested third-party frames\<close>

text \<open>\<open>inner\<close> behind third-party headers, the outermost first.\<close>

fun wrapped :: "string list \<Rightarrow> string \<Rightarrow> string" where
  "wrapped [] inner = inner"
| "wrapped (h # hs) inner = h @ CHR '':'' # CHR ''}'' # wrapped hs inner"

lemma utf8_valid_wrapped: "utf8_valid (wrapped hs inner) \<Longrightarrow> utf8_valid inner"
proof (induction hs)
  case (Cons h hs)
  then have "utf8_valid (CHR ''}'' # wrapped hs inner)"
    using utf8_valid_split [of h "CHR '':''"] by (simp add: is_ascii_char_def)
  then show ?case using Cons.IH by (simp add: is_ascii_char_def)
qed simp

lemma gate_inner_wrapped:
  assumes "utf8_valid (wrapped hs inner)" "\<forall>h\<in>set hs. CHR '':'' \<notin> set h"
    and "depth \<le> MAX_THIRD_PARTY_DEPTH"
  shows "gate_to_aprsis_inner (packet_new now (wrapped hs inner) i b) g depth now
    = (if depth + length hs \<le> MAX_THIRD_PARTY_DEPTH
       then gate_to_aprsis_inner (packet_new now inner i b) g (depth + length hs) now
       else Some DroppedDepthExceeded)"
  using assms
proof (induction hs arbitrary: depth)
  case (Cons h hs)
  let ?w = "wrapped hs inner"
  have v: "utf8_valid (h @ CHR '':'' # CHR ''}'' # ?w)" and h: "CHR '':'' \<notin> set h"
    using Cons.prems by simp_all
  have pl: "payload (packet_new now (h @ CHR '':'' # CHR ''}'' # ?w) i b) = Some (CHR ''}'' # ?w)"
    by (rule new_slices(2) [OF v h])
  have "utf8_valid (CHR ''}'' # ?w)"
    using v utf8_valid_split [of h "CHR '':''"] by (simp add: is_ascii_char_def)
  then have w: "utf8_valid ?w" by (simp add: is_ascii_char_def)
  have step: "gate_to_aprsis_inner (packet_new now (wrapped (h # hs) inner) i b) g depth now
    = (if MAX_THIRD_PARTY_DEPTH \<le> depth then Some DroppedDepthExceeded
       else gate_to_aprsis_inner (packet_new now ?w i b) g (depth + 1) now)"
    by (subst gate_to_aprsis_inner.simps) (simp add: pl strip_prefix_def)
  show ?case
  proof (cases "MAX_THIRD_PARTY_DEPTH \<le> depth")
    case True
    then show ?thesis unfolding step by simp
  next
    case False
    then show ?thesis unfolding step using Cons.IH [OF w, of "depth + 1"] Cons.prems(2) by simp
  qed
qed simp

text \<open>At the last level the depth does not matter any more.\<close>

lemma gate_inner_depth:
  assumes "payload p = Some pl" "\<not> starts_with pl ''}''"
  shows "gate_to_aprsis_inner p g d now = gate_to_aprsis_inner p g e now"
proof -
  have "strip_prefix ''}'' pl = None" using assms(2) by (simp add: strip_prefix_def)
  then show ?thesis
    unfolding gate_to_aprsis_inner.simps [of p g d] gate_to_aprsis_inner.simps [of p g e] assms(1)
    by simp
qed

section \<open>Properties\<close>

text \<open>C5: What is gated to APRS-IS is one line whatever was received: it holds no line break (so no
  second command can be injected), it is the addresses and payload of a packet followed by the
  qAR construct, and that packet is neither a query nor a third-party frame and has no
  forbidden source, destination or via.\<close>

theorem gated_line_safe:
  assumes "gate_to_aprsis p gate_call now = Some (Gated l)" and "line_free gate_call"
  shows "line_free l \<and> (\<exists>q addrs pl. gateable q addrs pl
     \<and> l = sanitize_line addrs @ '',qAR,'' @ gate_call @ '':'' @ sanitize_line pl)"
proof -
  obtain q addrs pl where l: "gateable q addrs pl"
    "l = sanitize_line addrs @ '',qAR,'' @ gate_call @ '':'' @ sanitize_line pl"
    using gate_inner_gated [OF assms(1) [unfolded gate_to_aprsis_def]] by blast
  have "line_free l" unfolding l(2) by (rule gated_line_free [OF assms(2)])
  with l show ?thesis by blast
qed

theorem gated_line_safe_witness:
  "gate_to_aprsis (packet_new 0 (''OH2MQK>APRS:}TEST>APRS,WIDE1*:hi'' @ [CHR 0x0A] @ ''x>y:evil'') ''rf'' True) ''GATE'' 0
     = Some (Gated ''TEST>APRS,WIDE1*,qAR,GATE:hi'')
   \<and> line_free ''TEST>APRS,WIDE1*,qAR,GATE:hi''"
proof -
  have g: "gate_to_aprsis (packet_new 0 (''OH2MQK>APRS:}TEST>APRS,WIDE1*:hi'' @ [CHR 0x0A] @ ''x>y:evil'') ''rf'' True) ''GATE'' 0
     = Some (Gated ''TEST>APRS,WIDE1*,qAR,GATE:hi'')" by code_simp
  have "line_free ''GATE''" by code_simp
  with gated_line_safe [OF g] g show ?thesis by blast
qed

text \<open>C27: A packet behind third-party headers is gated exactly as it would be alone when there are
  at most three headers, and is dropped for its depth when there are more.\<close>

theorem third_party_depth:
  assumes "utf8_valid (wrapped hs (a @ CHR '':'' # pl))" and "\<forall>h\<in>set hs. CHR '':'' \<notin> set h"
    and "CHR '':'' \<notin> set a" and "\<not> starts_with pl ''}''"
  shows "gate_to_aprsis (packet_new now (wrapped hs (a @ CHR '':'' # pl)) i b) g now
    = (if length hs \<le> 3 then gate_to_aprsis (packet_new now (a @ CHR '':'' # pl) i b) g now
       else Some DroppedDepthExceeded)"
proof -
  let ?p = "packet_new now (a @ CHR '':'' # pl) i b"
  have "payload ?p = Some pl"
    using new_slices(2) [OF utf8_valid_wrapped [OF assms(1)] assms(3)] .
  from gate_inner_depth [OF this assms(4), of g "length hs" now 0]
  show ?thesis
    using gate_inner_wrapped [OF assms(1,2), of 0 now i b g]
    by (simp add: gate_to_aprsis_def MAX_THIRD_PARTY_DEPTH_def)
qed

theorem third_party_depth_witness:
  "gate_to_aprsis (packet_new 0 ''A>B:}C>D:}E>F:}G>H:}TEST>APRS:hi'' ''rf'' True) ''GATE'' 0
     = Some DroppedDepthExceeded
   \<and> gate_to_aprsis (packet_new 0 ''A>B:}C>D:}E>F:}TEST>APRS:hi'' ''rf'' True) ''GATE'' 0
     = gate_to_aprsis (packet_new 0 ''TEST>APRS:hi'' ''rf'' True) ''GATE'' 0"
proof -
  have v: "utf8_valid (wrapped [''A>B'', ''C>D'', ''E>F'', ''G>H''] (''TEST>APRS'' @ CHR '':'' # ''hi''))"
    "utf8_valid (wrapped [''A>B'', ''C>D'', ''E>F''] (''TEST>APRS'' @ CHR '':'' # ''hi''))"
    by (simp_all add: is_ascii_char_def)
  show ?thesis
    using third_party_depth [OF v(1), of 0 "''rf''" True "''GATE''"]
      third_party_depth [OF v(2), of 0 "''rf''" True "''GATE''"]
    by simp
qed

text \<open>C17: What is gated to RF is one third-party line without line breaks, and only a message
  whose addressee was heard on RF lately and whose source was not, without a forbidden source,
  destination or via.\<close>

theorem rf_gating_safe:
  assumes "gate_to_rf p gate_call history now = Some (Some l)" and "line_free gate_call"
  shows "line_free l \<and> starts_with l ''}''
    \<and> (\<exists>addrs pl addressee. addresses p = Some addrs \<and> payload p = Some pl \<and> starts_with pl '':''
         \<and> extract_message_addressee pl = Some addressee
         \<and> was_heard history addressee now \<and> \<not> was_heard history (source_call p) now
         \<and> \<not> tx_forbidden (source_call p) \<and> \<not> tx_forbidden (dest_call p)
         \<and> (\<forall>via\<in>set (extract_via_callsigns addrs).
              \<not> tx_forbidden (unwrap_or (strip_suffix_char (CHR ''*'') via) via)))"
proof -
  obtain addrs pl addressee where r: "addresses p = Some addrs" "payload p = Some pl" "starts_with pl '':''"
    "extract_message_addressee pl = Some addressee" "was_heard history addressee now"
    "\<not> was_heard history (source_call p) now" "\<not> tx_forbidden (source_call p)" "\<not> tx_forbidden (dest_call p)"
    "\<not> list_ex (\<lambda>via. tx_forbidden (unwrap_or (strip_suffix_char (CHR ''*'') via) via)) (extract_via_callsigns addrs)"
    and l: "l = ''}'' @ sanitize_line (source_call p) @ ''>'' @ sanitize_line (dest_call p) @ '',TCPIP,''
                @ gate_call @ ''*:'' @ sanitize_line pl"
    using assms(1) unfolding gate_to_rf_def Let_def by (auto split: if_splits bind_splits)
  have "line_free ''}''" "line_free ''>''" "line_free '',TCPIP,''" "line_free ''*:''"
    by (simp_all add: line_free_def)
  then have "line_free l" unfolding l line_free_append using assms(2) gate_san.san_free by blast
  moreover have "starts_with l ''}''" by (simp add: l)
  ultimately show ?thesis using r unfolding list_ex_iff by blast
qed

theorem rf_gating_safe_witness:
  "gate_to_rf (packet_new 9 ''W1AW>APRS,TCPIP*,qAC,T2::OH2MQK   :hello'' ''APRSIS'' True) ''GATE''
     (heard (history_new 60) ''OH2MQK'' ''rf'' None 5) 9
     = Some (Some ''}W1AW>APRS,TCPIP,GATE*::OH2MQK   :hello'')
   \<and> line_free ''}W1AW>APRS,TCPIP,GATE*::OH2MQK   :hello''"
proof -
  have g: "gate_to_rf (packet_new 9 ''W1AW>APRS,TCPIP*,qAC,T2::OH2MQK   :hello'' ''APRSIS'' True) ''GATE''
     (heard (history_new 60) ''OH2MQK'' ''rf'' None 5) 9
     = Some (Some ''}W1AW>APRS,TCPIP,GATE*::OH2MQK   :hello'')" by code_simp
  have "line_free ''GATE''" by code_simp
  with rf_gating_safe [OF g] g show ?thesis by blast
qed

end
