(* ===== verification/Parse_Aprs.thy ===== *)
theory Parse_Aprs
  imports Decimal
begin

text \<open>
  \<open>src/parse_aprs.rs\<close>: the APRS payload parser. Slices of a \<open>str\<close> can panic, so the parsers do;
  below that, an \<open>Option\<close> of the source is an option. A symbol is the byte it was read from. The lemmas show
  that ASCII payloads never panic, that messages are read back as they were built, and which
  texts that are no positions are read as one.
\<close>

datatype aprs_data =
    Position float_val float_val char char "string option"
  | Message string string "string option"
  | Object string bool float_val float_val
  | Item string bool float_val float_val
  | UnknownData

text \<open>The operator \<open>?\<close> on an \<open>Option\<close>.\<close>

definition or_none :: "'a option \<Rightarrow> ('a \<Rightarrow> 'b option may_panic) \<Rightarrow> 'b option may_panic" where
  "or_none x f = (case x of None \<Rightarrow> Some None | Some v \<Rightarrow> f v)"

text \<open>\<open>match ... { Some(v) => v, None => return AprsData::Unknown }\<close>.\<close>

definition or_unknown :: "'a option \<Rightarrow> ('a \<Rightarrow> aprs_data may_panic) \<Rightarrow> aprs_data may_panic" where
  "or_unknown x f = (case x of None \<Rightarrow> Some UnknownData | Some v \<Rightarrow> f v)"

section \<open>Coordinates\<close>

definition parse_latitude :: "string \<Rightarrow> float_val option may_panic" where
  "parse_latitude s =
     (if length s < 8 then Some None
      else do {
        d \<leftarrow> str_slice s 0 2;
        or_none (parse_f64 d) (\<lambda>deg. do {
          m \<leftarrow> str_slice s 2 7;
          or_none (parse_f64 m) (\<lambda>min.
            let hem = s ! 7
            in if float_gt deg 90 \<or> float_ge min 60 then Some None
               else (let value = float_add deg (float_div min 60)
                 in Some (if hem = CHR ''N'' then Some value
                          else if hem = CHR ''S'' then Some (float_neg value) else None)))
        })
      })"

definition parse_longitude :: "string \<Rightarrow> float_val option may_panic" where
  "parse_longitude s =
     (if length s < 9 then Some None
      else do {
        d \<leftarrow> str_slice s 0 3;
        or_none (parse_f64 d) (\<lambda>deg. do {
          m \<leftarrow> str_slice s 3 8;
          or_none (parse_f64 m) (\<lambda>min.
            let hem = s ! 8
            in if float_gt deg 180 \<or> float_ge min 60 then Some None
               else (let value = float_add deg (float_div min 60)
                 in Some (if hem = CHR ''E'' then Some value
                          else if hem = CHR ''W'' then Some (float_neg value) else None)))
        })
      })"

text \<open>The loop keeps the value below \<open>92 * 91 ^ 3\<close>, so the 32-bit arithmetic does not wrap.\<close>

fun base91_loop :: "string \<Rightarrow> nat \<Rightarrow> nat option" where
  "base91_loop [] value = Some value"
| "base91_loop (c # cs) value =
     (if 33 \<le> (of_char c :: nat) \<and> (of_char c :: nat) \<le> 124
      then base91_loop cs (value * 91 + (of_char c - 33)) else None)"

definition decode_base91_4 :: "string \<Rightarrow> nat option" where
  "decode_base91_4 chars = (if length chars < 4 then None else base91_loop (take 4 chars) 0)"

section \<open>Positions\<close>

definition try_parse_compressed :: "string \<Rightarrow> aprs_data option may_panic" where
  "try_parse_compressed s =
     (if length s < 10 then Some None
      else
        or_none (decode_base91_4 (take 4 (drop 1 s))) (\<lambda>lat_val.
        or_none (decode_base91_4 (take 4 (drop 5 s))) (\<lambda>lon_val. do {
          comment \<leftarrow> (if length s > 12 then map_option Some (str_from s 13) else Some None);
          let comment = (if comment = Some [] then None else comment);
          Some (Some (Position (Fin (90 - of_nat lat_val / 380926)) (Fin (- 180 + of_nat lon_val / 190463))
                        (s ! 0) (s ! 9) comment))
        })))"

definition parse_uncompressed_position :: "string \<Rightarrow> aprs_data may_panic" where
  "parse_uncompressed_position s =
     (if length s < 19 then Some UnknownData
      else do {
        lat_text \<leftarrow> str_slice s 0 8;
        lat \<leftarrow> parse_latitude lat_text;
        or_unknown lat (\<lambda>lat. do {
          lon_text \<leftarrow> str_slice s 9 18;
          lon \<leftarrow> parse_longitude lon_text;
          or_unknown lon (\<lambda>lon. do {
            comment \<leftarrow> (if length s > 19
              then map_option (\<lambda>c. if c = [] then None else Some c) (str_from s 19) else Some None);
            Some (Position lat lon (s ! 8) (s ! 18) comment)
          })
        })
      })"

definition maybe_compressed :: "char \<Rightarrow> bool" where
  "maybe_compressed c \<longleftrightarrow> c = CHR ''/'' \<or> c = CHR 0x5C \<or> is_ascii_uppercase c"

text \<open>The common tail of both position parsers.\<close>

definition compressed_or_not :: "string \<Rightarrow> aprs_data may_panic" where
  "compressed_or_not s =
     (if maybe_compressed (s ! 0)
      then do {
        c \<leftarrow> try_parse_compressed s;
        case c of Some result \<Rightarrow> Some result | None \<Rightarrow> parse_uncompressed_position s
      }
      else parse_uncompressed_position s)"

definition parse_position :: "string \<Rightarrow> aprs_data may_panic" where
  "parse_position pl = do {
     rest \<leftarrow> str_from pl 1;
     if rest = [] then Some UnknownData else compressed_or_not rest
   }"

definition parse_position_with_timestamp :: "string \<Rightarrow> aprs_data may_panic" where
  "parse_position_with_timestamp pl = do {
     rest \<leftarrow> str_from pl 1;
     if length rest < 7 then Some UnknownData
     else do {
       after_timestamp \<leftarrow> str_from rest 7;
       if after_timestamp = [] then Some UnknownData else compressed_or_not after_timestamp
     }
   }"

section \<open>Messages, objects, items\<close>

definition parse_message :: "string \<Rightarrow> aprs_data may_panic" where
  "parse_message pl =
     (if length pl < 11 then Some UnknownData
      else do {
        addressee_raw \<leftarrow> str_slice pl 1 10;
        if pl ! 10 \<noteq> CHR '':'' then Some UnknownData
        else do {
          text_part \<leftarrow> str_from pl 11;
          let (text, message_id) =
            (case str_rfind (\<lambda>c. c = CHR 0x7B) text_part of
               Some brace_pos \<Rightarrow>
                 (let msg_id = drop (brace_pos + 1) text_part
                  in (take brace_pos text_part, if msg_id = [] then None else Some msg_id))
             | None \<Rightarrow> (text_part, None));
          Some (Message (trim_end addressee_raw) text message_id)
        }
      })"

definition coordinates_at :: "string \<Rightarrow> (float_val \<Rightarrow> float_val \<Rightarrow> aprs_data) \<Rightarrow> aprs_data may_panic" where
  "coordinates_at pos_str result = do {
     lat_text \<leftarrow> str_slice pos_str 0 8;
     lat \<leftarrow> parse_latitude lat_text;
     or_unknown lat (\<lambda>lat. do {
       lon_text \<leftarrow> str_slice pos_str 9 18;
       lon \<leftarrow> parse_longitude lon_text;
       or_unknown lon (\<lambda>lon. Some (result lat lon))
     })
   }"

definition parse_object :: "string \<Rightarrow> aprs_data may_panic" where
  "parse_object pl =
     (if length pl < 37 then Some UnknownData
      else do {
        name \<leftarrow> str_slice pl 1 10;
        let live_kill = pl ! 10;
        if live_kill \<noteq> CHR ''*'' \<and> live_kill \<noteq> CHR ''_'' then Some UnknownData
        else if length pl < 18 + 19 then Some UnknownData
        else do {
          pos_str \<leftarrow> str_from pl 18;
          coordinates_at pos_str (Object (trim_end name) (live_kill = CHR ''*''))
        }
      })"

definition parse_item :: "string \<Rightarrow> aprs_data may_panic" where
  "parse_item pl =
     (if length pl < 4 then Some UnknownData
      else do {
        let search_end = min (length pl) 10;
        name_part \<leftarrow> str_slice pl 1 search_end;
        or_unknown (map_option (\<lambda>p. p + 1) (str_find (\<lambda>c. c = CHR ''!'' \<or> c = CHR ''_'') name_part))
          (\<lambda>separator_pos. do {
            name \<leftarrow> str_slice pl 1 separator_pos;
            pos_str \<leftarrow> str_from pl (separator_pos + 1);
            if length pos_str < 19 then Some UnknownData
            else coordinates_at pos_str (Item name (pl ! separator_pos = CHR ''!''))
          })
      })"

definition parse_aprs :: "string \<Rightarrow> aprs_data may_panic" where
  "parse_aprs pl =
     (if pl = [] then Some UnknownData
      else (let first = pl ! 0 in
        if first = CHR ''!'' \<or> first = CHR ''='' then parse_position pl
        else if first = CHR ''/'' \<or> first = CHR ''@'' then parse_position_with_timestamp pl
        else if first = CHR '':'' then parse_message pl
        else if first = CHR '';'' then parse_object pl
        else if first = CHR '')'' then parse_item pl
        else Some UnknownData))"

fun position_of :: "aprs_data \<Rightarrow> (float_val \<times> float_val) option" where
  "position_of (Position lat lon _ _ _) = Some (lat, lon)"
| "position_of (Object _ _ lat lon) = Some (lat, lon)"
| "position_of (Item _ _ lat lon) = Some (lat, lon)"
| "position_of _ = None"

definition extract_position :: "string \<Rightarrow> (float_val \<times> float_val) option may_panic" where
  "extract_position line =
     or_none (nth_opt (str_split (\<lambda>c. c = CHR '':'') line) 1) (\<lambda>pl. map_option position_of (parse_aprs pl))"

section \<open>No panic on ASCII\<close>

lemma no_panic_or_none [total_intros]:
  "(\<And>v. x = Some v \<Longrightarrow> no_panic (f v)) \<Longrightarrow> no_panic (or_none x f)"
  by (simp add: or_none_def no_panic_def split: option.split)

lemma no_panic_or_unknown [total_intros]:
  "(\<And>v. x = Some v \<Longrightarrow> no_panic (f v)) \<Longrightarrow> no_panic (or_unknown x f)"
  by (simp add: or_unknown_def no_panic_def split: option.split)

lemma no_panic_latitude [total_intros]: "all_ascii s \<Longrightarrow> no_panic (parse_latitude s)"
  unfolding parse_latitude_def by (intro total_intros; simp)

lemma no_panic_longitude [total_intros]: "all_ascii s \<Longrightarrow> no_panic (parse_longitude s)"
  unfolding parse_longitude_def by (intro total_intros; simp)

lemma no_panic_coordinates_at [total_intros]:
  "all_ascii s \<Longrightarrow> 18 \<le> length s \<Longrightarrow> no_panic (coordinates_at s result)"
  unfolding coordinates_at_def by (intro total_intros; auto dest: slice_ascii)

lemma no_panic_uncompressed [total_intros]: "all_ascii s \<Longrightarrow> no_panic (parse_uncompressed_position s)"
  unfolding parse_uncompressed_position_def by (intro total_intros; auto dest: slice_ascii)

lemma no_panic_compressed [total_intros]: "all_ascii s \<Longrightarrow> no_panic (try_parse_compressed s)"
  unfolding try_parse_compressed_def by (intro total_intros; simp)

lemma no_panic_compressed_or_not [total_intros]: "all_ascii s \<Longrightarrow> no_panic (compressed_or_not s)"
  unfolding compressed_or_not_def by (intro total_intros; simp)

lemma no_panic_position [total_intros]:
  "all_ascii pl \<Longrightarrow> 1 \<le> length pl \<Longrightarrow> no_panic (parse_position pl)"
  unfolding parse_position_def by (intro total_intros; auto dest: from_ascii)

lemma no_panic_timestamp [total_intros]:
  "all_ascii pl \<Longrightarrow> 1 \<le> length pl \<Longrightarrow> no_panic (parse_position_with_timestamp pl)"
  unfolding parse_position_with_timestamp_def by (intro total_intros; auto dest: from_ascii)

lemma no_panic_message [total_intros]: "all_ascii pl \<Longrightarrow> no_panic (parse_message pl)"
  unfolding parse_message_def by (intro total_intros; simp)

lemma no_panic_object [total_intros]: "all_ascii pl \<Longrightarrow> no_panic (parse_object pl)"
  unfolding parse_object_def by (intro total_intros; auto dest: from_ascii)

lemma no_panic_item [total_intros]: "all_ascii pl \<Longrightarrow> no_panic (parse_item pl)"
proof -
  assume a: "all_ascii pl"
  have sep: "Suc (Suc p) \<le> length pl"
    if "str_slice pl (Suc 0) (min (length pl) 10) = Some n" "str_find q n = Some p" for n q p
    using slice_ascii [OF that(1) a] str_find_Some [OF that(2)] by linarith
  show ?thesis
    unfolding parse_item_def
    by (intro total_intros a) (auto dest: sep Suc_leD [OF sep] from_ascii [OF _ a])
qed

lemma no_panic_parse_aprs: "all_ascii pl \<Longrightarrow> no_panic (parse_aprs pl)"
proof (cases pl)
  case (Cons c cs)
  then have "1 \<le> length pl" by simp
  moreover assume "all_ascii pl"
  ultimately show ?thesis unfolding parse_aprs_def by (intro total_intros; simp)
qed (simp add: parse_aprs_def no_panic_def)

section \<open>Messages read back\<close>

text \<open>A message payload as it is built: the addressee padded to nine characters.\<close>

definition message_payload :: "string \<Rightarrow> string \<Rightarrow> string" where
  "message_payload call text = '':'' @ call @ replicate (9 - length call) (CHR '' '') @ '':'' @ text"


lemma parse_message_payload:
  assumes "all_ascii call" "length call \<le> 9" "utf8_valid text"
  shows "parse_message (message_payload call text)
    = Some (Message (trim_end call)
        (case str_rfind (\<lambda>c. c = CHR 0x7B) text of Some p \<Rightarrow> take p text | None \<Rightarrow> text)
        (case str_rfind (\<lambda>c. c = CHR 0x7B) text of
           Some p \<Rightarrow> if drop (p + 1) text = [] then None else Some (drop (p + 1) text) | None \<Rightarrow> None))"
proof -
  let ?a = "call @ replicate (9 - length call) (CHR '' '')"
  have m: "message_payload call text = CHR '':'' # ?a @ CHR '':'' # text"
    by (simp add: message_payload_def)
  have l: "length ?a = 9" using assms(2) by simp
  have hd_a: "\<not> is_cont (hd ?a)"
    using assms(1) l by (cases call) (auto simp: all_ascii_def ascii_not_cont is_cont_def [of "CHR '' ''"])
  have hd_t: "text = [] \<or> \<not> is_cont (hd text)" using assms(3) by (rule utf8_valid_hd)
  have n10: "(CHR '':'' # ?a @ CHR '':'' # text) ! 10 = CHR '':''"
    using l by (simp add: nth_append numeral_eq_Suc)
  have n1: "(CHR '':'' # ?a @ CHR '':'' # text) ! 1 = hd ?a"
    using l by (cases ?a) auto
  have s1: "str_slice (CHR '':'' # ?a @ CHR '':'' # text) 1 10 = Some ?a"
    using l hd_a n10 n1 by (simp add: str_slice_def is_char_boundary_def is_cont_def [of "CHR '':''"])
  have "str_from (CHR '':'' # ?a @ CHR '':'' # text) 11 = Some text"
  proof -
    have "drop 11 (CHR '':'' # ?a @ CHR '':'' # text) = text"
      using l by (simp add: numeral_eq_Suc)
    moreover have "is_char_boundary (CHR '':'' # ?a @ CHR '':'' # text) 11"
      using hd_t l by (cases "text") (auto simp: is_char_boundary_def nth_append numeral_eq_Suc)
    ultimately show ?thesis using l by (simp add: str_from_def)
  qed
  then show ?thesis
    unfolding parse_message_def m s1 n10
    using l by (simp add: trim_end_spaces split: option.split)
qed

section \<open>Coordinates read back\<close>

lemma digit_ascii: "is_ascii_digit c \<Longrightarrow> is_ascii_char c"
  by (simp add: is_ascii_digit_def is_ascii_char_def)

lemma printed_minutes:
  assumes "round_even (m * 100) < 6000"
  shows "length (fixed2 m) = 5" "all_ascii (fixed2 m)"
    "parse_f64 (fixed2 m) = Some (Fin (of_nat (round_even (m * 100)) / 100))"
    "of_nat (round_even (m * 100)) / 100 < (60 :: rat)"
proof -
  let ?k = "round_even (m * 100)"
  have b: "?k < 10000" "?k div 100 < 100" "?k mod 100 < 100" using assms by auto
  show "length (fixed2 m) = 5" "all_ascii (fixed2 m)"
    unfolding fixed2_text [OF b(1)] show_nat0_2 [OF b(2)] show_nat0_2 [OF b(3)] using b
    by (auto simp: all_ascii_def digit_ascii is_ascii_char_def [of "CHR ''.''"])
  show "parse_f64 (fixed2 m) = Some (Fin (of_nat ?k / 100))" by (rule parse_fixed2 [OF b(1)])
  have "(of_nat ?k :: rat) < of_nat 6000" using assms by (simp only: of_nat_less_iff)
  then show "of_nat ?k / 100 < (60 :: rat)" by simp
qed

lemma parse_latitude_printed:
  assumes "d \<le> 90" "round_even (m * 100) < 6000"
  shows "parse_latitude (show_nat0 2 d @ fixed2 m @ [if north then CHR ''N'' else CHR ''S''])
    = Some (Some (Fin (let v = of_nat d + of_nat (round_even (m * 100)) / 100 / 60
                       in if north then v else - v)))"
proof -
  let ?s = "show_nat0 2 d @ fixed2 m @ [if north then CHR ''N'' else CHR ''S'']"
  note m = printed_minutes [OF assms(2)]
  have d: "show_nat0 2 d = [digit_char (d div 10), digit_char (d mod 10)]"
    using assms(1) by (intro show_nat0_2) simp
  have a: "all_ascii ?s"
    using m(2) assms(1) by (auto simp: d all_ascii_def digit_ascii is_ascii_char_def)
  have sl: "str_slice ?s 0 2 = Some (show_nat0 2 d)" "str_slice ?s 2 7 = Some (fixed2 m)"
    using a m(1) by (simp_all add: str_slice_ascii all_ascii_def d)
  have hem: "?s ! 7 = (if north then CHR ''N'' else CHR ''S'')" "length ?s = 8"
    using m(1) by (simp_all add: d nth_append)
  have pd: "parse_f64 (show_nat0 2 d) = Some (Fin (of_nat d))"
    using assms(1) by (intro parse_two_digits) simp
  show ?thesis
    unfolding parse_latitude_def hem sl
    using pd m(3,4) assms(1)
    by (simp add: or_none_def Let_def)
qed

lemma parse_longitude_printed:
  assumes "d \<le> 180" "round_even (m * 100) < 6000"
  shows "parse_longitude (show_nat0 3 d @ fixed2 m @ [if east then CHR ''E'' else CHR ''W''])
    = Some (Some (Fin (let v = of_nat d + of_nat (round_even (m * 100)) / 100 / 60
                       in if east then v else - v)))"
proof -
  let ?s = "show_nat0 3 d @ fixed2 m @ [if east then CHR ''E'' else CHR ''W'']"
  note m = printed_minutes [OF assms(2)]
  have d: "show_nat0 3 d = [digit_char (d div 100), digit_char (d div 10 mod 10), digit_char (d mod 10)]"
    using assms(1) by (intro show_nat0_3) simp
  have a: "all_ascii ?s"
    using m(2) assms(1) by (auto simp: d all_ascii_def digit_ascii is_ascii_char_def)
  have sl: "str_slice ?s 0 3 = Some (show_nat0 3 d)" "str_slice ?s 3 8 = Some (fixed2 m)"
    using a m(1) by (simp_all add: str_slice_ascii all_ascii_def d)
  have hem: "?s ! 8 = (if east then CHR ''E'' else CHR ''W'')" "length ?s = 9"
    using m(1) by (simp_all add: d nth_append)
  have pd: "parse_f64 (show_nat0 3 d) = Some (Fin (of_nat d))"
    using assms(1) by (intro parse_three_digits) simp
  show ?thesis
    unfolding parse_longitude_def hem sl
    using pd m(3,4) assms(1)
    by (simp add: or_none_def Let_def)
qed


section \<open>Texts that are no positions\<close>

text \<open>A numeral may have a sign, an exponent or be not-a-number, so the parsers accept texts that are no
  coordinates and return values far outside the globe.\<close>

lemma coordinates_accept_nonsense:
  "parse_latitude ''+9-1e99N'' = Some (Some (Fin (9 - 10 ^ 99 / 60)))
   \<and> parse_longitude ''nan00.00E'' = Some (Some NaN)
   \<and> parse_latitude ''9059.99N'' = Some (Some (Fin (90 + 5999 / 6000)))"
proof -
  have "parse_latitude ''+9-1e99N'' = Some (Some (Fin (9 + (- (10 ^ 99)) / 60)))"
    by (simp add: parse_latitude_def str_slice_def is_char_boundary_def is_cont_def or_none_def
        parse_f64_def parse_decimal_def digits_nat_def parse_exponent_def scale10_def
        is_ascii_digit_def ascii_lower_def is_ascii_uppercase_def Let_def)
  moreover have "parse_longitude ''nan00.00E'' = Some (Some NaN)"
    "parse_latitude ''9059.99N'' = Some (Some (Fin (90 + 5999 / 6000)))"
    by (simp_all add: parse_longitude_def parse_latitude_def str_slice_def is_char_boundary_def is_cont_def or_none_def
        parse_f64_def parse_decimal_def digits_nat_def
        is_ascii_digit_def ascii_lower_def is_ascii_uppercase_def Let_def)
  ultimately show ?thesis by simp
qed

text \<open>An item with a name of nine characters is not recognised, one with a name of one is.\<close>

lemma item_names:
  "parse_aprs '')ABCDEFGHI!4903.50N/07201.75W>'' = Some UnknownData"
  "\<exists>lat lon. parse_aprs '')A!4903.50N/07201.75W>'' = Some (Item ''A'' True lat lon)"
proof -
  show "parse_aprs '')ABCDEFGHI!4903.50N/07201.75W>'' = Some UnknownData" by code_simp
  show "\<exists>lat lon. parse_aprs '')A!4903.50N/07201.75W>'' = Some (Item ''A'' True lat lon)"
    by (simp add: parse_aprs_def parse_item_def coordinates_at_def parse_latitude_def parse_longitude_def
        str_slice_def str_from_def is_char_boundary_def is_cont_def or_none_def or_unknown_def
        parse_f64_def parse_decimal_def digits_nat_def is_ascii_digit_def ascii_lower_def is_ascii_uppercase_def Let_def)
qed

section \<open>Properties\<close>

text \<open>C30: The parser never panics on an ASCII payload, and neither does the extraction of a position
  from an ASCII line.\<close>

theorem parse_aprs_ascii_total:
  assumes "all_ascii s"
  shows "parse_aprs s \<noteq> None \<and> extract_position s \<noteq> None"
proof -
  have "no_panic (parse_aprs x)" if "all_ascii x" for x
    by (rule no_panic_parse_aprs [OF that])
  moreover have "all_ascii x" if "nth_opt (str_split (\<lambda>c. c = CHR '':'') s) 1 = Some x" for x
  proof -
    have "x \<in> set (str_split (\<lambda>c. c = CHR '':'') s)"
      using that by (auto simp: nth_opt_def split: if_splits)
    with str_split_subset assms show ?thesis unfolding all_ascii_def by blast
  qed
  ultimately have "no_panic (extract_position s)" "no_panic (parse_aprs s)"
    unfolding extract_position_def using assms by (auto intro!: total_intros)
  then show ?thesis by (simp add: no_panic_def)
qed

theorem parse_aprs_ascii_total_witness:
  "parse_aprs '')A!4903.50N/07201.75W-'' \<noteq> None \<and> extract_position '')A!4903.50N/07201.75W-'' \<noteq> None"
  by (rule parse_aprs_ascii_total) (simp add: all_ascii_def is_ascii_char_def)

text \<open>A message is read back as it was built: for an ASCII addressee of at most nine characters
  without trailing space, any text, and a message number without braces, the parser returns the
  addressee without its padding, the text and the number.\<close>

theorem aprs_message_roundtrip:
  assumes "all_ascii call" and "length call \<le> 9" and "trim_end call = call"
    and "utf8_valid (text @ CHR 0x7B # msgno)" and "CHR 0x7B \<notin> set msgno" and "msgno \<noteq> []"
  shows "parse_aprs (message_payload call (text @ CHR 0x7B # msgno)) = Some (Message call text (Some msgno))"
proof -
  have "parse_aprs (message_payload call (text @ CHR 0x7B # msgno)) = parse_message (message_payload call (text @ CHR 0x7B # msgno))"
    by (simp add: parse_aprs_def message_payload_def Let_def)
  then show ?thesis
    using parse_message_payload [OF assms(1,2,4)] rfind_char [OF assms(5), of "text"] assms(3,6) by simp
qed

theorem aprs_message_roundtrip_witness:
  "parse_aprs '':N0CALL-1 :hello{42'' = Some (Message ''N0CALL-1'' ''hello'' (Some ''42''))"
proof -
  have "parse_aprs (message_payload ''N0CALL-1'' (''hello'' @ CHR 0x7B # ''42'')) = Some (Message ''N0CALL-1'' ''hello'' (Some ''42''))"
  proof (rule aprs_message_roundtrip)
    show "trim_end ''N0CALL-1'' = ''N0CALL-1''" by code_simp
    show "utf8_valid (''hello'' @ CHR 0x7B # ''42'')" by (simp add: is_ascii_char_def)
  qed (simp_all add: all_ascii_def is_ascii_char_def)
  then show ?thesis by (simp add: message_payload_def)
qed

text \<open>It does panic on other payloads: whenever the addressee field of a message of at least eleven
  bytes ends inside a character.\<close>

theorem parse_message_panics:
  "11 \<le> length pl \<Longrightarrow> pl ! 0 = CHR '':'' \<Longrightarrow> is_cont (pl ! 10) \<Longrightarrow> parse_aprs pl = None"
  by (auto simp: parse_aprs_def parse_message_def str_slice_def is_char_boundary_def)

theorem parse_message_panics_witness:
  "parse_aprs ('':AAAAAAAA'' @ [CHR 0xC3, CHR 0xA9] @ ''x'') = None"
  by (rule parse_message_panics) (simp_all add: is_cont_def)

end
