(* ===== verification/Config.thy ===== *)
theory Config
  imports Parse_Aprs Vaprs_Error
begin

text \<open>
  \<open>src/config.rs\<close> and \<open>src/dprsgw.rs\<close>: the configuration records, the conversion of a
  location to APRS text, and the same conversion of D-PRS positions. Reading the file and the crates
  \<open>toml\<close> and \<open>serde\<close>, which make a configuration of its text, are parameters of \<open>config_load\<close>: a configuration is a value of
  the records below, and a location starts from a \<open>toml::Value\<close>. Numbers are the exact rationals of their texts. The
  lemmas relate what is printed here to what the parser of positions reads.
\<close>

section \<open>Records\<close>

datatype interface_type = Serial | Tcp | Ax25Iface | Agwpe | NullIface

datatype protocol = ProtoKiss | ProtoSmack | ProtoFlexnet | ProtoBpqcrc | ProtoTnc2 | ProtoDprs

record location_config =
  loc_lat :: string
  loc_lon :: string

record aprsis_config =
  ac_passcode :: int
  ac_servers :: "string list"
  ac_filter :: "string option"
  ac_heartbeat_timeout :: "nat option"

record logging_config =
  rflog :: "string option"
  aprxlog :: "string option"

record interface_config =
  ic_type :: interface_type
  ic_device :: "string option"
  ic_speed :: "u32 option"
  ic_protocol :: "protocol option"
  ic_callsign :: "string option"
  ic_host :: "string option"
  ic_port :: "u16 option"
  ic_tx_ok :: bool
  ic_telem_to_is :: bool
  ic_igate_group :: u8

definition default_true :: bool where "default_true = True"
definition default_igate_group :: u8 where "default_igate_group = 1"

datatype beacon_mode = Radio | AprsisOnly | Both

record beacon_config =
  bc_symbol :: "string option"
  bc_comment :: "string option"
  bc_cycle_size :: "string option"
  bc_mode :: "beacon_mode option"
  bc_transmitter :: "string option"
  bc_via :: "string option"

datatype relay_type = Digipeated | ThirdParty | DirectRelay

record digipeater_source_config =
  ds_source :: string
  ds_relay_type :: "relay_type option"
  ds_viscous_delay :: "u32 option"
  ds_ratelimit :: "u32 list option"
  ds_filter :: "string option"

record digipeater_config =
  dc_transmitter :: string
  dc_ratelimit :: "u32 list"
  dc_sources :: "digipeater_source_config list"

record telemetry_config =
  tc_source :: string
  tc_destination :: "string option"

definition default_web_listen :: string where "default_web_listen = ''127.0.0.1''"
definition default_web_port :: u16 where "default_web_port = 14501"

record web_config =
  wc_listen :: string
  wc_port :: u16

record config =
  cfg_mycall :: string
  cfg_location :: "location_config option"
  cfg_aprsis :: "aprsis_config option"
  cfg_logging :: "logging_config option"
  cfg_web :: "web_config option"
  cfg_interfaces :: "interface_config list"
  cfg_beacons :: "beacon_config list"
  cfg_digipeaters :: "digipeater_config list"
  cfg_telemetry :: "telemetry_config list"

text \<open>\<open>Config::load\<close>: the errors of reading and of parsing are passed on as they are.\<close>

definition config_load ::
  "(string \<Rightarrow> string + string) \<Rightarrow> (string \<Rightarrow> string + config) \<Rightarrow> string \<Rightarrow> string + config" where
  "config_load read_to_string from_str path =
     (case read_to_string path of Inl e \<Rightarrow> Inl e | Inr content \<Rightarrow> from_str content)"

section \<open>Locations\<close>

text \<open>The errors of the conversion, by their cause.\<close>

datatype location_error =
    LatitudeOutOfRange float_val
  | LongitudeOutOfRange float_val
  | InvalidLatitude string
  | InvalidLongitude string
  | InvalidLatitudeType
  | InvalidLongitudeType

datatype toml_value = TFloat float_val | TInteger int | TString string | TOther

text \<open>\<open>deg as u32\<close> of a number that is not negative: the integer part.\<close>

definition whole :: "rat \<Rightarrow> nat" where
  "whole x = nat \<lfloor>x\<rfloor>"

definition lat_text :: "rat \<Rightarrow> string" where
  "lat_text deg =
     (let hemi = (if deg \<ge> 0 then CHR ''N'' else CHR ''S'');
          deg = \<bar>deg\<bar>; d = whole deg; m = (deg - of_nat d) * 60
      in show_nat0 2 d @ fixed2 m @ [hemi])"

definition lon_text :: "rat \<Rightarrow> string" where
  "lon_text deg =
     (let hemi = (if deg \<ge> 0 then CHR ''E'' else CHR ''W'');
          deg = \<bar>deg\<bar>; d = whole deg; m = (deg - of_nat d) * 60
      in show_nat0 3 d @ fixed2 m @ [hemi])"

fun decimal_lat_to_aprs :: "float_val \<Rightarrow> location_error + string" where
  "decimal_lat_to_aprs (Fin deg) =
     (if - 90 \<le> deg \<and> deg \<le> 90 then Inr (lat_text deg) else Inl (LatitudeOutOfRange (Fin deg)))"
| "decimal_lat_to_aprs v = Inl (LatitudeOutOfRange v)"

fun decimal_lon_to_aprs :: "float_val \<Rightarrow> location_error + string" where
  "decimal_lon_to_aprs (Fin deg) =
     (if - 180 \<le> deg \<and> deg \<le> 180 then Inr (lon_text deg) else Inl (LongitudeOutOfRange (Fin deg)))"
| "decimal_lon_to_aprs v = Inl (LongitudeOutOfRange v)"

definition is_aprs_format :: "string \<Rightarrow> bool" where
  "is_aprs_format s =
     (let s = trim s
      in if length s < 6 then False
         else last s \<in> {CHR ''N'', CHR ''S'', CHR ''E'', CHR ''W''}
              \<and> list_all (\<lambda>b. is_ascii_digit b \<or> b = CHR ''.'') (butlast s))"

definition convert_lat :: "toml_value \<Rightarrow> location_error + string" where
  "convert_lat v =
     (case v of
        TFloat f \<Rightarrow> decimal_lat_to_aprs f
      | TInteger i \<Rightarrow> decimal_lat_to_aprs (Fin (of_int i))
      | TString s \<Rightarrow>
          if is_aprs_format s then Inr s
          else (case parse_f64 s of None \<Rightarrow> Inl (InvalidLatitude s) | Some f \<Rightarrow> decimal_lat_to_aprs f)
      | TOther \<Rightarrow> Inl InvalidLatitudeType)"

definition convert_lon :: "toml_value \<Rightarrow> location_error + string" where
  "convert_lon v =
     (case v of
        TFloat f \<Rightarrow> decimal_lon_to_aprs f
      | TInteger i \<Rightarrow> decimal_lon_to_aprs (Fin (of_int i))
      | TString s \<Rightarrow>
          if is_aprs_format s then Inr s
          else (case parse_f64 s of None \<Rightarrow> Inl (InvalidLongitude s) | Some f \<Rightarrow> decimal_lon_to_aprs f)
      | TOther \<Rightarrow> Inl InvalidLongitudeType)"

definition try_from_raw :: "toml_value \<Rightarrow> toml_value \<Rightarrow> location_error + location_config" where
  "try_from_raw lat lon =
     (case convert_lat lat of
        Inl e \<Rightarrow> Inl e
      | Inr la \<Rightarrow> (case convert_lon lon of Inl e \<Rightarrow> Inl e | Inr lo \<Rightarrow> Inr \<lparr>loc_lat = la, loc_lon = lo\<rparr>))"

section \<open>D-PRS\<close>

definition dprs_to_aprs :: "string \<Rightarrow> rat \<Rightarrow> rat \<Rightarrow> string \<Rightarrow> string \<Rightarrow> string \<Rightarrow> string" where
  "dprs_to_aprs callsign latitude longitude symbol_table symbol_code comment =
     (let position = ''!'' @ lat_text latitude @ symbol_table @ lon_text longitude @ symbol_code;
          dest = ''APDPRS''
      in if comment = [] then callsign @ ''>'' @ dest @ '':'' @ position
         else callsign @ ''>'' @ dest @ '':'' @ position @ comment)"

definition parse_dprs_callsign :: "string \<Rightarrow> string option may_panic" where
  "parse_dprs_callsign raw =
     (let trimmed = trim raw
      in if trimmed = [] then Some None
         else if length trimmed \<ge> 2 \<and> last trimmed \<in> {CHR ''A'', CHR ''B'', CHR ''C'', CHR ''G''}
         then (let raw_trimmed_end = trim_end raw
           in if length raw_trimmed_end \<ge> 2 \<and> raw_trimmed_end ! (length raw_trimmed_end - 2) = CHR '' ''
              then do {
                w \<leftarrow> str_to raw_trimmed_end (length raw_trimmed_end - 1);
                let without_module = trim w;
                Some (if without_module = [] then None else Some without_module)
              }
              else Some (Some trimmed))
         else Some (Some trimmed))"

definition dprs_symbol_to_aprs :: "char \<Rightarrow> char \<times> char" where
  "dprs_symbol_to_aprs symbol =
     (if symbol = CHR ''A'' then (CHR ''/'', CHR ''a'')
      else if symbol = CHR ''E'' then (CHR 0x5C, CHR ''E'')
      else if symbol = CHR ''H'' then (CHR ''/'', CHR ''h'')
      else if symbol = CHR ''I'' then (CHR ''/'', CHR ''>'')
      else if symbol = CHR ''J'' then (CHR ''/'', CHR ''j'')
      else if symbol = CHR ''O'' then (CHR ''/'', CHR ''O'')
      else if symbol = CHR ''R'' then (CHR ''/'', CHR ''R'')
      else if symbol = CHR ''S'' then (CHR ''/'', CHR ''s'')
      else if symbol = CHR ''T'' then (CHR ''/'', CHR ''T'')
      else if symbol = CHR ''V'' then (CHR ''/'', CHR ''v'')
      else if symbol = CHR ''Y'' then (CHR ''/'', CHR ''Y'')
      else if symbol = CHR ''>'' then (CHR ''/'', CHR ''>'')
      else (CHR ''/'', CHR ''/''))"

section \<open>Printed coordinates read back\<close>

lemma whole_bounds: "0 \<le> x \<Longrightarrow> of_nat (whole x) \<le> x \<and> x < of_nat (whole x) + 1"
proof -
  assume "0 \<le> x"
  then have "of_nat (whole x) = (of_int \<lfloor>x\<rfloor> :: rat)" by (simp add: whole_def)
  then show ?thesis using floor_correct [of x] by simp
qed

text \<open>The hundredths of a minute a coordinate is printed with.\<close>

definition minutes_of :: "rat \<Rightarrow> nat" where
  "minutes_of deg = round_even ((\<bar>deg\<bar> - of_nat (whole \<bar>deg\<bar>)) * 60 * 100)"

lemma printed_close:
  fixes deg :: rat
  shows "\<bar>of_nat (whole \<bar>deg\<bar>) + of_nat (minutes_of deg) / 100 / 60 - \<bar>deg\<bar>\<bar> \<le> 1 / 12000"
proof -
  let ?x = "(\<bar>deg\<bar> - of_nat (whole \<bar>deg\<bar>)) * 60 * 100"
  have "0 \<le> ?x" using whole_bounds [of "\<bar>deg\<bar>"] by simp
  from round_even_close [OF this]
  have "\<bar>of_nat (minutes_of deg) - ?x\<bar> \<le> 1 / 2" by (simp only: minutes_of_def)
  then show ?thesis by (simp add: abs_le_iff field_simps)
qed

lemma signed_close: "\<bar>v - \<bar>deg\<bar>\<bar> \<le> e \<Longrightarrow> \<bar>(if deg \<ge> 0 then v else - v) - deg\<bar> \<le> e" for deg :: rat
  by (auto simp: abs_if split: if_splits)

lemma whole_le: "\<bar>deg\<bar> \<le> of_nat n \<Longrightarrow> whole \<bar>deg\<bar> \<le> n" for deg :: rat
proof -
  assume "\<bar>deg\<bar> \<le> of_nat n"
  then have "(of_nat (whole \<bar>deg\<bar>) :: rat) \<le> of_nat n" using whole_bounds [of "\<bar>deg\<bar>"] by linarith
  then show ?thesis by (simp only: of_nat_le_iff)
qed

lemma lat_text_parses:
  assumes "\<bar>deg\<bar> \<le> 90" "minutes_of deg < 6000"
  shows "\<exists>v. parse_latitude (lat_text deg) = Some (Some (Fin v)) \<and> \<bar>v - deg\<bar> \<le> 1 / 12000"
proof -
  let ?v = "of_nat (whole \<bar>deg\<bar>) + of_nat (minutes_of deg) / 100 / 60 :: rat"
  have "whole \<bar>deg\<bar> \<le> 90" using whole_le [of deg 90] assms(1) by simp
  then have "parse_latitude (lat_text deg) = Some (Some (Fin (if deg \<ge> 0 then ?v else - ?v)))"
    using parse_latitude_printed [of "whole \<bar>deg\<bar>" "(\<bar>deg\<bar> - of_nat (whole \<bar>deg\<bar>)) * 60" "deg \<ge> 0"] assms(2)
    by (simp add: lat_text_def Let_def minutes_of_def)
  moreover have "\<bar>(if deg \<ge> 0 then ?v else - ?v) - deg\<bar> \<le> 1 / 12000"
    by (rule signed_close [OF printed_close])
  ultimately show ?thesis by blast
qed

lemma lon_text_parses:
  assumes "\<bar>deg\<bar> \<le> 180" "minutes_of deg < 6000"
  shows "\<exists>v. parse_longitude (lon_text deg) = Some (Some (Fin v)) \<and> \<bar>v - deg\<bar> \<le> 1 / 12000"
proof -
  let ?v = "of_nat (whole \<bar>deg\<bar>) + of_nat (minutes_of deg) / 100 / 60 :: rat"
  have "whole \<bar>deg\<bar> \<le> 180" using whole_le [of deg 180] assms(1) by simp
  then have "parse_longitude (lon_text deg) = Some (Some (Fin (if deg \<ge> 0 then ?v else - ?v)))"
    using parse_longitude_printed [of "whole \<bar>deg\<bar>" "(\<bar>deg\<bar> - of_nat (whole \<bar>deg\<bar>)) * 60" "deg \<ge> 0"] assms(2)
    by (simp add: lon_text_def Let_def minutes_of_def)
  moreover have "\<bar>(if deg \<ge> 0 then ?v else - ?v) - deg\<bar> \<le> 1 / 12000"
    by (rule signed_close [OF printed_close])
  ultimately show ?thesis by blast
qed


text \<open>The characters of a printed coordinate.\<close>

definition coord_text :: "string \<Rightarrow> bool" where
  "coord_text s \<longleftrightarrow> all_ascii s \<and> CHR '':'' \<notin> set s \<and> s \<noteq> [] \<and> is_ascii_digit (hd s)"

lemma digit_no_colon: "is_ascii_digit c \<Longrightarrow> c \<noteq> CHR '':''"
  by (auto simp: is_ascii_digit_def)

lemma printed_text:
  assumes "k < 10000" "round_even (m * 100) = k"
  shows "length (fixed2 m) = 5" "all_ascii (fixed2 m)" "CHR '':'' \<notin> set (fixed2 m)"
proof -
  have b: "k div 100 < 100" "k mod 100 < 100" using assms(1) by auto
  have "fixed2 m = show_nat0 2 (k div 100) @ CHR ''.'' # show_nat0 2 (k mod 100)"
    using fixed2_text [of m] assms by simp
  then have f: "fixed2 m = [digit_char (k div 100 div 10), digit_char (k div 100 mod 10), CHR ''.'',
      digit_char (k mod 100 div 10), digit_char (k mod 100 mod 10)]"
    by (simp only: show_nat0_2 [OF b(1)] show_nat0_2 [OF b(2)] append.simps)
  have d: "is_ascii_digit (digit_char (k div 100 div 10))" "is_ascii_digit (digit_char (k div 100 mod 10))"
    "is_ascii_digit (digit_char (k mod 100 div 10))" "is_ascii_digit (digit_char (k mod 100 mod 10))"
    using b by auto
  show "length (fixed2 m) = 5" by (simp add: f)
  show "all_ascii (fixed2 m)"
    using d digit_ascii unfolding f all_ascii_def by (simp add: is_ascii_char_def [of "CHR ''.''"])
  show "CHR '':'' \<notin> set (fixed2 m)"
    using d digit_no_colon [OF d(1)] digit_no_colon [OF d(2)] digit_no_colon [OF d(3)] digit_no_colon [OF d(4)]
    unfolding f by auto
qed

lemma hemis: "is_ascii_char (CHR ''N'')" "is_ascii_char (CHR ''S'')" "is_ascii_char (CHR ''E'')" "is_ascii_char (CHR ''W'')"
  by (simp_all add: is_ascii_char_def)

lemma lat_text_shape:
  assumes "minutes_of deg < 6000" "\<bar>deg\<bar> \<le> 90"
  shows "length (lat_text deg) = 8 \<and> coord_text (lat_text deg)"
proof -
  have k: "minutes_of deg < 10000" using assms(1) by simp
  have w: "whole \<bar>deg\<bar> < 100" using whole_le [of deg 90] assms(2) by simp
  have d: "is_ascii_digit (digit_char (whole \<bar>deg\<bar> div 10))" "is_ascii_digit (digit_char (whole \<bar>deg\<bar> mod 10))"
    using w by auto
  show ?thesis
    using printed_text [OF k minutes_of_def [symmetric]] d digit_no_colon [OF d(1)] digit_no_colon [OF d(2)]
      digit_ascii [OF d(1)] digit_ascii [OF d(2)]
    by (auto simp: lat_text_def Let_def show_nat0_2 [OF w] coord_text_def all_ascii_def
        hemis)
qed

lemma lon_text_shape:
  assumes "minutes_of deg < 6000" "\<bar>deg\<bar> \<le> 180"
  shows "length (lon_text deg) = 9 \<and> coord_text (lon_text deg)"
proof -
  have k: "minutes_of deg < 10000" using assms(1) by simp
  have w: "whole \<bar>deg\<bar> < 1000" using whole_le [of deg 180] assms(2) by simp
  have d: "is_ascii_digit (digit_char (whole \<bar>deg\<bar> div 100))" "is_ascii_digit (digit_char (whole \<bar>deg\<bar> div 10 mod 10))"
    "is_ascii_digit (digit_char (whole \<bar>deg\<bar> mod 10))"
    using w by auto
  show ?thesis
    using printed_text [OF k minutes_of_def [symmetric]] d digit_no_colon [OF d(1)] digit_no_colon [OF d(2)] digit_no_colon [OF d(3)]
      digit_ascii [OF d(1)] digit_ascii [OF d(2)] digit_ascii [OF d(3)]
    by (auto simp: lon_text_def Let_def show_nat0_3 [OF w] coord_text_def all_ascii_def
        hemis)
qed

lemma ascii_starts_char: "all_ascii s \<Longrightarrow> s \<noteq> [] \<Longrightarrow> starts_char (s @ t)"
  by (cases s) (auto simp: all_ascii_def starts_char_def ascii_not_cont)

lemma parse_uncompressed_parts:
  assumes "length la = 8" "all_ascii la" "parse_latitude la = Some (Some v)"
    and "length lo = 9" "all_ascii lo" "parse_longitude lo = Some (Some w)"
    and "is_ascii_char t" "is_ascii_char c" "starts_char comment"
  shows "parse_uncompressed_position (la @ t # lo @ c # comment)
    = Some (Position v w t c (if comment = [] then None else Some comment))"
proof -
  let ?s = "la @ t # lo @ c # comment"
  have tc: "starts_char (t # x)" "starts_char (c # x)" for x
    using assms(7,8) by (simp_all add: starts_char_def ascii_not_cont)
  have s: "str_slice ?s 0 8 = Some la"
    using str_slice_mid [of la "t # lo @ c # comment" "[]"] assms(1,2) tc ascii_starts_char [of la "t # lo @ c # comment"]
    by (cases la) simp_all
  have "lo \<noteq> []" using assms(4) by auto
  then have "starts_char (lo @ c # comment)" using assms(5) by (rule ascii_starts_char [rotated])
  then have "str_slice ((la @ [t]) @ lo @ c # comment) (length (la @ [t])) (length (la @ [t]) + length lo) = Some lo"
    using tc(2) by (rule str_slice_mid)
  then have l: "str_slice ?s 9 18 = Some lo" using assms(1,4) by simp
  have "str_from ((la @ t # lo @ [c]) @ comment) (length (la @ t # lo @ [c])) = Some comment"
    by (rule str_from_mid [OF assms(9)])
  then have f: "str_from ?s 19 = Some comment" using assms(1,4) by simp
  have n: "?s ! 8 = t" "?s ! 18 = c" "length ?s = 19 + length comment"
    using assms(1,4) by (simp_all add: nth_append)
  show ?thesis
    unfolding parse_uncompressed_position_def s l f n
    using assms(3,6) by (simp add: or_unknown_def)
qed

text \<open>A number whose minutes round to sixty is printed as a text the parser refuses.\<close>

lemma minutes_round_to_sixty:
  "decimal_lat_to_aprs (Fin (3399999 / 100000)) = Inr ''3360.00N'' \<and> parse_latitude ''3360.00N'' = Some None"
proof -
  have "\<lfloor>3399999 / 100000 :: rat\<rfloor> = 33" "\<lfloor>299997 / 50 :: rat\<rfloor> = 5999" by (simp_all add: floor_eq_iff)
  then have "whole (3399999 / 100000) = 33" "round_even (299997 / 50) = 6000"
    by (simp_all add: whole_def round_even_def)
  then have "decimal_lat_to_aprs (Fin (3399999 / 100000)) = Inr ''3360.00N''"
    by (simp add: lat_text_def fixed2_text show_nat0_2)
  moreover have "parse_latitude ''3360.00N'' = Some None"
    by (simp add: parse_latitude_def str_slice_def is_char_boundary_def is_cont_def or_none_def
        parse_f64_def parse_decimal_def digits_nat_def
        is_ascii_digit_def ascii_lower_def is_ascii_uppercase_def Let_def)
  ultimately show ?thesis ..
qed

lemma minutes_examples: "minutes_of (99 / 2) = 3000" "minutes_of (- 72) = 0"
proof -
  have "\<lfloor>99 / 2 :: rat\<rfloor> = 49" by (simp add: floor_eq_iff)
  then show "minutes_of (99 / 2) = 3000" "minutes_of (- 72) = 0"
    by (simp_all add: minutes_of_def whole_def round_even_def)
qed

section \<open>Properties\<close>



text \<open>The line a D-PRS position is gated as is read back as that position: the extraction of a
  position returns the coordinates to within half a hundredth of a minute.\<close>

theorem dprs_position_roundtrip:
  assumes "\<bar>lat\<bar> \<le> 90" and "\<bar>lon\<bar> \<le> 180" and "minutes_of lat < 6000" and "minutes_of lon < 6000"
    and "is_ascii_char t" and "is_ascii_char c" and "CHR '':'' \<notin> {t, c} \<union> set call \<union> set comment"
    and "starts_char comment"
  shows "\<exists>v w. extract_position (dprs_to_aprs call lat lon [t] [c] comment) = Some (Some (Fin v, Fin w))
    \<and> \<bar>v - lat\<bar> \<le> 1 / 12000 \<and> \<bar>w - lon\<bar> \<le> 1 / 12000"
proof -
  let ?la = "lat_text lat" and ?lo = "lon_text lon"
  let ?pl = "CHR ''!'' # ?la @ t # ?lo @ c # comment"
  obtain v where v: "parse_latitude ?la = Some (Some (Fin v))" "\<bar>v - lat\<bar> \<le> 1 / 12000"
    using lat_text_parses [OF assms(1,3)] by blast
  obtain w where w: "parse_longitude ?lo = Some (Some (Fin w))" "\<bar>w - lon\<bar> \<le> 1 / 12000"
    using lon_text_parses [OF assms(2,4)] by blast
  note la = lat_text_shape [OF assms(3,1)] and lo = lon_text_shape [OF assms(4,2)]
  have nc: "CHR '':'' \<notin> set (call @ ''>APDPRS'')" "CHR '':'' \<notin> set ?pl"
    using assms(7) la lo by (auto simp: coord_text_def)
  have "nth_opt (str_split (\<lambda>c. c = CHR '':'') ((call @ ''>APDPRS'') @ CHR '':'' # ?pl)) 1 = Some ?pl"
    unfolding split_char(2) [OF nc(1)] split_char(1) [OF nc(2)] by simp
  then have s: "nth_opt (str_split (\<lambda>c. c = CHR '':'') (dprs_to_aprs call lat lon [t] [c] comment)) 1 = Some ?pl"
    by (cases "comment = []") (simp_all add: dprs_to_aprs_def Let_def)
  have rest: "str_from ?pl 1 = Some (?la @ t # ?lo @ c # comment)"
    using la ascii_starts_char [of ?la "t # ?lo @ c # comment"]
      str_from_mid [of "?la @ t # ?lo @ c # comment" "''!''"] by (simp add: coord_text_def)
  have "\<not> maybe_compressed ((?la @ t # ?lo @ c # comment) ! 0)"
    using la by (cases ?la) (auto simp: coord_text_def maybe_compressed_def is_ascii_digit_def is_ascii_uppercase_def)
  then have "parse_aprs ?pl = parse_uncompressed_position (?la @ t # ?lo @ c # comment)"
    using rest by (simp add: parse_aprs_def parse_position_def compressed_or_not_def)
  also have "\<dots> = Some (Position (Fin v) (Fin w) t c (if comment = [] then None else Some comment))"
    using la lo v(1) w(1) assms(5,6,8) by (intro parse_uncompressed_parts) (simp_all add: coord_text_def)
  finally have "extract_position (dprs_to_aprs call lat lon [t] [c] comment) = Some (Some (Fin v, Fin w))"
    unfolding extract_position_def s or_none_def by simp
  then show ?thesis using v(2) w(2) by blast
qed

theorem dprs_position_roundtrip_witness:
  "\<exists>v w. extract_position (dprs_to_aprs ''N0CALL'' (99 / 2) (- 72) ''/'' ''>'' ''hi'') = Some (Some (Fin v, Fin w))
     \<and> \<bar>v - 99 / 2\<bar> \<le> 1 / 12000 \<and> \<bar>w - (- 72)\<bar> \<le> 1 / 12000"
  by (rule dprs_position_roundtrip)
    (simp_all add: minutes_examples is_ascii_char_def starts_char_def is_cont_def)

end
