(* ===== verification/Logging.thy ===== *)
theory Logging
  imports Config "HOL-Library.Product_Lexorder"
begin

text \<open>
  \<open>src/logging.rs\<close>: where the log goes, and the RF log line with its date arithmetic. What \<open>init_logging\<close> asks of the crate
  \<open>tracing\<close> is a record of the filter, the writer and the colours; a file is a directory and a name, cut from its path
  as \<open>std::path\<close> does. The system time is an argument, in milliseconds since the epoch. The lemmas say when
  a file is written and show that the arithmetic of \<open>days_to_ymd\<close> walks through the Gregorian calendar day by day.
\<close>

section \<open>The destination of the log\<close>

text \<open>\<open>Path::components\<close>, \<open>parent\<close> and \<open>file_name\<close> on Unix. A path is given by its components, as they are compared.\<close>

datatype path_component = PathRoot | PathHere | PathUp | PathName string

definition path_components :: "string \<Rightarrow> path_component list" where
  "path_components s =
     (let pieces = str_split (\<lambda>c. c = CHR ''/'') s;
          names = map (\<lambda>p. if p = ''..'' then PathUp else PathName p) (filter (\<lambda>p. p \<noteq> [] \<and> p \<noteq> ''.'') pieces)
      in if starts_with s ''/'' then PathRoot # names
         else if hd pieces = ''.'' then PathHere # names else names)"

definition path_parent :: "string \<Rightarrow> path_component list option" where
  "path_parent s =
     (let cs = path_components s
      in if cs = [] \<or> last cs = PathRoot then None else Some (butlast cs))"

definition path_file_name :: "string \<Rightarrow> string option" where
  "path_file_name s =
     (let cs = path_components s
      in if cs = [] then None else (case last cs of PathName n \<Rightarrow> Some n | _ \<Rightarrow> None))"

datatype log_writer = ToStderr | ToFile "path_component list" string

record log_setup =
  ls_filter :: string
  ls_writer :: log_writer
  ls_ansi :: bool

text \<open>\<open>set_global_default\<close> keeps the subscriber that is set first.\<close>

definition set_global_default :: "log_setup \<Rightarrow> log_setup option \<Rightarrow> log_setup option" where
  "set_global_default setup current = (case current of None \<Rightarrow> Some setup | Some s \<Rightarrow> Some s)"

text \<open>The result is the subscriber that is set and the guards, one for a file.\<close>

definition init_logging :: "config \<Rightarrow> u8 \<Rightarrow> bool \<Rightarrow> log_setup option \<Rightarrow> log_setup option \<times> log_writer list" where
  "init_logging cfg debug_level foreground current =
     (let level = (if debug_level = 0 then ''info'' else if debug_level = 1 then ''debug'' else ''trace'')
      in if foreground
         then (set_global_default \<lparr>ls_filter = level, ls_writer = ToStderr, ls_ansi = True\<rparr> current, [])
         else (case cfg_logging cfg of
                 Some logging \<Rightarrow>
                   (case aprxlog logging of
                      Some aprxlog_path \<Rightarrow>
                        (let file_appender = ToFile (unwrap_or (path_parent aprxlog_path) (path_components ''.''))
                                                    (unwrap_or (path_file_name aprxlog_path) ''vaprs.log'')
                         in (set_global_default \<lparr>ls_filter = level, ls_writer = file_appender, ls_ansi = False\<rparr> current,
                             [file_appender]))
                    | None \<Rightarrow> (set_global_default \<lparr>ls_filter = level, ls_writer = ToStderr, ls_ansi = False\<rparr> current, []))
               | None \<Rightarrow> (set_global_default \<lparr>ls_filter = level, ls_writer = ToStderr, ls_ansi = False\<rparr> current, [])))"

text \<open>A file is written exactly where one is configured and the daemon is not in the foreground; a path with a name in it
  is the directory and the name, and the one to the RF log is not used at all.\<close>

lemma log_file_iff:
  "snd (init_logging cfg debug_level foreground current) \<noteq> []
     \<longleftrightarrow> \<not> foreground \<and> (\<exists>logging path. cfg_logging cfg = Some logging \<and> aprxlog logging = Some path)"
  by (auto simp: init_logging_def Let_def split: option.split)

lemma path_split:
  assumes "path_file_name s = Some n"
  shows "\<exists>dir. path_parent s = Some dir \<and> path_components s = dir @ [PathName n]"
proof -
  have "path_components s \<noteq> []" "last (path_components s) = PathName n"
    using assms by (auto simp: path_file_name_def Let_def split: if_splits path_component.splits)
  moreover from this have "path_components s = butlast (path_components s) @ [PathName n]" by (metis append_butlast_last_id)
  ultimately show ?thesis by (intro exI [of _ "butlast (path_components s)"]) (simp add: path_parent_def Let_def)
qed

lemma rflog_not_used:
  assumes "cfg_logging cfg = Some \<lparr>rflog = r, aprxlog = a\<rparr>"
  shows "init_logging (cfg\<lparr>cfg_logging := Some \<lparr>rflog = r', aprxlog = a\<rparr>\<rparr>) debug_level foreground current
    = init_logging cfg debug_level foreground current"
  using assms by (simp add: init_logging_def Let_def split: option.split)

section \<open>The RF log\<close>

definition days_to_ymd :: "nat \<Rightarrow> nat \<times> nat \<times> nat" where
  "days_to_ymd days =
     (let z = days + 719468;
          era = z div 146097;
          doe = z - era * 146097;
          yoe = (doe - doe div 1460 + doe div 36524 - doe div 146096) div 365;
          y = yoe + era * 400;
          doy = doe - (365 * yoe + yoe div 4 - yoe div 100);
          mp = (5 * doy + 2) div 153;
          d = doy - (153 * mp + 2) div 5 + 1;
          m = (if mp < 10 then mp + 3 else mp - 9);
          y = (if m \<le> 2 then y + 1 else y)
      in (y, m, d))"

definition format_rf_log_entry :: "nat \<Rightarrow> string \<Rightarrow> string \<Rightarrow> string \<Rightarrow> string" where
  "format_rf_log_entry now_millis interface direction line =
     (let secs = now_millis div 1000; millis = now_millis mod 1000;
          days = secs div 86400; time_of_day = secs mod 86400;
          hours = time_of_day div 3600; minutes = time_of_day mod 3600 div 60;
          seconds = time_of_day mod 60;
          (year, month, day) = days_to_ymd days
      in show_nat0 4 year @ ''-'' @ show_nat0 2 month @ ''-'' @ show_nat0 2 day @ '' ''
         @ show_nat0 2 hours @ '':'' @ show_nat0 2 minutes @ '':'' @ show_nat0 2 seconds @ ''.''
         @ show_nat0 3 millis @ '' '' @ interface @ '' '' @ direction @ '' '' @ line)"

section \<open>The calendar\<close>

definition leap :: "nat \<Rightarrow> bool" where
  "leap y \<longleftrightarrow> y mod 4 = 0 \<and> (y mod 100 \<noteq> 0 \<or> y mod 400 = 0)"

definition month_days :: "nat \<Rightarrow> nat \<Rightarrow> nat" where
  "month_days y m =
     (if m = 2 then (if leap y then 29 else 28) else if m \<in> {4, 6, 9, 11} then 30 else 31)"

definition next_date :: "nat \<times> nat \<times> nat \<Rightarrow> nat \<times> nat \<times> nat" where
  "next_date ymd =
     (case ymd of (y, m, d) \<Rightarrow>
        if d < month_days y m then (y, m, d + 1)
        else if m = 12 then (y + 1, 1, 1) else (y, m + 1, 1))"

section \<open>The year within an era\<close>

text \<open>Years here start in March: the year \<open>y\<close> ends with the February of \<open>y + 1\<close>.\<close>

definition year_of :: "nat \<Rightarrow> nat" where
  "year_of doe = (doe - doe div 1460 + doe div 36524 - doe div 146096) div 365"

definition year_start :: "nat \<Rightarrow> nat" where
  "year_start y = 365 * y + y div 4 - y div 100"

definition year_len :: "nat \<Rightarrow> nat" where
  "year_len y = (if leap (y + 1) then 366 else 365)"

text \<open>Quarters and centuries of a year, for linear arithmetic.\<close>

lemma quarter_facts:
  fixes y :: nat
  obtains a c where "a = y div 4" "c = y div 100" "4 * a \<le> y" "y < 4 * a + 4" "100 * c \<le> y" "y < 100 * c + 100"
    "25 * c \<le> a" "a \<le> 25 * c + 24"
proof -
  have "y div 4 div 25 = y div 100" by (simp add: div_mult2_eq [symmetric])
  then show ?thesis using that [of "y div 4" "y div 100"] by linarith
qed

lemma year_of_start:
  assumes "y < 400"
  shows "year_of (year_start y) = y"
proof -
  obtain a c where q: "a = y div 4" "c = y div 100" "4 * a \<le> y" "y < 4 * a + 4" "100 * c \<le> y" "y < 100 * c + 100"
    "25 * c \<le> a" "a \<le> 25 * c + 24" by (rule quarter_facts)
  define s where "s = 365 * y + a - c"
  have "s div 1460 = a" "s div 36524 = c" "s div 146096 = 0"
    using q(3-8) assms by (intro div_nat_eqI; simp add: s_def)+
  moreover have "year_start y = s" by (simp add: year_start_def s_def q(1,2))
  ultimately have "year_of (year_start y) = (s - a + c - 0) div 365" unfolding year_of_def by simp
  also have "s - a + c - 0 = 365 * y" using q(3-8) by (simp add: s_def)
  finally show ?thesis by simp
qed

lemma leap_facts: "leap (Suc y) \<Longrightarrow> y < 399 \<Longrightarrow> \<exists>a. y = 4 * a + 3 \<and> (\<forall>c. y \<noteq> 100 * c + 99)"
proof -
  assume l: "leap (Suc y)" and y: "y < 399"
  then have "Suc y mod 4 = 0" "Suc y mod 100 \<noteq> 0" by (auto simp: leap_def)
  then obtain b where b: "Suc y = 4 * b" and c: "\<not> 100 dvd Suc y" by (auto simp: mod_eq_0_iff_dvd)
  then obtain a where "b = Suc a" by (cases b) auto
  then have "y = 4 * a + 3" using b by simp
  moreover have "y \<noteq> 100 * k + 99" for k
  proof
    assume "y = 100 * k + 99"
    then have "Suc y = 100 * Suc k" by simp
    with c show False by (metis dvd_triv_left)
  qed
  ultimately show ?thesis by blast
qed

lemma year_of_end:
  assumes "y < 400"
  shows "year_of (year_start y + year_len y - 1) \<le> y"
proof -
  obtain a c where q: "a = y div 4" "c = y div 100" "4 * a \<le> y" "y < 4 * a + 4" "100 * c \<le> y" "y < 100 * c + 100"
    "25 * c \<le> a" "a \<le> 25 * c + 24" by (rule quarter_facts)
  define e where "e = year_start y + year_len y - 1"
  have bound: "year_of e \<le> y" if "p \<le> e div 1460" "e div 36524 \<le> c'" "e + c' < 365 * Suc y + p" for p c'
  proof -
    have "e - e div 1460 + e div 36524 - e div 146096 < 365 * Suc y"
    proof -
      have "e div 1460 \<le> e" by simp
      then have "e - e div 1460 + e div 36524 < 365 * Suc y" using that by linarith
      then show ?thesis by simp
    qed
    then have "year_of e < Suc y" unfolding year_of_def by (simp add: div_less_iff_less_mult mult.commute)
    then show ?thesis by simp
  qed
  consider "y = 399" | "leap (Suc y)" "y < 399" | "\<not> leap (Suc y)" "y < 399" using assms by linarith
  then have "year_of e \<le> y"
  proof cases
    case 1
    then have "e = 146096" by (simp add: e_def year_start_def year_len_def leap_def)
    then show ?thesis by (simp add: year_of_def 1)
  next
    case 2
    from leap_facts [OF this] obtain a' where a': "y = 4 * a' + 3" "y \<noteq> 100 * c + 99" by blast
    then have a: "y = 4 * a + 3" using q by simp
    have "year_start y = 365 * y + a - c" "year_len y = 366" using 2 q by (simp_all add: year_start_def year_len_def)
    then have e: "e = 365 * y + 365 + a - c" using q(7,8) unfolding e_def by linarith
    have "a + 1 \<le> e div 1460" using q(3-8) a by (simp add: e less_eq_div_iff_mult_less_eq)
    moreover have "e div 36524 \<le> c"
    proof -
      have "e < 36524 * Suc c" using q(3-8) a'(2) by (simp add: e)
      then have "e div 36524 < Suc c" by (simp add: div_less_iff_less_mult mult.commute)
      then show ?thesis by simp
    qed
    ultimately show ?thesis using q(3-8) by (intro bound [of "a + 1" c]) (simp_all add: e)
  next
    case 3
    have "year_start y = 365 * y + a - c" "year_len y = 365" using 3 q by (simp_all add: year_start_def year_len_def)
    then have e: "e = 365 * y + 364 + a - c" using q(7,8) unfolding e_def by linarith
    have "a \<le> e div 1460" using q(3-8) by (simp add: e less_eq_div_iff_mult_less_eq)
    moreover have "e div 36524 \<le> c"
    proof -
      have "e < 36524 * Suc c" using q(3-8) by (simp add: e)
      then have "e div 36524 < Suc c" by (simp add: div_less_iff_less_mult mult.commute)
      then show ?thesis by simp
    qed
    ultimately show ?thesis using q(3-8) by (intro bound [of a c]) (simp_all add: e)
  qed
  then show ?thesis by (simp add: e_def)
qed

lemma year_next:
  assumes "y < 399"
  shows "year_start y + year_len y = year_start (Suc y)"
proof -
  define p where "p = y div 4"
  define q where "q = y div 100"
  have pq: "q \<le> p" unfolding p_def q_def by (rule div_le_mono2) auto
  have m: "Suc y mod 400 \<noteq> 0" using assms by simp
  have p': "Suc y div 4 = (if Suc y mod 4 = 0 then Suc p else p)"
    and q': "Suc y div 100 = (if Suc y mod 100 = 0 then Suc q else q)"
    by (simp_all add: div_Suc p_def q_def)
  have imp: "Suc y mod 100 = 0 \<Longrightarrow> Suc y mod 4 = 0"
  proof -
    assume "Suc y mod 100 = 0"
    then have "100 dvd Suc y" by (rule mod_0_imp_dvd)
    then have "4 dvd Suc y" by (rule dvd_trans [rotated]) simp
    then show ?thesis by (rule dvd_imp_mod_0)
  qed
  have len: "year_len y = (if Suc y mod 4 = 0 \<and> Suc y mod 100 \<noteq> 0 then 366 else 365)"
    using m by (simp add: year_len_def leap_def)
  show ?thesis
    unfolding year_start_def p' q' len p_def [symmetric] q_def [symmetric]
    using pq imp by (cases "Suc y mod 4 = 0"; cases "Suc y mod 100 = 0") simp_all
qed

lemma year_of_step:
  assumes "Suc n < 146097"
  shows "year_of n \<le> year_of (Suc n)"
proof -
  have arith: "q' \<le> Suc q \<Longrightarrow> r \<le> r' \<Longrightarrow> q \<le> n \<Longrightarrow> n - q + r \<le> Suc n - q' + r'" for q q' r r' :: nat
    by simp
  have z: "n div 146096 = 0" using assms by simp
  have "n - n div 1460 + n div 36524 \<le> Suc n - Suc n div 1460 + Suc n div 36524 - Suc n div 146096"
  proof (cases "Suc n = 146096")
    case True
    then have "n = 146095" by simp
    then show ?thesis by simp
  next
    case False
    then have "Suc n div 146096 = 0" using assms by simp
    moreover have "n - n div 1460 + n div 36524 \<le> Suc n - Suc n div 1460 + Suc n div 36524"
      by (rule arith) (simp_all only: div_Suc div_le_dividend, auto)
    ultimately show ?thesis by simp
  qed
  then show ?thesis unfolding year_of_def z by (intro div_le_mono) simp
qed

lemma year_of_mono: "a \<le> b \<Longrightarrow> b < 146097 \<Longrightarrow> year_of a \<le> year_of b"
proof (induction b)
  case (Suc b)
  then show ?case using year_of_step [of b] by (cases "a = Suc b") auto
qed simp

lemma year_exists: "doe < 146097 \<Longrightarrow> \<exists>y<400. year_start y \<le> doe \<and> doe < year_start y + year_len y"
proof (induction doe)
  case 0
  show ?case by (intro exI [of _ 0]) (simp add: year_start_def year_len_def)
next
  case (Suc doe)
  then obtain y where y: "y < 400" "year_start y \<le> doe" "doe < year_start y + year_len y" by auto
  show ?case
  proof (cases "Suc doe < year_start y + year_len y")
    case True
    with y show ?thesis by auto
  next
    case False
    then have e: "Suc doe = year_start y + year_len y" using y by simp
    have "y \<noteq> 399"
    proof
      assume "y = 399"
      with e Suc.prems show False by (simp add: year_start_def year_len_def leap_def)
    qed
    then have "y \<noteq> 399" "year_start (Suc y) = Suc doe" using e year_next [of y] y(1) by auto
    moreover have "0 < year_len (Suc y)" by (simp add: year_len_def)
    ultimately show ?thesis using y(1) by (intro exI [of _ "Suc y"]) simp
  qed
qed

lemma year_end_bound: "y < 400 \<Longrightarrow> year_start y + year_len y \<le> 146097"
proof (induction "399 - y" arbitrary: y)
  case 0
  then have "y = 399" by simp
  then show ?case by (simp add: year_start_def year_len_def leap_def)
next
  case (Suc k)
  then have "y < 399" "k = 399 - Suc y" by auto
  with Suc.hyps(1) [of "Suc y"] year_next [of y] show ?case by simp
qed

lemma year_of_unique:
  assumes "y < 400" "year_start y \<le> doe" "doe < year_start y + year_len y"
  shows "year_of doe = y"
proof -
  have "year_of (year_start y) \<le> year_of doe" "year_of doe \<le> year_of (year_start y + year_len y - 1)"
    using assms year_end_bound [OF assms(1)] by (auto intro!: year_of_mono)
  then show ?thesis using year_of_start [OF assms(1)] year_of_end [OF assms(1)] by simp
qed

section \<open>The month and day within a year\<close>

definition month_day :: "nat \<Rightarrow> nat \<times> nat" where
  "month_day doy =
     (let mp = (5 * doy + 2) div 153
      in (if mp < 10 then mp + 3 else mp - 9, doy - (153 * mp + 2) div 5 + 1))"

text \<open>In a year that starts in March every month has its full length but the last.\<close>

lemma month_day_at:
  assumes "153 * k \<le> 5 * doy + 2" "5 * doy + 2 < 153 * Suc k"
  shows "month_day doy = (if k < 10 then k + 3 else k - 9, doy - (153 * k + 2) div 5 + 1)"
proof -
  have "(5 * doy + 2) div 153 = k" using assms by (intro div_nat_eqI) simp_all
  then show ?thesis by (simp add: month_day_def Let_def)
qed

lemma month_ranges:
  "doy < 31 \<Longrightarrow> month_day doy = (3, doy + 1)"
  "31 \<le> doy \<Longrightarrow> doy < 61 \<Longrightarrow> month_day doy = (4, doy - 31 + 1)"
  "61 \<le> doy \<Longrightarrow> doy < 92 \<Longrightarrow> month_day doy = (5, doy - 61 + 1)"
  "92 \<le> doy \<Longrightarrow> doy < 122 \<Longrightarrow> month_day doy = (6, doy - 92 + 1)"
  "122 \<le> doy \<Longrightarrow> doy < 153 \<Longrightarrow> month_day doy = (7, doy - 122 + 1)"
  "153 \<le> doy \<Longrightarrow> doy < 184 \<Longrightarrow> month_day doy = (8, doy - 153 + 1)"
  "184 \<le> doy \<Longrightarrow> doy < 214 \<Longrightarrow> month_day doy = (9, doy - 184 + 1)"
  "214 \<le> doy \<Longrightarrow> doy < 245 \<Longrightarrow> month_day doy = (10, doy - 214 + 1)"
  "245 \<le> doy \<Longrightarrow> doy < 275 \<Longrightarrow> month_day doy = (11, doy - 245 + 1)"
  "275 \<le> doy \<Longrightarrow> doy < 306 \<Longrightarrow> month_day doy = (12, doy - 275 + 1)"
  "306 \<le> doy \<Longrightarrow> doy < 337 \<Longrightarrow> month_day doy = (1, doy - 306 + 1)"
  "337 \<le> doy \<Longrightarrow> doy < 367 \<Longrightarrow> month_day doy = (2, doy - 337 + 1)"
  using month_day_at [of 0 doy] month_day_at [of 1 doy] month_day_at [of 2 doy] month_day_at [of 3 doy]
    month_day_at [of 4 doy] month_day_at [of 5 doy] month_day_at [of 6 doy] month_day_at [of 7 doy]
    month_day_at [of 8 doy] month_day_at [of 9 doy] month_day_at [of 10 doy] month_day_at [of 11 doy]
  by simp_all

lemma month_day_step:
  assumes "doy < 365" "month_day doy = (m, d)"
  shows "month_day (Suc doy) = (if d < month_days 0 m then (m, d + 1) else (if m = 12 then 1 else m + 1, 1))
    \<and> (m = 2 \<longrightarrow> d \<le> 28 \<and> (d = 28 \<longleftrightarrow> doy = 364)) \<and> 1 \<le> m \<and> m \<le> 12"
proof -
  have leap0: "leap 0" by (simp add: leap_def)
  consider "doy < 31" | "31 \<le> doy \<and> doy < 61" | "61 \<le> doy \<and> doy < 92" | "92 \<le> doy \<and> doy < 122"
    | "122 \<le> doy \<and> doy < 153" | "153 \<le> doy \<and> doy < 184" | "184 \<le> doy \<and> doy < 214" | "214 \<le> doy \<and> doy < 245"
    | "245 \<le> doy \<and> doy < 275" | "275 \<le> doy \<and> doy < 306" | "306 \<le> doy \<and> doy < 337" | "337 \<le> doy \<and> doy < 367"
    using assms(1) by linarith
  then show ?thesis
    using assms
    by cases (auto simp: month_ranges month_days_def leap0)
qed

lemma month_day_ends: "month_day 0 = (3, 1)" "month_day 364 = (2, 28)" "month_day 365 = (2, 29)"
  by (simp_all add: month_day_def)

lemma days_to_ymd_eq:
  assumes "days + 719468 = era * 146097 + year_start yoe + doy" "yoe < 400" "doy < year_len yoe"
  shows "days_to_ymd days = (let (m, d) = month_day doy in (if m \<le> 2 then era * 400 + yoe + 1 else era * 400 + yoe, m, d))"
proof -
  let ?z = "days + 719468"
  have b: "year_start yoe + doy < 146097"
    using year_end_bound [OF assms(2)] assms(3) by simp
  have z: "?z = era * 146097 + (year_start yoe + doy)" using assms(1) by simp
  then have e: "?z div 146097 = era" "?z - era * 146097 = year_start yoe + doy" using b by simp_all
  have y: "year_of (year_start yoe + doy) = yoe" using assms(2,3) by (intro year_of_unique) auto
  show ?thesis
    unfolding days_to_ymd_def Let_def e year_of_def [symmetric] y year_start_def [symmetric]
    by (simp add: month_day_def Let_def add.commute)
qed


lemma next_date_step:
  assumes "doy < 365" "doy + 1 < year_len yoe" "month_day doy = (m, d)" "month_day (Suc doy) = (m', d')"
    and "leap (Suc (base + yoe)) = leap (Suc yoe)"
  shows "next_date (if m \<le> 2 then base + yoe + 1 else base + yoe, m, d)
    = (if m' \<le> 2 then base + yoe + 1 else base + yoe, m', d')"
proof -
  note s = month_day_step [OF assms(1,3)]
  have l0: "leap 0" by (simp add: leap_def)
  show ?thesis
  proof (cases "m = 2")
    case True
    have "d < 28 \<or> d = 28 \<and> leap (Suc yoe)"
      using s True assms(2) by (auto simp: year_len_def split: if_splits)
    then show ?thesis
      using s True assms(4,5) by (auto simp: next_date_def month_days_def l0)
  next
    case False
    define D where "D = month_days 0 m"
    have D: "month_days y m = D" for y using False by (simp add: D_def month_days_def)
    have s': "(m', d') = (if d < D then (m, d + 1) else (if m = 12 then 1 else m + 1, 1))" "1 \<le> m" "m \<le> 12"
      using s assms(4) by (simp_all add: D_def)
    have "next_date (y, m, d) = (if d < D then (y, m, d + 1) else if m = 12 then (y + 1, 1, 1) else (y, m + 1, 1))" for y
      by (simp add: next_date_def D)
    then show ?thesis
      using s' False by (cases "d < D"; cases "m = 12") auto
  qed
qed

lemma leap_era: "leap (Suc (era * 400 + yoe)) = leap (Suc yoe)"
proof -
  have "Suc (era * 400 + yoe) = Suc yoe + 4 * (100 * era)" "Suc (era * 400 + yoe) = Suc yoe + 100 * (4 * era)"
    "Suc (era * 400 + yoe) = Suc yoe + 400 * era" by simp_all
  then have "Suc (era * 400 + yoe) mod 4 = Suc yoe mod 4" "Suc (era * 400 + yoe) mod 100 = Suc yoe mod 100"
    "Suc (era * 400 + yoe) mod 400 = Suc yoe mod 400"
    by (metis mod_mult_self2)+
  then show ?thesis by (simp add: leap_def)
qed

lemma days_to_ymd_Suc: "days_to_ymd (Suc n) = next_date (days_to_ymd n)"
proof -
  define era where "era = (n + 719468) div 146097"
  define doe where "doe = (n + 719468) mod 146097"
  have z: "n + 719468 = era * 146097 + doe" by (simp add: era_def doe_def)
  have "doe < 146097" by (simp add: doe_def)
  from year_exists [OF this] obtain yoe where y: "yoe < 400" "year_start yoe \<le> doe" "doe < year_start yoe + year_len yoe"
    by blast
  define doy where "doy = doe - year_start yoe"
  have d: "n + 719468 = era * 146097 + year_start yoe + doy" "doy < year_len yoe"
    using z y by (simp_all add: doy_def)
  obtain m dd where md: "month_day doy = (m, dd)" by fastforce
  have now: "days_to_ymd n = (if m \<le> 2 then era * 400 + yoe + 1 else era * 400 + yoe, m, dd)"
    using days_to_ymd_eq [OF d(1) y(1) d(2)] md by simp
  show ?thesis
  proof (cases "doy + 1 < year_len yoe")
    case True
    obtain m' d' where md': "month_day (Suc doy) = (m', d')" by fastforce
    have "doy < 365" using True by (simp add: year_len_def split: if_splits)
    from next_date_step [OF this True md md' leap_era [of era yoe]]
    show ?thesis
      using days_to_ymd_eq [of "Suc n" era yoe "Suc doy"] d(1) y(1) True md' now by simp
  next
    case False
    then have e: "doy + 1 = year_len yoe" using d(2) by simp
    then have "m = 2 \<and> dd = (if leap (Suc yoe) then 29 else 28)"
      using md month_day_ends by (auto simp: year_len_def split: if_splits)
    then have nd: "next_date (days_to_ymd n) = (era * 400 + yoe + 1, 3, 1)"
      unfolding now next_date_def month_days_def using leap_era [of era yoe] by auto
    show ?thesis
    proof (cases "yoe < 399")
      case True
      have "Suc n + 719468 = era * 146097 + year_start (Suc yoe) + 0"
        using d(1) e year_next [OF True] by simp
      from days_to_ymd_eq [OF this] True show ?thesis
        by (simp add: nd month_day_ends year_len_def)
    next
      case False
      then have "yoe = 399" using y(1) by simp
      then have "Suc n + 719468 = Suc era * 146097 + year_start 0 + 0"
        using d(1) e by (simp add: year_start_def year_len_def leap_def split: if_splits)
      from days_to_ymd_eq [OF this] \<open>yoe = 399\<close> show ?thesis
        by (simp add: nd month_day_ends year_len_def)
    qed
  qed
qed

section \<open>Properties\<close>

lemma next_date_later: "ymd < next_date ymd"
  by (cases ymd) (simp add: next_date_def)

text \<open>C32: The date of the RF log is the Gregorian calendar: day 0 is 1 January 1970, every day
  is followed by the next date, with the months and leap years of the calendar, and later days have later dates.\<close>

theorem days_to_ymd_calendar:
  "days_to_ymd 0 = (1970, 1, 1) \<and> days_to_ymd (Suc n) = next_date (days_to_ymd n) \<and> strict_mono days_to_ymd"
proof (intro conjI)
  show "days_to_ymd 0 = (1970, 1, 1)"
    using days_to_ymd_eq [of 0 4 369 306] by (simp add: year_start_def year_len_def leap_def month_ranges)
  show "strict_mono days_to_ymd"
    by (simp add: strict_mono_Suc_iff days_to_ymd_Suc next_date_later)
qed (rule days_to_ymd_Suc)

end
