(* ===== verification/Telemetry.thy ===== *)
theory Telemetry
  imports Packet Parse_Aprs
begin

text \<open>
  \<open>src/telemetry.rs\<close>: the telemetry counter and the lines it is used in. The lemmas show that the
  counter counts modulo 1000 and that the definition lines are messages to the station.
\<close>

unbundle bit_operations_syntax

record telemetry_counter =
  sequence :: u16

definition telemetry_counter_new :: telemetry_counter where
  "telemetry_counter_new = \<lparr>sequence = 0\<rparr>"

definition next_seq :: "telemetry_counter \<Rightarrow> telemetry_counter \<times> u16" where
  "next_seq c = (let seq = sequence c in (c\<lparr>sequence := (sequence c + 1) mod 1000\<rparr>, seq))"

text \<open>\<open>{:08b}\<close> of a byte.\<close>

definition bits8 :: "u8 \<Rightarrow> string" where
  "bits8 b = map (\<lambda>i. if bit b (7 - i) then CHR ''1'' else CHR ''0'') [0..<8]"

text \<open>The array of five values is a function on the indices 0 to 4.\<close>

definition format_telemetry :: "string \<Rightarrow> u16 \<Rightarrow> (nat \<Rightarrow> u8) \<Rightarrow> u8 \<Rightarrow> string" where
  "format_telemetry mycall seq values bits =
     mycall @ ''>APRS:T#'' @ show_nat0 3 (unat (seq mod 1000))
     @ concat (map (\<lambda>i. '','' @ show_nat0 3 (unat (values i))) [0..<5]) @ '','' @ bits8 bits"

text \<open>\<open>{:<9}\<close> pads to nine characters; a character is counted by its first byte.\<close>

definition char_count :: "string \<Rightarrow> nat" where
  "char_count s = length (filter (\<lambda>c. \<not> is_cont c) s)"

definition pad_addressee :: "string \<Rightarrow> string" where
  "pad_addressee call = call @ replicate (9 - char_count call) (CHR '' '')"

definition format_telemetry_params :: "string \<Rightarrow> string \<Rightarrow> string" where
  "format_telemetry_params mycall source =
     mycall @ ''>APRS::'' @ pad_addressee source @ '':PARM.Rx Pkts,Tx Pkts,Rx Bytes,Tx Bytes,Drops''"

definition format_telemetry_units :: "string \<Rightarrow> string" where
  "format_telemetry_units mycall =
     mycall @ ''>APRS::'' @ pad_addressee mycall @ '':UNIT.Pkts,Pkts,Bytes,Bytes,Pkts''"

definition format_telemetry_eqns :: "string \<Rightarrow> string" where
  "format_telemetry_eqns mycall =
     mycall @ ''>APRS::'' @ pad_addressee mycall @ '':EQNS.0,1,0,0,1,0,0,10,0,0,10,0,0,1,0''"

section \<open>The counter\<close>

fun next_seqs :: "telemetry_counter \<Rightarrow> nat \<Rightarrow> u16 list" where
  "next_seqs c 0 = []"
| "next_seqs c (Suc n) = (let (c', s) = next_seq c in s # next_seqs c' n)"

lemma next_seq_value:
  assumes "unat (sequence c) < 1000"
  shows "unat (sequence (fst (next_seq c))) = Suc (unat (sequence c)) mod 1000"
  using assms by (simp add: next_seq_def Let_def unat_mod unat_word_ariths)

lemma next_seqs_values:
  "unat (sequence c) < 1000 \<Longrightarrow> map unat (next_seqs c n) = map (\<lambda>i. (unat (sequence c) + i) mod 1000) [0..<n]"
proof (induction n arbitrary: c)
  case (Suc n)
  let ?c = "fst (next_seq c)"
  have v: "unat (sequence ?c) = Suc (unat (sequence c)) mod 1000" by (rule next_seq_value [OF Suc.prems])
  then have "map unat (next_seqs ?c n) = map (\<lambda>i. (Suc (unat (sequence c)) mod 1000 + i) mod 1000) [0..<n]"
    using Suc.IH [of ?c] by simp
  also have "\<dots> = map (\<lambda>i. (unat (sequence c) + Suc i) mod 1000) [0..<n]"
    by (simp add: mod_add_left_eq)
  also have "\<dots> = map (\<lambda>i. (unat (sequence c) + i) mod 1000) [1..<Suc n]"
    by (simp add: map_Suc_upt [symmetric] del: upt_Suc map_Suc_upt)
  finally show ?case
    using Suc.prems by (simp add: next_seq_def split_def Let_def upt_rec [of 0 "Suc n"] del: upt_Suc)
qed simp

section \<open>The definition lines\<close>

lemma char_count_ascii: "all_ascii s \<Longrightarrow> char_count s = length s"
  by (simp add: char_count_def all_ascii_def ascii_not_cont filter_id_conv)

lemma definition_line_parses:
  assumes "all_ascii call" "length call \<le> 9" "trim_end call = call" "all_ascii t" "CHR 0x7B \<notin> set t" "CHR '':'' \<notin> set mycall"
  shows "payload (packet_new now (mycall @ ''>APRS::'' @ pad_addressee call @ '':'' @ t) i b) = Some (message_payload call t)
    \<and> parse_aprs (message_payload call t) = Some (Message call t None)"
proof -
  have line: "mycall @ ''>APRS::'' @ pad_addressee call @ '':'' @ t = (mycall @ ''>APRS'') @ CHR '':'' # message_payload call t"
    using assms(1) by (simp add: pad_addressee_def message_payload_def char_count_ascii)
  have v: "utf8_valid t" using assms(4) by (simp add: all_ascii_def utf8_valid_all_ascii)
  have "starts_char (message_payload call t)"
    by (simp add: starts_char_def message_payload_def is_cont_def)
  moreover have "tnc2_addr_len (packet_new now ((mycall @ ''>APRS'') @ CHR '':'' # message_payload call t) i b)
      = length (mycall @ ''>APRS'')"
    by (rule addr_len_colon) (use assms(6) in simp)
  ultimately have "payload (packet_new now ((mycall @ ''>APRS'') @ CHR '':'' # message_payload call t) i b)
      = Some (message_payload call t)"
    using slices_at_colon(2) [of "packet_new now ((mycall @ ''>APRS'') @ CHR '':'' # message_payload call t) i b"
        "mycall @ ''>APRS''" "message_payload call t"] by (simp add: starts_char_def)
  moreover have "str_rfind (\<lambda>c. c = CHR 0x7B) t = None"
    using assms(5) by (simp add: str_rfind_def find_char)
  then have "parse_aprs (message_payload call t) = Some (Message call t None)"
    using parse_message_payload [OF assms(1,2) v] assms(3)
    by (simp add: parse_aprs_def message_payload_def Let_def)
  ultimately show ?thesis unfolding line by simp
qed

section \<open>Properties\<close>

text \<open>The sequence numbers of a counter are 0, 1, 2, ... modulo 1000, and each of the three definition lines
  is read, as a packet, as a message from the station to the call it defines the channels of.\<close>

theorem telemetry_lines:
  assumes "all_ascii call" and "length call \<le> 9" and "trim_end call = call" and "CHR '':'' \<notin> set call"
  shows "map unat (next_seqs telemetry_counter_new n) = map (\<lambda>i. i mod 1000) [0..<n]
    \<and> (\<exists>pl. payload (packet_new now (format_telemetry_params call call) i b) = Some pl
         \<and> parse_aprs pl = Some (Message call ''PARM.Rx Pkts,Tx Pkts,Rx Bytes,Tx Bytes,Drops'' None))
    \<and> (\<exists>pl. payload (packet_new now (format_telemetry_units call) i b) = Some pl
         \<and> parse_aprs pl = Some (Message call ''UNIT.Pkts,Pkts,Bytes,Bytes,Pkts'' None))
    \<and> (\<exists>pl. payload (packet_new now (format_telemetry_eqns call) i b) = Some pl
         \<and> parse_aprs pl = Some (Message call ''EQNS.0,1,0,0,1,0,0,10,0,0,10,0,0,1,0'' None))"
proof -
  note m = definition_line_parses [OF assms(1,2,3) _ _ assms(4), of _ now i b]
  have "map unat (next_seqs telemetry_counter_new n) = map (\<lambda>i. i mod 1000) [0..<n]"
    using next_seqs_values [of telemetry_counter_new n] by (simp add: telemetry_counter_new_def)
  then show ?thesis
    using m [of "''PARM.Rx Pkts,Tx Pkts,Rx Bytes,Tx Bytes,Drops''"] m [of "''UNIT.Pkts,Pkts,Bytes,Bytes,Pkts''"]
      m [of "''EQNS.0,1,0,0,1,0,0,10,0,0,10,0,0,1,0''"]
    by (simp add: format_telemetry_params_def format_telemetry_units_def format_telemetry_eqns_def
        all_ascii_def is_ascii_char_def)
qed

theorem telemetry_lines_witness:
  "\<exists>pl. payload (packet_new 0 (format_telemetry_units ''N0CALL-9'') ''tx'' True) = Some pl
     \<and> parse_aprs pl = Some (Message ''N0CALL-9'' ''UNIT.Pkts,Pkts,Bytes,Bytes,Pkts'' None)"
proof -
  have "all_ascii ''N0CALL-9''" "trim_end ''N0CALL-9'' = ''N0CALL-9''" by code_simp+
  then show ?thesis using telemetry_lines [of "''N0CALL-9''" 0 0 "''tx''" True] by simp
qed

end
