(* ===== verification/Erlang.thy ===== *)
theory Erlang
  imports Vaprs_Prelude
begin

text \<open>
  \<open>src/erlang.rs\<close>: traffic counters per interface over 1, 10 and 60 minutes. The counters are
  64-bit words, so the sums wrap. The lemmas show that after any minutes the three windows are the
  totals of the last one, ten and sixty of them.
\<close>

record window_stats =
  rx_packets :: u64
  tx_packets :: u64
  rx_bytes :: u64
  tx_bytes :: u64
  drops :: u64

definition window_default :: window_stats where
  "window_default = \<lparr>rx_packets = 0, tx_packets = 0, rx_bytes = 0, tx_bytes = 0, drops = 0\<rparr>"

definition window_add :: "window_stats \<Rightarrow> window_stats \<Rightarrow> window_stats" where
  "window_add a b =
     \<lparr>rx_packets = rx_packets a + rx_packets b, tx_packets = tx_packets a + tx_packets b,
      rx_bytes = rx_bytes a + rx_bytes b, tx_bytes = tx_bytes a + tx_bytes b,
      drops = drops a + drops b\<rparr>"

record channel_stats =
  ch_name :: string
  current :: window_stats
  last_1min :: window_stats
  last_10min :: window_stats
  last_60min :: window_stats
  minute_samples :: "window_stats list"
  last_rotation :: instant

definition channel_new :: "string \<Rightarrow> instant \<Rightarrow> channel_stats" where
  "channel_new name now =
     \<lparr>ch_name = name, current = window_default, last_1min = window_default,
      last_10min = window_default, last_60min = window_default, minute_samples = [],
      last_rotation = now\<rparr>"

definition record_rx :: "channel_stats \<Rightarrow> u64 \<Rightarrow> channel_stats" where
  "record_rx c bytes =
     c\<lparr>current := (current c)\<lparr>rx_packets := rx_packets (current c) + 1,
                             rx_bytes := rx_bytes (current c) + bytes\<rparr>\<rparr>"

definition record_tx :: "channel_stats \<Rightarrow> u64 \<Rightarrow> channel_stats" where
  "record_tx c bytes =
     c\<lparr>current := (current c)\<lparr>tx_packets := tx_packets (current c) + 1,
                             tx_bytes := tx_bytes (current c) + bytes\<rparr>\<rparr>"

definition record_drop :: "channel_stats \<Rightarrow> channel_stats" where
  "record_drop c = c\<lparr>current := (current c)\<lparr>drops := drops (current c) + 1\<rparr>\<rparr>"

definition rotate_channel :: "channel_stats \<Rightarrow> instant \<Rightarrow> channel_stats" where
  "rotate_channel c now =
     (let c = c\<lparr>last_1min := current c\<rparr>;
          samples = minute_samples c @ [current c];
          samples = (if length samples > 60 then tl samples else samples);
          ten_start = length samples - 10
      in c\<lparr>minute_samples := samples,
           last_10min := foldl window_add window_default (drop ten_start samples),
           last_60min := foldl window_add window_default samples,
           current := window_default,
           last_rotation := now\<rparr>)"

type_synonym erlang_monitor = "channel_stats list"

definition monitor_new :: erlang_monitor where
  "monitor_new = []"

definition add_channel :: "erlang_monitor \<Rightarrow> string \<Rightarrow> instant \<Rightarrow> erlang_monitor" where
  "add_channel m name now = m @ [channel_new name now]"

definition monitor_get :: "erlang_monitor \<Rightarrow> string \<Rightarrow> channel_stats option" where
  "monitor_get m name = find (\<lambda>c. ch_name c = name) m"

text \<open>A use of \<open>get_mut\<close>: the first channel of the name is replaced by its update.\<close>

fun monitor_update :: "erlang_monitor \<Rightarrow> string \<Rightarrow> (channel_stats \<Rightarrow> channel_stats) \<Rightarrow> erlang_monitor" where
  "monitor_update [] name f = []"
| "monitor_update (c # m) name f = (if ch_name c = name then f c # m else c # monitor_update m name f)"

definition rotate_all :: "erlang_monitor \<Rightarrow> instant \<Rightarrow> erlang_monitor" where
  "rotate_all m now = map (\<lambda>c. rotate_channel c now) m"

record erlang_channel_snapshot =
  es_name :: string
  es_current :: window_stats
  es_last_1min :: window_stats
  es_last_10min :: window_stats
  es_last_60min :: window_stats

definition monitor_snapshot :: "erlang_monitor \<Rightarrow> erlang_channel_snapshot list" where
  "monitor_snapshot m =
     map (\<lambda>c. \<lparr>es_name = ch_name c, es_current = current c, es_last_1min = last_1min c,
               es_last_10min = last_10min c, es_last_60min = last_60min c\<rparr>) m"

section \<open>Minutes\<close>

datatype traffic = Rx u64 | Tx u64 | Dropped

fun record_traffic :: "channel_stats \<Rightarrow> traffic \<Rightarrow> channel_stats" where
  "record_traffic c (Rx n) = record_rx c n"
| "record_traffic c (Tx n) = record_tx c n"
| "record_traffic c Dropped = record_drop c"

text \<open>A run: minutes of traffic, each ended by a rotation.\<close>

fun run_minutes :: "channel_stats \<Rightarrow> (traffic list \<times> instant) list \<Rightarrow> channel_stats" where
  "run_minutes c [] = c"
| "run_minutes c ((ts, t) # ms) = run_minutes (rotate_channel (foldl record_traffic c ts) t) ms"

text \<open>What the traffic of some minutes amounts to.\<close>

definition total :: "traffic list \<Rightarrow> window_stats" where
  "total ts =
     \<lparr>rx_packets = of_nat (length (filter (\<lambda>t. case t of Rx n \<Rightarrow> True | _ \<Rightarrow> False) ts)),
      tx_packets = of_nat (length (filter (\<lambda>t. case t of Tx n \<Rightarrow> True | _ \<Rightarrow> False) ts)),
      rx_bytes = sum_list (map (\<lambda>t. case t of Rx n \<Rightarrow> n | _ \<Rightarrow> 0) ts),
      tx_bytes = sum_list (map (\<lambda>t. case t of Tx n \<Rightarrow> n | _ \<Rightarrow> 0) ts),
      drops = of_nat (length (filter (\<lambda>t. t = Dropped) ts))\<rparr>"

lemma window_eqI: "rx_packets a = rx_packets b \<Longrightarrow> tx_packets a = tx_packets b \<Longrightarrow> rx_bytes a = rx_bytes b
    \<Longrightarrow> tx_bytes a = tx_bytes b \<Longrightarrow> drops a = drops b \<Longrightarrow> a = (b :: window_stats)"
  by (cases a; cases b) simp

lemma total_Nil [simp]: "total [] = window_default"
  by (simp add: total_def window_default_def)

lemma total_append: "total (ts @ us) = window_add (total ts) (total us)"
  by (simp add: total_def window_add_def)

lemma record_traffic_current: "current (record_traffic c t) = window_add (current c) (total [t])"
  by (cases t) (simp_all add: record_rx_def record_tx_def record_drop_def window_add_def total_def)

lemma record_traffic_other [simp]: "minute_samples (record_traffic c t) = minute_samples c"
  by (cases t) (simp_all add: record_rx_def record_tx_def record_drop_def)

lemma traffic_current:
  "current c = total us \<Longrightarrow> current (foldl record_traffic c ts) = total (us @ ts)"
proof (induction ts arbitrary: c us)
  case (Cons t ts)
  have "current (record_traffic c t) = total (us @ [t])"
    using Cons.prems by (simp add: record_traffic_current total_append [of us "[t]"])
  then show ?case using Cons.IH [of "record_traffic c t" "us @ [t]"] by simp
qed simp

lemma traffic_samples [simp]: "minute_samples (foldl record_traffic c ts) = minute_samples c"
  by (induction ts arbitrary: c) simp_all

lemma foldl_total: "foldl window_add (total us) (map total tss) = total (us @ concat tss)"
proof (induction tss arbitrary: us)
  case (Cons ts tss)
  show ?case using Cons.IH [of "us @ ts"] by (simp add: total_append [of us ts, symmetric])
qed simp

lemma foldl_default_total: "foldl window_add window_default (map total tss) = total (concat tss)"
  using foldl_total [of "[]"] by simp

text \<open>The last \<open>n\<close> elements of a list.\<close>

definition last_n :: "nat \<Rightarrow> 'a list \<Rightarrow> 'a list" where
  "last_n n xs = drop (length xs - n) xs"

lemma last_n_snoc: "0 < n \<Longrightarrow> last_n n (xs @ [x]) =
    (if length (last_n n xs @ [x]) > n then tl (last_n n xs @ [x]) else last_n n xs @ [x])"
proof (cases "n \<le> length xs")
  case True
  assume "0 < n"
  have "drop (Suc (length xs) - n) xs = tl (drop (length xs - n) xs)"
    using True by (metis Suc_diff_le drop_Suc tl_drop)
  moreover have "drop (length xs - n) xs \<noteq> []" using True \<open>0 < n\<close> by simp
  ultimately show ?thesis using True \<open>0 < n\<close> by (simp add: last_n_def)
qed (simp add: last_n_def)

lemma last_n_last_n: "m \<le> n \<Longrightarrow> last_n m (last_n n xs) = last_n m xs"
proof -
  assume "m \<le> n"
  then have "length xs - n + (length xs - (length xs - n) - m) = length xs - m" by linarith
  then show ?thesis by (simp add: last_n_def add.commute)
qed

lemma rotate_channel_eq:
  assumes "(if length (minute_samples c @ [current c]) > 60 then tl (minute_samples c @ [current c])
      else minute_samples c @ [current c]) = S"
  shows "rotate_channel c t = c\<lparr>last_1min := current c, minute_samples := S,
      last_10min := foldl window_add window_default (drop (length S - 10) S),
      last_60min := foldl window_add window_default S,
      current := window_default, last_rotation := t\<rparr>"
  unfolding assms [symmetric] rotate_channel_def Let_def by simp

definition windows_of :: "channel_stats \<Rightarrow> traffic list list \<Rightarrow> bool" where
  "windows_of c tss \<longleftrightarrow>
     current c = window_default \<and> minute_samples c = map total (last_n 60 tss)
     \<and> last_1min c = total (concat (last_n 1 tss))
     \<and> last_10min c = total (concat (last_n 10 tss))
     \<and> last_60min c = total (concat (last_n 60 tss))"

lemma rotate_windows:
  assumes "windows_of c tss"
  shows "windows_of (rotate_channel (foldl record_traffic c ts) t) (tss @ [ts])"
proof -
  let ?c = "foldl record_traffic c ts"
  have cur: "current ?c = total ts"
    using traffic_current [of c "[]" ts] assms by (simp add: windows_of_def)
  let ?s = "map total (last_n 60 (tss @ [ts]))"
  have "minute_samples ?c @ [total ts] = map total (last_n 60 tss @ [ts])"
    using assms by (simp add: windows_of_def)
  then have s: "(if length (minute_samples ?c @ [current ?c]) > 60 then tl (minute_samples ?c @ [current ?c])
      else minute_samples ?c @ [current ?c]) = ?s"
    using last_n_snoc [of 60 tss ts] unfolding cur by (auto simp: map_tl)
  have ten: "drop (length ?s - 10) ?s = map total (last_n 10 (tss @ [ts]))"
    using last_n_last_n [of 10 60 "tss @ [ts]"] by (simp add: last_n_def drop_map)
  have "rotate_channel ?c t = ?c\<lparr>last_1min := total ts, minute_samples := ?s,
      last_10min := foldl window_add window_default (drop (length ?s - 10) ?s),
      last_60min := foldl window_add window_default ?s,
      current := window_default, last_rotation := t\<rparr>"
    using rotate_channel_eq [OF s, of t] by (simp only: cur)
  then show ?thesis
    unfolding ten foldl_default_total by (simp add: windows_of_def last_n_def)
qed

lemma run_minutes_windows:
  "windows_of c tss \<Longrightarrow> windows_of (run_minutes c ms) (tss @ map fst ms)"
proof (induction ms arbitrary: c tss)
  case (Cons m ms)
  obtain ts t where m: "m = (ts, t)" by (cases m)
  show ?case using Cons.IH [OF rotate_windows [OF Cons.prems, of ts t]] by (simp add: m)
qed simp

section \<open>Properties\<close>

text \<open>C33: Whatever traffic the minutes had, after the last rotation the three windows are its totals
  over the last one, ten and sixty minutes, and the running window is zero.\<close>

theorem erlang_windows:
  "last_1min (run_minutes (channel_new name t0) ms) = (if ms = [] then window_default else total (fst (last ms)))
   \<and> last_10min (run_minutes (channel_new name t0) ms) = total (concat (map fst (drop (length ms - 10) ms)))
   \<and> last_60min (run_minutes (channel_new name t0) ms) = total (concat (map fst (drop (length ms - 60) ms)))
   \<and> current (run_minutes (channel_new name t0) ms) = window_default"
proof -
  have "windows_of (channel_new name t0) []"
    by (simp add: windows_of_def channel_new_def last_n_def)
  from run_minutes_windows [OF this, of ms]
  have w: "windows_of (run_minutes (channel_new name t0) ms) (map fst ms)" by simp
  have "total (concat (last_n 1 (map fst ms))) = (if ms = [] then window_default else total (fst (last ms)))"
    by (cases ms rule: rev_cases) (simp_all add: last_n_def)
  with w show ?thesis by (simp add: windows_of_def last_n_def drop_map)
qed

end
