(* ===== verification/Router.thy ===== *)
theory Router
  imports Packet
begin

text \<open>
  \<open>src/router.rs\<close>: the packet router. The bounded channels of the crate \<open>tokio\<close> are a parameter:
  \<open>channel n\<close> makes one of size \<open>n\<close>, \<open>try_send\<close> is the non-blocking send, which returns the channel
  and its answer, and \<open>is_full\<close>, \<open>is_closed\<close> say what the answer depends on; the type of a
  channel is the type variable. What the consumers do with their ends in the meantime is part of
  a run. The lemmas show that a consumer sees the packets and its own actions only.
\<close>

datatype send_result = SendOk | SendFull | SendClosed

record 'ch consumer =
  con_name :: string
  con_tx :: 'ch

type_synonym 'ch router = "'ch consumer list"

definition router_new :: "'ch router" where
  "router_new = []"

definition add_consumer :: "(nat \<Rightarrow> 'ch) \<Rightarrow> 'ch router \<Rightarrow> string \<Rightarrow> nat \<Rightarrow> 'ch router" where
  "add_consumer channel r name buffer_size = r @ [\<lparr>con_name = name, con_tx = channel buffer_size\<rparr>]"

text \<open>One packet: every consumer is tried once, in order; the answers are what is logged.\<close>

fun fan_out :: "('ch \<Rightarrow> packet \<Rightarrow> 'ch \<times> send_result) \<Rightarrow> 'ch router \<Rightarrow> packet \<Rightarrow> 'ch router \<times> (string \<times> send_result) list" where
  "fan_out try_send [] p = ([], [])"
| "fan_out try_send (c # cs) p =
     (let (ch, answer) = try_send (con_tx c) p;
          (cs', log) = fan_out try_send cs p
      in (c\<lparr>con_tx := ch\<rparr> # cs',
          (case answer of SendOk \<Rightarrow> [] | _ \<Rightarrow> [(con_name c, answer)]) @ log))"

text \<open>A run: packets from the source channel, and actions of the consumers on their channels
  (receiving, closing), in any order; it ends when the source is closed.\<close>

datatype 'ch router_event = Arrives packet | Acts nat "'ch \<Rightarrow> 'ch"

fun router_run ::
  "('ch \<Rightarrow> packet \<Rightarrow> 'ch \<times> send_result) \<Rightarrow> 'ch router \<Rightarrow> 'ch router_event list \<Rightarrow> 'ch router" where
  "router_run try_send r [] = r"
| "router_run try_send r (Arrives p # es) = router_run try_send (fst (fan_out try_send r p)) es"
| "router_run try_send r (Acts i f # es) =
     router_run try_send (if i < length r then r[i := (r ! i)\<lparr>con_tx := f (con_tx (r ! i))\<rparr>] else r) es"

section \<open>Consumers do not see each other\<close>

lemma fan_out_map: "fst (fan_out try_send r p) = map (\<lambda>c. c\<lparr>con_tx := fst (try_send (con_tx c) p)\<rparr>) r"
  by (induction r) (simp_all add: split_def Let_def)

lemma fan_out_log: "snd (fan_out try_send r p) =
    concat (map (\<lambda>c. case snd (try_send (con_tx c) p) of SendOk \<Rightarrow> [] | a \<Rightarrow> [(con_name c, a)]) r)"
  by (induction r) (simp_all add: split_def Let_def split: send_result.split)

text \<open>The view of consumer \<open>i\<close>: its channel under the packets and its own actions.\<close>

fun consumer_run ::
  "('ch \<Rightarrow> packet \<Rightarrow> 'ch \<times> send_result) \<Rightarrow> nat \<Rightarrow> 'ch \<Rightarrow> 'ch router_event list \<Rightarrow> 'ch" where
  "consumer_run try_send i ch [] = ch"
| "consumer_run try_send i ch (Arrives p # es) = consumer_run try_send i (fst (try_send ch p)) es"
| "consumer_run try_send i ch (Acts j f # es) = consumer_run try_send i (if j = i then f ch else ch) es"

lemma router_run_length: "length (router_run try_send r es) = length r"
  by (induction try_send r es rule: router_run.induct) (simp_all add: fan_out_map)

lemma router_run_consumer:
  "i < length r \<Longrightarrow> con_tx (router_run try_send r es ! i) = consumer_run try_send i (con_tx (r ! i)) es"
  by (induction try_send r es rule: router_run.induct) (auto simp: fan_out_map nth_list_update)

section \<open>Properties\<close>

text \<open>C29: Consumers are isolated: whatever packets arrive and whatever the other consumers do (fill up,
  read, close), the channel of a consumer is the one it would have if it were alone with the
  router, whatever the channels do.\<close>

theorem router_isolates_consumers:
  assumes "i < length r"
  shows "con_tx (router_run try_send r es ! i) = con_tx (router_run try_send [r ! i] 
           (map (\<lambda>e. case e of Arrives p \<Rightarrow> Arrives p | Acts j f \<Rightarrow> Acts (if j = i then 0 else 1) f) es) ! 0)
    \<and> length (router_run try_send r es) = length r"
proof -
  let ?alone = "\<lambda>e. case e of Arrives p \<Rightarrow> Arrives p | Acts j f \<Rightarrow> Acts (if j = i then 0 else 1) f"
  have "consumer_run try_send i ch es = consumer_run try_send 0 ch (map ?alone es)" for ch
    by (induction try_send i ch es rule: consumer_run.induct) simp_all
  then show ?thesis
    using router_run_consumer [OF assms, of try_send es] router_run_consumer [of 0 "[r ! i]" try_send "map ?alone es"]
    by (simp add: router_run_length)
qed

text \<open>A channel of size two as the parameter: the slow consumer 0 loses the third packet, the
  consumer 1 that reads does not.\<close>

definition bounded_send :: "nat \<times> packet list \<Rightarrow> packet \<Rightarrow> (nat \<times> packet list) \<times> send_result" where
  "bounded_send ch p = (case ch of (cap, ps) \<Rightarrow>
     if length ps < cap then ((cap, ps @ [p]), SendOk) else ((cap, ps), SendFull))"

theorem router_isolates_consumers_witness:
  "con_tx (router_run bounded_send
      [\<lparr>con_name = ''slow'', con_tx = (2, [])\<rparr>, \<lparr>con_name = ''fast'', con_tx = (2, [])\<rparr>]
      [Arrives (packet_new 0 ''A>B:1'' ''rf'' True), Arrives (packet_new 0 ''A>B:2'' ''rf'' True), Acts 1 (\<lambda>(n, ps). (n, tl ps)), Arrives (packet_new 0 ''A>B:3'' ''rf'' True)] ! 1) = (2, [packet_new 0 ''A>B:2'' ''rf'' True, packet_new 0 ''A>B:3'' ''rf'' True])"
  using router_isolates_consumers [of 1 "[\<lparr>con_name = ''slow'', con_tx = (2, [])\<rparr>, \<lparr>con_name = ''fast'', con_tx = (2, [])\<rparr>]"
      bounded_send "[Arrives (packet_new 0 ''A>B:1'' ''rf'' True), Arrives (packet_new 0 ''A>B:2'' ''rf'' True), Acts 1 (\<lambda>(n, ps). (n, tl ps)), Arrives (packet_new 0 ''A>B:3'' ''rf'' True)]"]
  by (simp add: bounded_send_def)

end
