(* ===== verification/Aprsis.thy ===== *)
theory Aprsis
  imports Config Packet "HOL-Library.Sublist"
begin

text \<open>
  \<open>src/aprsis.rs\<close>: the passcode, the login line, and the client task. The task is a state machine
  whose phases are the places where \<open>run\<close> and \<open>connect_and_run\<close> wait; an event says how that
  wait ended (a connection, a write, a line, a timer, a message from the queue), and \<open>aprsis_step\<close>
  is the code up to the next wait, \<^const>\<open>None\<close> where the event cannot happen. \<open>timer\<close> is when the
  timers of the current wait were started: every round of a \<open>select!\<close> loop starts them anew.
  \<open>taken\<close>, \<open>written\<close> and \<open>sent_here\<close> are history variables: the messages taken from the queue,
  written on any connection, and written on the current one.
\<close>

unbundle bit_operations_syntax

section \<open>Passcode and lines\<close>

definition DEFAULT_HEARTBEAT_TIMEOUT_SECS :: nat where "DEFAULT_HEARTBEAT_TIMEOUT_SECS = 120"
definition RECONNECT_BACKOFF :: duration where "RECONNECT_BACKOFF = from_secs 10"
definition WRITE_BATCH_MAX :: nat where "WRITE_BATCH_MAX = 20"
definition PKG_VERSION :: string where "PKG_VERSION = ''0.1.24''"

fun passcode_loop :: "u8 list \<Rightarrow> u16 \<Rightarrow> u16" where
  "passcode_loop (a # b # bs) hash = passcode_loop bs (hash XOR push_bit 8 (ucast a) XOR ucast b)"
| "passcode_loop [a] hash = hash XOR push_bit 8 (ucast a)"
| "passcode_loop [] hash = hash"

definition aprs_passcode :: "string \<Rightarrow> u16" where
  "aprs_passcode callsign =
     (let call = unwrap_or (nth_opt (str_split (\<lambda>c. c = CHR ''-'') callsign) 0) callsign
      in passcode_loop (as_bytes (to_uppercase call)) 0x73E2 AND 0x7FFF)"

definition sanitize_aprsis_line :: "string \<Rightarrow> string" where
  "sanitize_aprsis_line s = filter (\<lambda>c. c \<noteq> CHR 0x0D \<and> c \<noteq> CHR 0x0A) s"

definition framed :: "string \<Rightarrow> string" where
  "framed data =
     (let data = sanitize_aprsis_line data
      in if drop (length data - 2) data = CRLF then data else data @ CRLF)"

record aprsis_client =
  cl_login :: string
  cl_passcode :: int
  cl_servers :: "string list"
  cl_filter :: "string option"
  cl_heartbeat :: duration
  cl_log_traffic :: bool

definition client_new :: "string \<Rightarrow> aprsis_config \<Rightarrow> bool \<Rightarrow> aprsis_client" where
  "client_new mycall cfg log_traffic =
     (let heartbeat_secs = unwrap_or (ac_heartbeat_timeout cfg) DEFAULT_HEARTBEAT_TIMEOUT_SECS
      in \<lparr>cl_login = mycall, cl_passcode = ac_passcode cfg, cl_servers = ac_servers cfg,
          cl_filter = ac_filter cfg, cl_heartbeat = from_secs heartbeat_secs,
          cl_log_traffic = log_traffic\<rparr>)"

definition login_line :: "aprsis_client \<Rightarrow> string" where
  "login_line c =
     (let clean_login = sanitize_aprsis_line (cl_login c);
          line = ''user '' @ clean_login @ '' pass '' @ show_int (cl_passcode c) @ '' vers vaprs '' @ PKG_VERSION;
          line = (case cl_filter c of
                    Some f \<Rightarrow> line @ '' filter '' @ sanitize_aprsis_line f
                  | None \<Rightarrow> line)
      in line @ CRLF)"

section \<open>The client task\<close>

datatype aprsis_phase =
    Connecting
  | LoggingIn
  | Flushing string "string list"
  | FlushEnd
  | Selecting
  | Writing string nat
  | BatchFlush
  | BackingOff
  | Stopped

datatype aprsis_answer = Delivered | QueueFull | ReceiverGone

datatype aprsis_event =
    ConnectOk
  | ConnectFails string
  | ConnectTimeout
  | WriteOk
  | WriteFails string
  | FlushOk
  | FlushFails string
  | ReadSome string
  | ReadDone string aprsis_answer
  | ReadFails string
  | HeartbeatExpires
  | TakesMessage
  | SleepEnds
  | Enqueue string
  | CloseQueue

record aprsis_state =
  as_phase :: aprsis_phase
  server_idx :: nat
  pending_writes :: "string list"
  line_buf :: string
  timer :: instant
  queue :: "string list"
  queue_closed :: bool
  wire :: "string list"
  delivered :: "packet list"
  dash_connected :: bool
  dash_server :: string
  taken :: "string list"
  written :: "string list"
  sent_here :: "string list"

definition aprsis_start :: "aprsis_client \<Rightarrow> aprsis_state" where
  "aprsis_start c =
     \<lparr>as_phase = (if cl_servers c = [] then Stopped else Connecting), server_idx = 0, pending_writes = [],
      line_buf = [], timer = 0, queue = [], queue_closed = False, wire = [], delivered = [],
      dash_connected = False, dash_server = [], taken = [], written = [], sent_here = []\<rparr>"

definition disconnected :: "aprsis_client \<Rightarrow> instant \<Rightarrow> aprsis_state \<Rightarrow> aprsis_state" where
  "disconnected c now s =
     s\<lparr>as_phase := BackingOff, dash_connected := False,
       server_idx := (server_idx s + 1) mod length (cl_servers c), timer := now\<rparr>"

definition next_round :: "instant \<Rightarrow> aprsis_state \<Rightarrow> aprsis_state" where
  "next_round now s = s\<lparr>as_phase := Selecting, line_buf := [], timer := now\<rparr>"

text \<open>The \<open>for\<close> loop over \<open>pending_writes.drain(..)\<close>: what is not written when it is left is gone.\<close>

definition flush_next :: "string list \<Rightarrow> aprsis_state \<Rightarrow> aprsis_state" where
  "flush_next ds s = s\<lparr>as_phase := (case ds of [] \<Rightarrow> FlushEnd | d # ds \<Rightarrow> Flushing d ds), pending_writes := []\<rparr>"

text \<open>A write that succeeded.\<close>

definition wrote :: "string \<Rightarrow> aprsis_state \<Rightarrow> aprsis_state" where
  "wrote d s = s\<lparr>wire := wire s @ [framed d], written := written s @ [d], sent_here := sent_here s @ [d]\<rparr>"

text \<open>Taking a message from the queue, which is not empty.\<close>

definition take_message :: "aprsis_state \<Rightarrow> string \<times> aprsis_state" where
  "take_message s = (hd (queue s), s\<lparr>queue := tl (queue s), taken := taken s @ [hd (queue s)]\<rparr>)"

definition handle_line :: "aprsis_client \<Rightarrow> instant \<Rightarrow> string \<Rightarrow> aprsis_answer \<Rightarrow> aprsis_state \<Rightarrow> aprsis_state" where
  "handle_line c now data answer s =
     (if data = [] then disconnected c now s
      else if \<not> utf8_valid data then disconnected c now s
      else (let line = trim_end data
        in if line = [] then next_round now s
           else if starts_with line ''#'' then next_round now s
           else (let p = packet_new now line ''APRSIS'' True
             in case answer of
                  Delivered \<Rightarrow> next_round now (s\<lparr>delivered := delivered s @ [p]\<rparr>)
                | QueueFull \<Rightarrow> next_round now s
                | ReceiverGone \<Rightarrow> s\<lparr>as_phase := Stopped\<rparr>)))"

fun aprsis_step :: "aprsis_client \<Rightarrow> instant \<Rightarrow> aprsis_event \<Rightarrow> aprsis_state \<Rightarrow> aprsis_state option" where
  "aprsis_step c now (Enqueue d) s =
     (if queue_closed s then None else Some (s\<lparr>queue := queue s @ [d]\<rparr>))"
| "aprsis_step c now CloseQueue s = Some (s\<lparr>queue_closed := True\<rparr>)"
| "aprsis_step c now ConnectOk s =
     (if as_phase s = Connecting
      then Some (s\<lparr>as_phase := LoggingIn, dash_connected := True, dash_server := cl_servers c ! server_idx s,
                   wire := [], sent_here := []\<rparr>)
      else None)"
| "aprsis_step c now (ConnectFails e) s =
     (if as_phase s = Connecting then Some (disconnected c now s) else None)"
| "aprsis_step c now ConnectTimeout s =
     (if as_phase s = Connecting then Some (disconnected c now s) else None)"
| "aprsis_step c now WriteOk s =
     (case as_phase s of
        LoggingIn \<Rightarrow> Some (flush_next (pending_writes s) (s\<lparr>wire := [login_line c]\<rparr>))
      | Flushing d ds \<Rightarrow> Some (flush_next ds (wrote d s))
      | Writing d n \<Rightarrow>
          (let s = wrote d s; batch_count = n + 1
           in if batch_count < WRITE_BATCH_MAX \<and> queue s \<noteq> []
              then (case take_message s of (d', s) \<Rightarrow> Some (s\<lparr>as_phase := Writing d' batch_count\<rparr>))
              else Some (s\<lparr>as_phase := BatchFlush\<rparr>))
      | _ \<Rightarrow> None)"
| "aprsis_step c now (WriteFails e) s =
     (case as_phase s of
        LoggingIn \<Rightarrow> Some (disconnected c now s)
      | Flushing d ds \<Rightarrow> Some (disconnected c now s)
      | Writing d n \<Rightarrow> Some (disconnected c now s)
      | _ \<Rightarrow> None)"
| "aprsis_step c now FlushOk s =
     (if as_phase s = FlushEnd \<or> as_phase s = BatchFlush then Some (next_round now s) else None)"
| "aprsis_step c now (FlushFails e) s =
     (if as_phase s = FlushEnd \<or> as_phase s = BatchFlush then Some (disconnected c now s) else None)"
| "aprsis_step c now (ReadSome data) s =
     (if as_phase s = Selecting \<and> CHR 0x0A \<notin> set data then Some (s\<lparr>line_buf := line_buf s @ data\<rparr>) else None)"
| "aprsis_step c now (ReadDone data answer) s =
     (if as_phase s = Selecting \<and> CHR 0x0A \<notin> set (butlast data)
      then Some (handle_line c now (line_buf s @ data) answer s) else None)"
| "aprsis_step c now (ReadFails e) s =
     (if as_phase s = Selecting then Some (disconnected c now s) else None)"
| "aprsis_step c now HeartbeatExpires s =
     (if as_phase s = Selecting \<and> timer s + cl_heartbeat c \<le> now then Some (disconnected c now s) else None)"
| "aprsis_step c now TakesMessage s =
     (if as_phase s = Selecting
      then (if queue s \<noteq> []
            then (case take_message s of (d, s) \<Rightarrow> Some (s\<lparr>as_phase := Writing d 0, line_buf := []\<rparr>))
            else if queue_closed s then Some (s\<lparr>as_phase := Stopped\<rparr>) else None)
      else if as_phase s = BackingOff
      then (if queue s \<noteq> []
            then (case take_message s of (d, s) \<Rightarrow> Some (s\<lparr>pending_writes := pending_writes s @ [d], timer := now\<rparr>))
            else if queue_closed s then Some (s\<lparr>as_phase := Stopped\<rparr>) else None)
      else None)"
| "aprsis_step c now SleepEnds s =
     (if as_phase s = BackingOff \<and> timer s + RECONNECT_BACKOFF \<le> now
      then Some (s\<lparr>as_phase := Connecting\<rparr>) else None)"

fun aprsis_run :: "aprsis_client \<Rightarrow> aprsis_state \<Rightarrow> (instant \<times> aprsis_event) list \<Rightarrow> aprsis_state option" where
  "aprsis_run c s [] = Some s"
| "aprsis_run c s ((now, e) # es) =
     (case aprsis_step c now e s of None \<Rightarrow> None | Some s' \<Rightarrow> aprsis_run c s' es)"

section \<open>Lines on the wire\<close>

text \<open>The passcode is in 0..=32767, as its comment says, and an SSID does not change it.\<close>

lemma aprs_passcode_range: "uint (aprs_passcode callsign) \<le> 32767"
proof -
  have "x AND (0x7FFF :: u16) \<le> 0x7FFF" for x by (rule word_and_le1)
  then show ?thesis by (simp add: aprs_passcode_def Let_def word_le_def)
qed

lemma aprs_passcode_ssid:
  assumes "CHR ''-'' \<notin> set call"
  shows "aprs_passcode (call @ ''-'' @ ssid) = aprs_passcode call"
  using split_char [OF assms] by (simp add: aprs_passcode_def nth_opt_def)

lemma aprs_passcode_n0call: "aprs_passcode ''N0CALL'' = 13023"
  by code_simp

interpretation aprsis_san: line_sanitizer sanitize_aprsis_line
  by unfold_locales (auto simp: sanitize_aprsis_line_def line_free_def filter_id_conv)

lemma framed_eq: "framed d = sanitize_aprsis_line d @ CRLF"
proof -
  let ?d = "sanitize_aprsis_line d"
  have "CHR 0x0A \<notin> set ?d" using aprsis_san.san_free [of d] by (simp add: line_free_def)
  then have "CHR 0x0A \<notin> set (drop (length ?d - 2) ?d)" using in_set_dropD by metis
  then have "drop (length ?d - 2) ?d \<noteq> CRLF" by (auto simp: CRLF_def)
  then show ?thesis by (simp add: framed_def)
qed

lemma show_nat_free: "line_free (show_nat n)"
proof -
  have "\<not> is_ascii_digit (CHR 0x0A)" "\<not> is_ascii_digit (CHR 0x0D)" by (simp_all add: is_ascii_digit_def)
  then show ?thesis using show_nat_digits by (auto simp: line_free_def)
qed

lemma show_int_free: "line_free (show_int i)"
  using show_nat_free by (auto simp: show_int_def line_free_def)

text \<open>The login line without its end.\<close>

definition login_text :: "aprsis_client \<Rightarrow> string" where
  "login_text c = ''user '' @ sanitize_aprsis_line (cl_login c) @ '' pass '' @ show_int (cl_passcode c)
     @ '' vers vaprs '' @ PKG_VERSION
     @ (case cl_filter c of Some f \<Rightarrow> '' filter '' @ sanitize_aprsis_line f | None \<Rightarrow> [])"

lemma login_line_eq: "login_line c = login_text c @ CRLF"
  by (simp add: login_line_def login_text_def Let_def split: option.split)

lemma login_text_free: "line_free (login_text c)"
proof -
  have "line_free ''user ''" "line_free '' pass ''" "line_free '' vers vaprs ''" "line_free PKG_VERSION"
    "line_free '' filter ''"
    by (simp_all add: line_free_def PKG_VERSION_def)
  note free = this aprsis_san.san_free show_int_free
  show ?thesis
  proof (cases "cl_filter c")
    case None
    then have "login_text c = ''user '' @ sanitize_aprsis_line (cl_login c) @ '' pass ''
      @ show_int (cl_passcode c) @ '' vers vaprs '' @ PKG_VERSION" by (simp add: login_text_def)
    then show ?thesis unfolding line_free_append by (simp only: line_free_append free)
  next
    case (Some f)
    then have "login_text c = ''user '' @ sanitize_aprsis_line (cl_login c) @ '' pass ''
      @ show_int (cl_passcode c) @ '' vers vaprs '' @ PKG_VERSION @ '' filter '' @ sanitize_aprsis_line f"
      by (simp add: login_text_def)
    then show ?thesis by (simp only: line_free_append free)
  qed
qed

section \<open>Invariants of the task\<close>

text \<open>The messages in hand: taken, not yet written, not yet lost.\<close>

fun in_hand :: "aprsis_phase \<Rightarrow> string list" where
  "in_hand (Flushing d ds) = d # ds"
| "in_hand (Writing d n) = [d]"
| "in_hand _ = []"

definition waits_to_connect :: "aprsis_phase \<Rightarrow> bool" where
  "waits_to_connect p \<longleftrightarrow> p \<in> {BackingOff, Connecting, LoggingIn, Stopped}"

fun logged_in :: "aprsis_phase \<Rightarrow> bool" where
  "logged_in (Flushing d ds) = True"
| "logged_in FlushEnd = True"
| "logged_in Selecting = True"
| "logged_in (Writing d n) = True"
| "logged_in BatchFlush = True"
| "logged_in _ = False"

definition aprsis_inv :: "aprsis_client \<Rightarrow> aprsis_state \<Rightarrow> bool" where
  "aprsis_inv c s \<longleftrightarrow>
     subseq (written s @ in_hand (as_phase s) @ pending_writes s) (taken s)
     \<and> (pending_writes s = [] \<or> waits_to_connect (as_phase s))
     \<and> (wire s = [] \<and> sent_here s = [] \<or> wire s = login_line c # map framed (sent_here s))
     \<and> (logged_in (as_phase s) \<longrightarrow> wire s \<noteq> [])
     \<and> (as_phase s = LoggingIn \<longrightarrow> wire s = [])"

lemma aprsis_inv_start: "aprsis_inv c (aprsis_start c)"
  by (simp add: aprsis_inv_def aprsis_start_def)

lemma subseq_drop_mid: "subseq (xs @ ys @ zs) ws \<Longrightarrow> subseq (xs @ zs) ws"
proof -
  have "subseq (xs @ zs) (xs @ ys @ zs)" by (intro list_emb_append_mono) (auto simp: list_emb_append2)
  then show "subseq (xs @ ys @ zs) ws \<Longrightarrow> subseq (xs @ zs) ws" by (rule subseq_order.trans)
qed

lemma subseq_snoc: "subseq xs ys \<Longrightarrow> subseq (xs @ [d]) (ys @ [d])"
  by (intro list_emb_append_mono) auto

lemma disconnected_inv:
  assumes "aprsis_inv c s"
  shows "aprsis_inv c (disconnected c now s)"
  using assms subseq_drop_mid [of "written s" "in_hand (as_phase s)" "pending_writes s"]
  by (auto simp: aprsis_inv_def disconnected_def waits_to_connect_def)

lemma next_round_inv:
  assumes "aprsis_inv c s" "as_phase s \<in> {Selecting, FlushEnd, BatchFlush}"
  shows "aprsis_inv c (next_round now s)"
proof -
  have "in_hand (as_phase s) = []" "pending_writes s = []" "wire s \<noteq> []"
    using assms by (auto simp: aprsis_inv_def waits_to_connect_def)
  then show ?thesis using assms(1) by (auto simp: aprsis_inv_def next_round_def)
qed

lemma handle_line_inv:
  assumes "aprsis_inv c s" "as_phase s = Selecting"
  shows "aprsis_inv c (handle_line c now data answer s)"
proof -
  have "aprsis_inv c (s\<lparr>delivered := ps\<rparr>)" for ps using assms by (auto simp: aprsis_inv_def)
  moreover have "aprsis_inv c (s\<lparr>as_phase := Stopped\<rparr>)" using assms by (auto simp: aprsis_inv_def waits_to_connect_def)
  ultimately show ?thesis
    using assms next_round_inv disconnected_inv
    by (auto simp: handle_line_def Let_def split: aprsis_answer.split)
qed

lemma write_ok_inv:
  assumes "aprsis_inv c s" "aprsis_step c now WriteOk s = Some s'"
  shows "aprsis_inv c s'"
proof (cases "as_phase s")
  case LoggingIn
  then show ?thesis
    using assms by (cases "pending_writes s") (auto simp: aprsis_inv_def flush_next_def)
next
  case (Flushing d ds)
  then show ?thesis
    using assms by (cases ds) (auto simp: aprsis_inv_def flush_next_def wrote_def waits_to_connect_def)
next
  case (Writing d n)
  have sub: "subseq (written s @ [d]) (taken s)"
    using assms(1) Writing by (auto simp: aprsis_inv_def waits_to_connect_def)
  have "subseq (written s @ [d, hd (queue s)]) (taken s @ [hd (queue s)])"
    using subseq_snoc [OF sub] by simp
  with sub Writing show ?thesis
    using assms
    by (auto simp: aprsis_inv_def wrote_def take_message_def Let_def waits_to_connect_def split: if_splits)
qed (use assms in auto)

lemma aprsis_step_inv:
  assumes "aprsis_inv c s" "aprsis_step c now e s = Some s'"
  shows "aprsis_inv c s'"
proof (cases e)
  case TakesMessage
  have "subseq (written s @ in_hand (as_phase s) @ pending_writes s) (taken s)" using assms(1) by (simp add: aprsis_inv_def)
  from subseq_snoc [OF this, of "hd (queue s)"] TakesMessage show ?thesis
    using assms
    by (auto simp: aprsis_inv_def take_message_def waits_to_connect_def split: if_splits)
next
  case WriteOk
  then show ?thesis using assms write_ok_inv by blast
next
  case (ReadDone data answer)
  then show ?thesis using assms handle_line_inv by (auto split: if_splits)
next
  case FlushOk
  then show ?thesis using assms next_round_inv by (auto split: if_splits)
next
  case ConnectOk
  then show ?thesis using assms by (auto simp: aprsis_inv_def waits_to_connect_def split: if_splits)
next
  case SleepEnds
  then show ?thesis using assms by (auto simp: aprsis_inv_def waits_to_connect_def split: if_splits)
next
  case (WriteFails x)
  then have "s' = disconnected c now s" using assms(2) by (auto split: aprsis_phase.splits)
  then show ?thesis using assms(1) disconnected_inv by simp
next
  case (ConnectFails x)
  then have "s' = disconnected c now s" using assms(2) by (auto split: if_splits)
  then show ?thesis using assms(1) disconnected_inv by simp
next
  case ConnectTimeout
  then have "s' = disconnected c now s" using assms(2) by (auto split: if_splits)
  then show ?thesis using assms(1) disconnected_inv by simp
next
  case (FlushFails x)
  then have "s' = disconnected c now s" using assms(2) by (auto split: if_splits)
  then show ?thesis using assms(1) disconnected_inv by simp
next
  case (ReadFails x)
  then have "s' = disconnected c now s" using assms(2) by (auto split: if_splits)
  then show ?thesis using assms(1) disconnected_inv by simp
next
  case HeartbeatExpires
  then have "s' = disconnected c now s" using assms(2) by (auto split: if_splits)
  then show ?thesis using assms(1) disconnected_inv by simp
next
  case (ReadSome data)
  then have "s' = s\<lparr>line_buf := line_buf s @ data\<rparr>" using assms(2) by (auto split: if_splits)
  then show ?thesis using assms(1) by (simp add: aprsis_inv_def)
next
  case (Enqueue d)
  then have "s' = s\<lparr>queue := queue s @ [d]\<rparr>" using assms(2) by (auto split: if_splits)
  then show ?thesis using assms(1) by (simp add: aprsis_inv_def)
next
  case CloseQueue
  then have "s' = s\<lparr>queue_closed := True\<rparr>" using assms(2) by simp
  then show ?thesis using assms(1) by (simp add: aprsis_inv_def)
qed

lemma aprsis_run_inv: "aprsis_inv c s \<Longrightarrow> aprsis_run c s es = Some s' \<Longrightarrow> aprsis_inv c s'"
  by (induction c s es rule: aprsis_run.induct) (auto dest: aprsis_step_inv split: option.splits)

section \<open>What reaches the server\<close>

fun enqueued :: "(instant \<times> aprsis_event) list \<Rightarrow> string list" where
  "enqueued [] = []"
| "enqueued ((t, Enqueue d) # es) = d # enqueued es"
| "enqueued (_ # es) = enqueued es"

text \<open>All that was taken or still waits is what was put on the queue, in its order.\<close>

lemma enqueued_cons: "enqueued ((t, e) # es) = (case e of Enqueue d \<Rightarrow> [d] | _ \<Rightarrow> []) @ enqueued es"
  by (cases e) simp_all

lemma handle_line_queue:
  "taken (handle_line c now data a s) = taken s" "queue (handle_line c now data a s) = queue s"
  "written (handle_line c now data a s) = written s"
  "pending_writes (handle_line c now data a s) = pending_writes s"
  by (simp_all add: handle_line_def disconnected_def next_round_def Let_def split: aprsis_answer.split)

lemmas queue_steps =
  handle_line_queue disconnected_def next_round_def flush_next_def wrote_def take_message_def Let_def

lemma aprsis_step_queue:
  assumes "aprsis_step c now e s = Some s'"
  shows "taken s' @ queue s' = taken s @ queue s @ (case e of Enqueue d \<Rightarrow> [d] | _ \<Rightarrow> [])"
  using assms
  by (cases e) (auto simp: queue_steps split: if_splits aprsis_phase.splits)

lemma aprsis_run_queue:
  "aprsis_run c s es = Some s' \<Longrightarrow> taken s' @ queue s' = taken s @ queue s @ enqueued es"
proof (induction c s es rule: aprsis_run.induct)
  case (2 c s now e es)
  then obtain s1 where "aprsis_step c now e s = Some s1" "aprsis_run c s1 es = Some s'"
    by (auto split: option.splits)
  then show ?case using 2(1) aprsis_step_queue [of c now e s s1] by (simp add: enqueued_cons)
qed simp

text \<open>Without a failed write nothing that was taken is lost.\<close>

definition all_kept :: "aprsis_state \<Rightarrow> bool" where
  "all_kept s \<longleftrightarrow> written s @ in_hand (as_phase s) @ pending_writes s = taken s"

fun is_write_failure :: "aprsis_event \<Rightarrow> bool" where
  "is_write_failure (WriteFails e) = True"
| "is_write_failure _ = False"

lemma idle_empty_hand:
  assumes "aprsis_inv c s" "all_kept s" "as_phase s \<in> {Selecting, FlushEnd, BatchFlush}"
  shows "written s = taken s" "pending_writes s = []"
  using assms by (auto simp: aprsis_inv_def all_kept_def waits_to_connect_def)

lemma disconnected_kept: "all_kept s \<Longrightarrow> in_hand (as_phase s) = [] \<Longrightarrow> all_kept (disconnected c now s)"
  by (simp add: all_kept_def disconnected_def)

lemma handle_line_kept: "all_kept s \<Longrightarrow> as_phase s = Selecting \<Longrightarrow> all_kept (handle_line c now data a s)"
  by (simp add: all_kept_def handle_line_def disconnected_def next_round_def Let_def split: aprsis_answer.split)

lemma write_ok_kept:
  assumes "aprsis_inv c s" "all_kept s" "aprsis_step c now WriteOk s = Some s'"
  shows "all_kept s'"
proof (cases "as_phase s")
  case LoggingIn
  then show ?thesis
    using assms by (cases "pending_writes s") (auto simp: all_kept_def flush_next_def)
next
  case (Flushing d ds)
  then have "pending_writes s = []" using assms(1) by (auto simp: aprsis_inv_def waits_to_connect_def)
  with Flushing show ?thesis
    using assms(2,3) by (cases ds) (auto simp: all_kept_def flush_next_def wrote_def)
next
  case (Writing d n)
  then have "pending_writes s = []" using assms(1) by (auto simp: aprsis_inv_def waits_to_connect_def)
  with Writing have "written s @ [d] = taken s" using assms(2) by (simp add: all_kept_def)
  with Writing \<open>pending_writes s = []\<close> show ?thesis
    using assms(3) by (auto simp: all_kept_def wrote_def take_message_def Let_def split: if_splits)
qed (use assms in auto)

lemma takes_message_kept:
  assumes "aprsis_inv c s" "all_kept s" "aprsis_step c now TakesMessage s = Some s'"
  shows "all_kept s'"
proof (cases "as_phase s = Selecting")
  case True
  then have "written s = taken s" "pending_writes s = []" using idle_empty_hand assms(1,2) by auto
  with True show ?thesis using assms(3) by (auto simp: all_kept_def take_message_def split: if_splits)
next
  case False
  then have "as_phase s = BackingOff" using assms(3) by (auto split: if_splits)
  then have "written s @ pending_writes s = taken s" using assms(2) by (simp add: all_kept_def)
  then have "written s @ pending_writes s @ [d] = taken s @ [d]" for d by simp
  with \<open>as_phase s = BackingOff\<close> show ?thesis
    using assms(2,3) by (auto simp: all_kept_def take_message_def split: if_splits)
qed

lemma aprsis_step_kept:
  assumes "aprsis_inv c s" "all_kept s" "\<not> is_write_failure e" "aprsis_step c now e s = Some s'"
  shows "all_kept s'"
proof (cases e)
  case WriteOk then show ?thesis using assms write_ok_kept by blast
next
  case TakesMessage then show ?thesis using assms takes_message_kept by blast
next
  case (ReadDone data a)
  then show ?thesis using assms(2,4) handle_line_kept by (auto split: if_splits)
next
  case FlushOk
  then show ?thesis using assms(2,4) by (auto simp: all_kept_def next_round_def split: if_splits)
qed (use assms disconnected_kept in \<open>auto simp: all_kept_def disconnected_def split: if_splits\<close>)

lemma aprsis_run_kept:
  "aprsis_run c s es = Some s' \<Longrightarrow> aprsis_inv c s \<Longrightarrow> all_kept s
    \<Longrightarrow> \<forall>(t, e)\<in>set es. \<not> is_write_failure e \<Longrightarrow> all_kept s'"
proof (induction c s es rule: aprsis_run.induct)
  case (2 c s now e es)
  then obtain s1 where step: "aprsis_step c now e s = Some s1" and rest: "aprsis_run c s1 es = Some s'"
    by (auto split: option.splits)
  have "\<not> is_write_failure e" using 2(5) by simp
  then have "all_kept s1" "aprsis_inv c s1" using aprsis_step_kept aprsis_step_inv step 2(3,4) by blast+
  then show ?case using 2(1) [OF step rest] 2(5) by simp
qed simp

text \<open>Whatever the network and the queue do, what the client writes on a connection is the login line
  and then one line for each message written, with every CR and LF of the message taken out: no message can
  add a line of its own or change the login.\<close>

theorem aprsis_wire_lines:
  assumes "aprsis_run c (aprsis_start c) es = Some s" "wire s \<noteq> []"
  shows "str_split (\<lambda>x. x = CHR 0x0A) (concat (wire s))
    = (login_text c @ [CHR 0x0D]) # map (\<lambda>m. sanitize_aprsis_line m @ [CHR 0x0D]) (sent_here s) @ [[]]"
proof -
  have "wire s = login_line c # map framed (sent_here s)"
    using aprsis_run_inv [OF aprsis_inv_start assms(1)] assms(2) by (auto simp: aprsis_inv_def)
  also have "\<dots> = map (\<lambda>m. sanitize_aprsis_line m @ CRLF) (login_text c # sent_here s)"
    using aprsis_san.san_id [OF login_text_free] by (simp add: login_line_eq framed_eq [abs_def])
  finally show ?thesis
    using aprsis_san.wire_lines [of "login_text c # sent_here s"] aprsis_san.san_id [OF login_text_free] by simp
qed

text \<open>C10: the client sends the queued messages in the order of the queue and none twice, and unless a write
  fails none is lost: each is written, in the client's hands, buffered for the next connection, or still
  queued.\<close>

theorem aprsis_loses_only_on_write_errors:
  assumes "aprsis_run c (aprsis_start c) es = Some s"
  shows "subseq (written s) (enqueued es)
    \<and> ((\<forall>(t, e)\<in>set es. \<not> is_write_failure e)
       \<longrightarrow> written s @ in_hand (as_phase s) @ pending_writes s @ queue s = enqueued es)"
proof (intro conjI impI)
  have eq: "taken s @ queue s = enqueued es"
    using aprsis_run_queue [OF assms] by (simp add: aprsis_start_def)
  have "subseq (written s @ in_hand (as_phase s) @ pending_writes s) (taken s)"
    using aprsis_run_inv [OF aprsis_inv_start assms] by (simp add: aprsis_inv_def)
  then have "subseq (written s) (taken s)"
    using subseq_drop_mid [of "written s" "in_hand (as_phase s) @ pending_writes s" "[]" "taken s"] by simp
  then have "subseq (written s) (taken s @ queue s)" by (rule list_emb_prefix)
  then show "subseq (written s) (enqueued es)" by (simp add: eq)
  assume "\<forall>(t, e)\<in>set es. \<not> is_write_failure e"
  then have "all_kept s"
    using aprsis_run_kept [OF assms aprsis_inv_start] by (simp add: all_kept_def aprsis_start_def)
  with eq show "written s @ in_hand (as_phase s) @ pending_writes s @ queue s = enqueued es"
    unfolding all_kept_def by (metis append_assoc)
qed

section \<open>Witnesses\<close>

definition demo_client :: aprsis_client where
  "demo_client = \<lparr>cl_login = ''N0CALL'', cl_passcode = 13023, cl_servers = [''a:14580'', ''b:14580''],
     cl_filter = Some ''m/100'', cl_heartbeat = from_secs 120, cl_log_traffic = False\<rparr>"

text \<open>A session: a message with a line break in it is queued while the client connects, and written
  after the login.\<close>

definition demo_events :: "(instant \<times> aprsis_event) list" where
  "demo_events = [(0, Enqueue (''A'' @ CRLF @ ''B'')), (1, ConnectOk), (2, WriteOk), (3, FlushOk), (4, TakesMessage),
     (5, WriteOk), (6, FlushOk)]"

lemmas demo_eval =
  demo_events_def demo_client_def aprsis_start_def flush_next_def wrote_def take_message_def next_round_def
  Let_def WRITE_BATCH_MAX_def CRLF_def

theorem aprsis_wire_lines_witness:
  "\<exists>s. aprsis_run demo_client (aprsis_start demo_client) demo_events = Some s
    \<and> sent_here s = [''A'' @ CRLF @ ''B'']
    \<and> str_split (\<lambda>x. x = CHR 0x0A) (concat (wire s))
      = [login_text demo_client @ [CHR 0x0D], ''AB'' @ [CHR 0x0D], []]"
proof -
  obtain s where run: "aprsis_run demo_client (aprsis_start demo_client) demo_events = Some s"
    and "wire s \<noteq> []" and sent: "sent_here s = [''A'' @ CRLF @ ''B'']"
    by (simp add: demo_eval)
  from aprsis_wire_lines [OF run this(2)] sent run show ?thesis
    by (simp add: sanitize_aprsis_line_def CRLF_def)
qed

theorem aprsis_loses_only_on_write_errors_witness:
  "\<exists>s. aprsis_run demo_client (aprsis_start demo_client) demo_events = Some s
    \<and> subseq (written s) (enqueued demo_events)
    \<and> written s @ in_hand (as_phase s) @ pending_writes s @ queue s = [''A'' @ CRLF @ ''B'']"
proof -
  obtain s where run: "aprsis_run demo_client (aprsis_start demo_client) demo_events = Some s"
    by (simp add: demo_eval)
  have "\<forall>(t, e)\<in>set demo_events. \<not> is_write_failure e" "enqueued demo_events = [''A'' @ CRLF @ ''B'']"
    by (simp_all add: demo_events_def)
  with aprsis_loses_only_on_write_errors [OF run] run show ?thesis by auto
qed

section \<open>What the code does not do\<close>

text \<open>A message that comes before the ten seconds of the backoff are over starts them anew: with a
  message at least every ten seconds the client buffers without end and does not connect.\<close>

fun arrivals :: "(instant \<times> string) list \<Rightarrow> (instant \<times> aprsis_event) list" where
  "arrivals [] = []"
| "arrivals ((t, d) # ds) = (t, Enqueue d) # (t, TakesMessage) # arrivals ds"

fun never_quiet :: "instant \<Rightarrow> (instant \<times> string) list \<Rightarrow> bool" where
  "never_quiet t0 [] = True"
| "never_quiet t0 ((t, d) # ds) \<longleftrightarrow> t0 \<le> t \<and> t < t0 + RECONNECT_BACKOFF \<and> never_quiet t ds"

theorem aprsis_backoff_starved:
  assumes "as_phase s = BackingOff" "\<not> queue_closed s" "queue s = []" "never_quiet (timer s) ds"
  shows "\<exists>s'. aprsis_run c s (arrivals ds) = Some s' \<and> as_phase s' = BackingOff
    \<and> pending_writes s' = pending_writes s @ map snd ds
    \<and> (ds \<noteq> [] \<longrightarrow> aprsis_step c (fst (hd ds)) SleepEnds s = None)
    \<and> timer s' = (if ds = [] then timer s else fst (last ds))"
  using assms
proof (induction ds arbitrary: s)
  case (Cons td ds)
  obtain t d where td: "td = (t, d)" by (cases td)
  let ?s = "s\<lparr>queue := [], taken := taken s @ [d], pending_writes := pending_writes s @ [d], timer := t\<rparr>"
  have "aprsis_run c s (arrivals (td # ds)) = aprsis_run c ?s (arrivals ds)"
    using Cons.prems by (simp add: td take_message_def)
  moreover have "as_phase ?s = BackingOff" "\<not> queue_closed ?s" "queue ?s = []" "never_quiet (timer ?s) ds"
    using Cons.prems by (simp_all add: td)
  moreover have "aprsis_step c t SleepEnds s = None" using Cons.prems by (simp add: td)
  ultimately show ?case using Cons.IH [of ?s] by (auto simp: td)
qed simp

end
