(* ===== verification/Beacon.thy ===== *)
theory Beacon
  imports Config Packet "HOL-Library.Monad_Syntax"
begin

text \<open>
  \<open>src/beacon.rs\<close>: the beacon scheduler. Outside the code are the file system (\<open>fs\<close>, what
  \<open>read_to_string\<close> returns), the shell (\<open>sh\<close>, a child process as the answers of its successive \<open>try_wait\<close>
  calls and its output) and the hash of the wall clock and a seed (\<open>hash\<close>, any function: the
  time is different at every call, and so is the seed). A panic is \<^const>\<open>None\<close>. The lemmas
  show which beacons a poll fires and when each fires again.
\<close>

section \<open>Contents\<close>

definition MAX_BEACON_OUTPUT_LEN :: nat where "MAX_BEACON_OUTPUT_LEN = 1024"

text \<open>A \<open>char\<close> is the string of its UTF-8 bytes.\<close>

datatype beacon_content =
    PositionBeacon string string string string "string option"
  | RawBeacon string
  | FileBeacon string
  | ExecBeacon string duration

record beacon =
  bn_content :: beacon_content
  bn_mode :: beacon_mode
  bn_transmitter :: "string option"
  bn_via :: "string option"

definition format_position_beacon ::
  "string \<Rightarrow> string \<Rightarrow> string \<Rightarrow> string \<Rightarrow> string \<Rightarrow> string option \<Rightarrow> string" where
  "format_position_beacon mycall lat lon symbol_table symbol_code comment =
     (case comment of
        Some c \<Rightarrow> mycall @ ''>APRS:!'' @ lat @ symbol_table @ lon @ symbol_code @ c
      | None \<Rightarrow> mycall @ ''>APRS:!'' @ lat @ symbol_table @ lon @ symbol_code)"

definition parse_symbol :: "string \<Rightarrow> (string \<times> string) option" where
  "parse_symbol symbol_str =
     do {
       (table, rest) \<leftarrow> next_char symbol_str;
       (code, rest) \<leftarrow> next_char rest;
       (if next_char rest \<noteq> None then None else Some (table, code))
     }"

text \<open>The products are \<open>u64\<close> multiplications, which wrap in a release build.\<close>

definition parse_duration :: "string \<Rightarrow> duration option may_panic" where
  "parse_duration s =
     (let s = trim s
      in if s = [] then Some None
         else do {
           num_str \<leftarrow> str_to s (length s - 1);
           let suffix = drop (length s - 1) s;
           Some (case parse_unsigned (2 ^ 64) num_str of
                   None \<Rightarrow> None
                 | Some value \<Rightarrow>
                     if suffix = ''s'' then Some (from_secs value)
                     else if suffix = ''m'' then Some (from_secs (value * 60 mod 2 ^ 64))
                     else if suffix = ''h'' then Some (from_secs (value * 3600 mod 2 ^ 64))
                     else None)
         })"

definition maybe_add_via :: "string \<Rightarrow> string option \<Rightarrow> string" where
  "maybe_add_via p via =
     (case via of
        Some v \<Rightarrow>
          if v \<noteq> [] then
            (case str_find (\<lambda>c. c = CHR '':'') p of
               Some colon_pos \<Rightarrow> take colon_pos p @ '','' @ v @ drop colon_pos p
             | None \<Rightarrow> p)
          else p
      | None \<Rightarrow> p)"

section \<open>Commands\<close>

datatype wait_poll = Exited bool | Running | WaitError

text \<open>A child process: the answer of the \<open>i\<close>th \<open>try_wait\<close>, by how much that call comes later than
  the sleeps of 50 milliseconds before it, and what \<open>wait_with_output\<close> returns.\<close>

record shell_child =
  ch_poll :: "nat \<Rightarrow> wait_poll"
  ch_delay :: "nat \<Rightarrow> duration"
  ch_output :: "string option"

definition POLL_SLEEP :: duration where "POLL_SLEEP = 50000000"

definition ch_elapsed :: "shell_child \<Rightarrow> nat \<Rightarrow> duration" where
  "ch_elapsed ch i = i * POLL_SLEEP + ch_delay ch i"

definition command_text :: "string \<Rightarrow> string option may_panic" where
  "command_text out =
     (let text = trim (from_utf8_lossy out)
      in do {
        text \<leftarrow> (if length text > MAX_BEACON_OUTPUT_LEN then str_to text MAX_BEACON_OUTPUT_LEN else Some text);
        Some (if text = [] then None else Some text)
      })"

function wait_child :: "duration \<Rightarrow> shell_child \<Rightarrow> nat \<Rightarrow> string option may_panic" where
  "wait_child timeout ch i =
     (case ch_poll ch i of
        Exited success \<Rightarrow>
          if \<not> success then Some None
          else (case ch_output ch of None \<Rightarrow> Some None | Some out \<Rightarrow> command_text out)
      | Running \<Rightarrow> if ch_elapsed ch i > timeout then Some None else wait_child timeout ch (Suc i)
      | WaitError \<Rightarrow> Some None)"
  by pat_completeness auto

lemma elapsed_grows: "\<not> ch_elapsed ch i > timeout \<Longrightarrow> i \<le> timeout"
proof -
  have "i \<le> i * POLL_SLEEP" by (simp add: POLL_SLEEP_def)
  then show "\<not> ch_elapsed ch i > timeout \<Longrightarrow> i \<le> timeout" unfolding ch_elapsed_def by linarith
qed

termination wait_child
  by (relation "measure (\<lambda>(timeout, ch, i). Suc timeout - i)") (auto dest: elapsed_grows)

declare wait_child.simps [simp del]

definition run_beacon_command ::
  "(string \<Rightarrow> shell_child option) \<Rightarrow> string \<Rightarrow> duration \<Rightarrow> string option may_panic" where
  "run_beacon_command sh command timeout =
     (case sh command of None \<Rightarrow> Some None | Some child \<Rightarrow> wait_child timeout child 0)"

section \<open>Formatting\<close>

definition format_beacon_content ::
  "(string \<Rightarrow> string option) \<Rightarrow> (string \<Rightarrow> shell_child option) \<Rightarrow> beacon_content \<Rightarrow> string \<Rightarrow> string option
     \<Rightarrow> string option may_panic" where
  "format_beacon_content fs sh content mycall via =
     (case content of
        PositionBeacon lat lon symbol_table symbol_code comment \<Rightarrow>
          (let base = format_position_beacon mycall lat lon symbol_table symbol_code comment
           in Some (Some (maybe_add_via base via)))
      | RawBeacon t \<Rightarrow>
          (let line = mycall @ ''>APRS:'' @ t in Some (Some (maybe_add_via line via)))
      | FileBeacon path \<Rightarrow>
          (case fs path of
             Some t \<Rightarrow>
               (let t = trim t
                in if t = [] then Some None
                   else do {
                     t \<leftarrow> (if length t > MAX_BEACON_OUTPUT_LEN then str_to t MAX_BEACON_OUTPUT_LEN else Some t);
                     let line = mycall @ ''>APRS:'' @ t;
                     Some (Some (maybe_add_via line via))
                   })
           | None \<Rightarrow> Some None)
      | ExecBeacon command timeout \<Rightarrow>
          do {
            r \<leftarrow> run_beacon_command sh command timeout;
            Some (case r of
                    Some t \<Rightarrow> (let line = mycall @ ''>APRS:'' @ t in Some (maybe_add_via line via))
                  | None \<Rightarrow> None)
          })"

section \<open>The scheduler\<close>

definition random_jitter :: "(u64 \<Rightarrow> u64) \<Rightarrow> u64 \<Rightarrow> rat" where
  "random_jitter hash seed =
     (let fraction = of_nat (unat (hash seed) mod 2001) / 10000 in 8 / 10 + fraction)"

definition jittered_duration :: "(u64 \<Rightarrow> u64) \<Rightarrow> duration \<Rightarrow> u64 \<Rightarrow> duration" where
  "jittered_duration hash base seed = round_even (of_nat base * random_jitter hash seed)"

text \<open>\<open>Instant + Duration\<close> panics where the seconds leave an \<open>i64\<close>.\<close>

definition instant_add :: "instant \<Rightarrow> duration \<Rightarrow> instant may_panic" where
  "instant_add t d = (if t + d < from_secs (2 ^ 63) then Some (t + d) else None)"

record scheduled_beacon =
  sb_beacon :: beacon
  sb_mycall :: string
  sb_interval :: duration
  next_fire :: instant

record beacon_scheduler =
  bs_beacons :: "scheduled_beacon list"
  fire_counter :: u64

definition scheduler_new :: beacon_scheduler where
  "scheduler_new = \<lparr>bs_beacons = [], fire_counter = 0\<rparr>"

definition scheduler_len :: "beacon_scheduler \<Rightarrow> nat" where
  "scheduler_len s = length (bs_beacons s)"

definition scheduler_is_empty :: "beacon_scheduler \<Rightarrow> bool" where
  "scheduler_is_empty s \<longleftrightarrow> bs_beacons s = []"

definition add_beacon ::
  "(u64 \<Rightarrow> u64) \<Rightarrow> instant \<Rightarrow> beacon_scheduler \<Rightarrow> beacon \<Rightarrow> string \<Rightarrow> duration \<Rightarrow> beacon_scheduler may_panic" where
  "add_beacon hash now s b mycall interval =
     do {
       next \<leftarrow> instant_add now (jittered_duration hash interval (of_nat (length (bs_beacons s))));
       Some (s\<lparr>bs_beacons := bs_beacons s @
         [\<lparr>sb_beacon = b, sb_mycall = mycall, sb_interval = interval, next_fire = next\<rparr>]\<rparr>)
     }"

type_synonym fired = "string \<times> beacon_mode \<times> string option"

text \<open>The loop of \<open>poll\<close>, over the beacons that are left.\<close>

fun poll_loop ::
  "(string \<Rightarrow> string option) \<Rightarrow> (string \<Rightarrow> shell_child option) \<Rightarrow> (u64 \<Rightarrow> u64) \<Rightarrow> instant
     \<Rightarrow> u64 \<Rightarrow> scheduled_beacon list \<Rightarrow> (fired list \<times> scheduled_beacon list \<times> u64) may_panic" where
  "poll_loop fs sh hash now counter [] = Some ([], [], counter)"
| "poll_loop fs sh hash now counter (b # bs) =
     (if now < next_fire b
      then do {
        (rs, bs, counter) \<leftarrow> poll_loop fs sh hash now counter bs;
        Some (rs, b # bs, counter)
      }
      else do {
        formatted \<leftarrow> format_beacon_content fs sh (bn_content (sb_beacon b)) (sb_mycall b) (bn_via (sb_beacon b));
        let result = (case formatted of
                        Some t \<Rightarrow> [(t, bn_mode (sb_beacon b), bn_transmitter (sb_beacon b))]
                      | None \<Rightarrow> []);
        let counter = counter + 1;
        next \<leftarrow> instant_add now (jittered_duration hash (sb_interval b) counter);
        (rs, bs, counter) \<leftarrow> poll_loop fs sh hash now counter bs;
        Some (result @ rs, b\<lparr>next_fire := next\<rparr> # bs, counter)
      })"

definition poll ::
  "(string \<Rightarrow> string option) \<Rightarrow> (string \<Rightarrow> shell_child option) \<Rightarrow> (u64 \<Rightarrow> u64) \<Rightarrow> instant
     \<Rightarrow> beacon_scheduler \<Rightarrow> (fired list \<times> beacon_scheduler) may_panic" where
  "poll fs sh hash now s =
     do {
       (rs, bs, counter) \<leftarrow> poll_loop fs sh hash now (fire_counter s) (bs_beacons s);
       Some (rs, s\<lparr>bs_beacons := bs, fire_counter := counter\<rparr>)
     }"

section \<open>The scheduler of a configuration\<close>

definition beacon_interval :: "nat \<Rightarrow> beacon_config \<Rightarrow> duration may_panic" where
  "beacon_interval num_beacons bc =
     do {
       parsed \<leftarrow> (case bc_cycle_size bc of None \<Rightarrow> Some None | Some cs \<Rightarrow> parse_duration cs);
       let cycle = unwrap_or parsed (from_secs (20 * 60));
       (if num_beacons > 0
        then (if num_beacons mod 2 ^ 32 = 0 then None else Some (cycle div (num_beacons mod 2 ^ 32)))
        else Some cycle)
     }"

definition config_content :: "location_config option \<Rightarrow> beacon_config \<Rightarrow> beacon_content option" where
  "config_content location bc =
     (case bc_symbol bc of
        Some symbol_str \<Rightarrow>
          (case location of
             Some loc \<Rightarrow>
               (let (table, code) = unwrap_or (parse_symbol symbol_str) (''/'', ''>'')
                in Some (PositionBeacon (loc_lat loc) (loc_lon loc) table code (bc_comment bc)))
           | None \<Rightarrow> None)
      | None \<Rightarrow>
          (case bc_comment bc of Some comment \<Rightarrow> Some (RawBeacon comment) | None \<Rightarrow> None))"

text \<open>The loop of \<open>from_config\<close>; \<open>clock i\<close> is the time read for the \<open>i\<close>th beacon of the configuration.\<close>

fun add_config_beacons ::
  "(u64 \<Rightarrow> u64) \<Rightarrow> (nat \<Rightarrow> instant) \<Rightarrow> config \<Rightarrow> nat \<Rightarrow> beacon_config list \<Rightarrow> beacon_scheduler
     \<Rightarrow> beacon_scheduler may_panic" where
  "add_config_beacons hash clock cfg i [] s = Some s"
| "add_config_beacons hash clock cfg i (bc # bcs) s =
     do {
       interval \<leftarrow> beacon_interval (length (cfg_beacons cfg)) bc;
       let mode = unwrap_or (bc_mode bc) Both;
       s \<leftarrow> (case config_content (cfg_location cfg) bc of
              None \<Rightarrow> Some s
            | Some content \<Rightarrow>
                add_beacon hash (clock i) s
                  \<lparr>bn_content = content, bn_mode = mode, bn_transmitter = bc_transmitter bc, bn_via = bc_via bc\<rparr>
                  (cfg_mycall cfg) interval);
       add_config_beacons hash clock cfg (Suc i) bcs s
     }"

definition scheduler_from_config ::
  "(u64 \<Rightarrow> u64) \<Rightarrow> (nat \<Rightarrow> instant) \<Rightarrow> config \<Rightarrow> beacon_scheduler may_panic" where
  "scheduler_from_config hash clock cfg =
     (if cfg_beacons cfg = [] then Some scheduler_new
      else add_config_beacons hash clock cfg 0 (cfg_beacons cfg) scheduler_new)"

section \<open>Jitter and intervals\<close>

lemma random_jitter_bounds: "8 / 10 \<le> random_jitter hash seed \<and> random_jitter hash seed \<le> 1"
proof -
  have "unat (hash seed) mod 2001 \<le> 2000" by simp
  then have "(of_nat (unat (hash seed) mod 2001) :: rat) \<le> 2000" by (metis of_nat_le_iff of_nat_numeral)
  then show ?thesis by (simp add: random_jitter_def)
qed

text \<open>Between four fifths of the interval and the interval, up to half a nanosecond.\<close>

lemma jittered_bounds:
  "5 * jittered_duration hash base seed + 3 > 4 * base" "jittered_duration hash base seed \<le> base"
proof -
  let ?f = "random_jitter hash seed" and ?j = "jittered_duration hash base seed"
  let ?x = "of_nat base * ?f :: rat"
  note f = random_jitter_bounds [of hash seed]
  have lo: "of_nat base * (8 / 10) \<le> ?x" by (rule mult_left_mono) (use f in auto)
  have hi: "?x \<le> of_nat base" using mult_left_le [of ?f "of_nat base"] f by auto
  have x0: "0 \<le> ?x" using lo by (rule order_trans [rotated]) simp
  have c: "\<bar>of_nat ?j - ?x\<bar> \<le> 1 / 2" unfolding jittered_duration_def by (rule round_even_close [OF x0])
  have near: "?x - 1 / 2 \<le> of_nat ?j" "of_nat ?j \<le> ?x + 1 / 2" using c by (simp_all only: abs_le_iff) linarith+
  have "(4 * of_nat base :: rat) < 5 * of_nat ?j + 3" using lo near(1) by linarith
  then have "(of_nat (4 * base) :: rat) < of_nat (5 * ?j + 3)" by simp
  then show "5 * ?j + 3 > 4 * base" by (simp only: of_nat_less_iff)
  have "(of_nat ?j :: rat) < of_nat base + 1" using hi near(2) by linarith
  then have "(of_nat ?j :: rat) < of_nat (base + 1)" by simp
  then show "?j \<le> base" by (simp only: of_nat_less_iff less_Suc_eq_le Suc_eq_plus1 [symmetric])
qed

section \<open>Polls\<close>

text \<open>What a poll at \<open>now\<close> does to a beacon: nothing before it is due, and when it is, the next
  firing is between four fifths of the interval and the interval away.\<close>

definition polled :: "instant \<Rightarrow> scheduled_beacon \<Rightarrow> scheduled_beacon \<Rightarrow> bool" where
  "polled now b b' \<longleftrightarrow>
     (if now < next_fire b then b' = b
      else (\<exists>d. b' = b\<lparr>next_fire := now + d\<rparr> \<and> 4 * sb_interval b < 5 * d + 3 \<and> d \<le> sb_interval b))"

lemma poll_loop_polled:
  "poll_loop fs sh hash now counter bs = Some (rs, bs', counter') \<Longrightarrow> list_all2 (polled now) bs bs'"
proof (induction bs arbitrary: counter rs bs' counter')
  case (Cons b bs)
  show ?case
  proof (cases "now < next_fire b")
    case True
    with Cons.prems obtain bs2 where rest: "poll_loop fs sh hash now counter bs = Some (rs, bs2, counter')"
      and bs': "bs' = b # bs2"
      by (auto simp: bind_eq_Some_conv)
    have "polled now b b" using True by (simp add: polled_def)
    then show ?thesis using Cons.IH [OF rest] bs' by simp
  next
    case False
    with Cons.prems obtain nxt rs2 bs2 where
      nxt: "instant_add now (jittered_duration hash (sb_interval b) (counter + 1)) = Some nxt"
      and rest: "poll_loop fs sh hash now (counter + 1) bs = Some (rs2, bs2, counter')"
      and bs': "bs' = b\<lparr>next_fire := nxt\<rparr> # bs2"
      by (auto simp: bind_eq_Some_conv Let_def)
    have "nxt = now + jittered_duration hash (sb_interval b) (counter + 1)"
      using nxt by (simp add: instant_add_def split: if_splits)
    then have "polled now b (b\<lparr>next_fire := nxt\<rparr>)"
      using False jittered_bounds by (auto simp: polled_def)
    then show ?thesis using Cons.IH [OF rest] bs' by simp
  qed
qed simp

lemma poll_polled: "poll fs sh hash now s = Some (rs, s') \<Longrightarrow> list_all2 (polled now) (bs_beacons s) (bs_beacons s')"
  by (auto simp: poll_def bind_eq_Some_conv dest: poll_loop_polled)

text \<open>The polls at the times \<open>ts\<close>, and the times beacon \<open>i\<close> fires.\<close>

fun fire_times ::
  "(instant \<Rightarrow> string \<Rightarrow> string option) \<Rightarrow> (instant \<Rightarrow> string \<Rightarrow> shell_child option) \<Rightarrow> (instant \<Rightarrow> u64 \<Rightarrow> u64)
     \<Rightarrow> nat \<Rightarrow> instant list \<Rightarrow> beacon_scheduler \<Rightarrow> instant list may_panic" where
  "fire_times fs sh hash i [] s = Some []"
| "fire_times fs sh hash i (t # ts) s =
     do {
       (rs, s') \<leftarrow> poll (fs t) (sh t) (hash t) t s;
       rest \<leftarrow> fire_times fs sh hash i ts s';
       Some ((if t < next_fire (bs_beacons s ! i) then [] else [t]) @ rest)
     }"

lemma fire_times_spaced:
  assumes "fire_times fs sh hash i ts s = Some fired" "i < length (bs_beacons s)"
    "successively (\<lambda>a b. a \<le> b \<and> b < a + period) (t0 # ts)"
    "sb_interval (bs_beacons s ! i) = d" "next_fire (bs_beacons s ! i) = n"
  shows "successively (\<lambda>a b. 4 * d + 5 * a < 5 * b + 3 \<and> b < a + d + period) fired
    \<and> (fired \<noteq> [] \<longrightarrow> n \<le> hd fired \<and> hd fired < max t0 n + period)"
  using assms
proof (induction ts arbitrary: s fired t0 n)
  case (Cons t ts)
  from Cons.prems(1) obtain rs s' rest where
    p: "poll (fs t) (sh t) (hash t) t s = Some (rs, s')"
    and rest: "fire_times fs sh hash i ts s' = Some rest"
    and fired: "fired = (if t < n then [] else [t]) @ rest"
    using Cons.prems(5) by (auto simp: bind_eq_Some_conv)
  let ?b = "bs_beacons s ! i" and ?b' = "bs_beacons s' ! i"
  have len: "length (bs_beacons s') = length (bs_beacons s)"
    using poll_polled [OF p] by (simp add: list_all2_lengthD)
  have "polled t ?b ?b'" using poll_polled [OF p] Cons.prems(2) by (rule list_all2_nthD)
  note polled = this [unfolded polled_def Cons.prems(4,5)]
  have t: "t0 \<le> t" "t < t0 + period" and ts: "successively (\<lambda>a b. a \<le> b \<and> b < a + period) (t # ts)"
    using Cons.prems(3) by auto
  have d: "sb_interval ?b' = d" using polled Cons.prems(4) by (auto split: if_splits)
  have IH: "successively (\<lambda>a b. 4 * d + 5 * a < 5 * b + 3 \<and> b < a + d + period) rest
    \<and> (rest \<noteq> [] \<longrightarrow> next_fire ?b' \<le> hd rest \<and> hd rest < max t (next_fire ?b') + period)"
    using Cons.IH [OF rest _ ts d] Cons.prems(2) len by simp
  show ?case
  proof (cases "t < n")
    case True
    then have "?b' = ?b" using polled by simp
    then show ?thesis using IH True fired Cons.prems(5) t by auto
  next
    case False
    then obtain k where "next_fire ?b' = t + k" "4 * d < 5 * k + 3" "k \<le> d" using polled by auto
    then show ?thesis using IH False fired t by (cases rest) auto
  qed
qed simp

text \<open>C19: when the scheduler is polled at least every \<open>period\<close>, two firings of a beacon that follow each other
  are at least four fifths of its interval apart, and less than the interval and one period.\<close>

theorem beacon_spacing:
  assumes "fire_times fs sh hash i ts s = Some fired" "i < length (bs_beacons s)"
    "successively (\<lambda>a b. a \<le> b \<and> b < a + period) ts"
  shows "successively (\<lambda>a b. 4 * sb_interval (bs_beacons s ! i) + 5 * a < 5 * b + 3
      \<and> b < a + sb_interval (bs_beacons s ! i) + period) fired"
proof (cases ts)
  case (Cons t ts')
  show ?thesis
  proof (cases "period = 0")
    case True
    then have "ts' = []" using assms(3) Cons by (cases ts') auto
    then show ?thesis using assms(1) Cons by (auto simp: bind_eq_Some_conv)
  next
    case False
    then have "successively (\<lambda>a b. a \<le> b \<and> b < a + period) (t # ts)" using assms(3) Cons by simp
    from fire_times_spaced [OF assms(1,2) this] show ?thesis by blast
  qed
qed (use assms in simp)

section \<open>Lines\<close>

text \<open>A raw beacon is a line from \<open>mycall\<close>, and the path of the beacon is put behind the destination.\<close>

lemma raw_beacon_line:
  assumes "CHR '':'' \<notin> set mycall" "v \<noteq> []"
  shows "format_beacon_content fs sh (RawBeacon t) mycall (Some v) = Some (Some (mycall @ ''>APRS,'' @ v @ '':'' @ t))"
    "format_beacon_content fs sh (RawBeacon t) mycall None = Some (Some (mycall @ ''>APRS:'' @ t))"
proof -
  have "CHR '':'' \<notin> set (mycall @ ''>APRS'')" using assms(1) by simp
  from find_char(2) [OF this, of t]
  show "format_beacon_content fs sh (RawBeacon t) mycall (Some v) = Some (Some (mycall @ ''>APRS,'' @ v @ '':'' @ t))"
    using assms(2) by (simp add: format_beacon_content_def maybe_add_via_def)
qed (simp add: format_beacon_content_def maybe_add_via_def)

lemma late_poll_ends: "\<not> ch_elapsed ch i > timeout \<Longrightarrow> Suc i \<le> timeout div POLL_SLEEP + 1"
proof -
  assume "\<not> ch_elapsed ch i > timeout"
  then have "i * POLL_SLEEP \<le> timeout" by (simp add: ch_elapsed_def)
  then show ?thesis by (simp add: less_eq_div_iff_mult_less_eq POLL_SLEEP_def)
qed

lemma wait_child_ends:
  "i \<le> timeout div POLL_SLEEP + 1 \<Longrightarrow>
     \<exists>n\<ge>i. n \<le> timeout div POLL_SLEEP + 1 \<and> (\<forall>j. i \<le> j \<and> j < n \<longrightarrow> ch_poll ch j = Running)
       \<and> wait_child timeout ch i = wait_child timeout ch n \<and> (ch_poll ch n = Running \<longrightarrow> timeout < ch_elapsed ch n)"
proof (induction timeout ch i rule: wait_child.induct)
  case (1 timeout ch i)
  show ?case
  proof (cases "ch_poll ch i = Running \<and> \<not> timeout < ch_elapsed ch i")
    case True
    then have next_poll: "wait_child timeout ch i = wait_child timeout ch (Suc i)" by (subst wait_child.simps) simp
    obtain n where n: "n \<ge> Suc i" "n \<le> timeout div POLL_SLEEP + 1" "\<forall>j. Suc i \<le> j \<and> j < n \<longrightarrow> ch_poll ch j = Running"
        "wait_child timeout ch (Suc i) = wait_child timeout ch n" "ch_poll ch n = Running \<longrightarrow> timeout < ch_elapsed ch n"
      using 1(1) True late_poll_ends [of timeout ch i] by auto
    moreover have "ch_poll ch j = Running" if "i \<le> j \<and> j < n" for j
      using that True n(3) by (cases "j = i") auto
    ultimately show ?thesis using next_poll by (intro exI [of _ n]) auto
  next
    case False
    then show ?thesis using 1(2) by (intro exI [of _ i]) auto
  qed
qed


definition demo_child :: shell_child where
  "demo_child = \<lparr>ch_poll = (\<lambda>i. if i < 3 then Running else Exited True), ch_delay = (\<lambda>i. i), ch_output = Some ''ok''\<rparr>"


section \<open>Where the code falls short\<close>

text \<open>A duration that ends in a character of more than one byte panics.\<close>

theorem parse_duration_panics: "parse_duration [CHR ''2'', CHR ''0'', CHR 0xC3, CHR 0xA9] = None"
  by code_simp

text \<open>Hours wrap: \<open>u64\<close> arithmetic makes a very long time a short one.\<close>

theorem parse_duration_wraps: "parse_duration ''5124095576030432h'' = Some (Some (from_secs 3584))"
proof -
  let ?s = "''5124095576030432h''" and ?n = "''5124095576030432''"
  have "trim ?s = ?s" by code_simp
  moreover have "str_to ?s (length ?s - 1) = Some ?n" by code_simp
  moreover have "parse_unsigned (2 ^ 64) ?n = Some 5124095576030432"
    by (simp add: parse_unsigned_def is_ascii_digit_def)
  ultimately show ?thesis by (simp add: parse_duration_def)
qed

section \<open>Witness\<close>

definition demo_scheduler :: beacon_scheduler where
  "demo_scheduler = \<lparr>bs_beacons =
      [\<lparr>sb_beacon = \<lparr>bn_content = RawBeacon ''!hello'', bn_mode = Both, bn_transmitter = None, bn_via = None\<rparr>,
        sb_mycall = ''N0CALL'', sb_interval = 10, next_fire = 0\<rparr>], fire_counter = 0\<rparr>"

lemma demo_jitter: "jittered_duration (\<lambda>_. 0) 10 seed = 8"
  by (simp add: jittered_duration_def random_jitter_def round_even_def Let_def)

lemma demo_add: "n < 100 \<Longrightarrow> instant_add n 8 = Some (n + 8)"
  by (simp add: instant_add_def from_secs_def)

theorem beacon_spacing_witness:
  "fire_times (\<lambda>_ _. None) (\<lambda>_ _. None) (\<lambda>_ _. 0) 0 [0, 3, 6, 9, 12, 15, 18] demo_scheduler = Some [0, 9, 18]
    \<and> successively (\<lambda>a b. 4 * 10 + 5 * a < 5 * b + 3 \<and> b < a + 10 + 4) [0, 9, 18::nat]"
proof -
  have run: "fire_times (\<lambda>_ _. None) (\<lambda>_ _. None) (\<lambda>_ _. 0) 0 [0, 3, 6, 9, 12, 15, 18] demo_scheduler = Some [0, 9, 18]"
    by (simp add: demo_scheduler_def poll_def demo_jitter demo_add format_beacon_content_def)
  have len: "0 < length (bs_beacons demo_scheduler)" by (simp add: demo_scheduler_def)
  have gaps: "successively (\<lambda>a b. a \<le> b \<and> b < a + 4) [0, 3, 6, 9, 12, 15, 18::nat]" by simp
  have "sb_interval (bs_beacons demo_scheduler ! 0) = 10" by (simp add: demo_scheduler_def)
  with beacon_spacing [OF run len gaps] run show ?thesis by simp
qed

end
