(* ===== verification/Interface_Registry.thy ===== *)
theory Interface_Registry
  imports Config Packet
begin

text \<open>
  \<open>src/interface/mod.rs\<close>: commands, metadata, handles and the registry; and
  \<open>src/interface/ax25_kernel.rs\<close>, whose task does nothing but wait for its end. The channels of
  the crate \<open>tokio\<close> are a parameter: \<open>send\<close> takes a channel and a value and returns the channel and whether the
  value was queued. The lemmas show what the look-ups return and that a shutdown reaches every interface.
\<close>

section \<open>Commands and handles\<close>

datatype interface_command = Transmit packet | Shutdown

record interface_metadata =
  md_callsign :: string
  md_type :: interface_type
  md_tx_ok :: bool
  md_igate_group :: u8

record 'ch interface_handle =
  ih_metadata :: interface_metadata
  ih_cmd_tx :: 'ch

definition handle_new :: "interface_metadata \<Rightarrow> 'ch \<Rightarrow> 'ch interface_handle" where
  "handle_new md ch = \<lparr>ih_metadata = md, ih_cmd_tx = ch\<rparr>"

definition handle_send ::
  "('ch \<Rightarrow> interface_command \<Rightarrow> 'ch \<times> bool) \<Rightarrow> 'ch interface_handle \<Rightarrow> interface_command
     \<Rightarrow> 'ch interface_handle \<times> bool" where
  "handle_send send h c = (case send (ih_cmd_tx h) c of (ch, ok) \<Rightarrow> (h\<lparr>ih_cmd_tx := ch\<rparr>, ok))"

definition handle_transmit ::
  "('ch \<Rightarrow> interface_command \<Rightarrow> 'ch \<times> bool) \<Rightarrow> 'ch interface_handle \<Rightarrow> packet \<Rightarrow> 'ch interface_handle \<times> bool" where
  "handle_transmit send h p = handle_send send h (Transmit p)"

definition handle_shutdown ::
  "('ch \<Rightarrow> interface_command \<Rightarrow> 'ch \<times> bool) \<Rightarrow> 'ch interface_handle \<Rightarrow> 'ch interface_handle \<times> bool" where
  "handle_shutdown send h = handle_send send h Shutdown"

section \<open>The registry\<close>

type_synonym 'ch registry = "'ch interface_handle list"

definition registry_new :: "'ch registry" where
  "registry_new = []"

definition registry_len :: "'ch registry \<Rightarrow> nat" where
  "registry_len r = length r"

definition registry_is_empty :: "'ch registry \<Rightarrow> bool" where
  "registry_is_empty r \<longleftrightarrow> r = []"

definition register_handle :: "'ch registry \<Rightarrow> 'ch interface_handle \<Rightarrow> 'ch registry" where
  "register_handle r h = r @ [h]"

definition find_by_callsign :: "'ch registry \<Rightarrow> string \<Rightarrow> 'ch interface_handle option" where
  "find_by_callsign r callsign = find (\<lambda>h. md_callsign (ih_metadata h) = callsign) r"

definition tx_capable :: "'ch registry \<Rightarrow> 'ch interface_handle list" where
  "tx_capable r = filter (\<lambda>h. md_tx_ok (ih_metadata h)) r"

definition by_igate_group :: "'ch registry \<Rightarrow> u8 \<Rightarrow> 'ch interface_handle list" where
  "by_igate_group r grp = filter (\<lambda>h. md_igate_group (ih_metadata h) = grp) r"

fun shutdown_all :: "('ch \<Rightarrow> interface_command \<Rightarrow> 'ch \<times> bool) \<Rightarrow> 'ch registry \<Rightarrow> 'ch registry" where
  "shutdown_all send [] = []"
| "shutdown_all send (h # hs) = fst (handle_shutdown send h) # shutdown_all send hs"

section \<open>The kernel interface\<close>

definition is_available :: "bool \<Rightarrow> bool" where
  "is_available target_os_linux = target_os_linux"

record ax25_kernel_interface =
  ak_metadata :: interface_metadata
  ak_device :: string

definition ax25_kernel_new :: "string \<Rightarrow> string \<Rightarrow> bool \<Rightarrow> u8 \<Rightarrow> ax25_kernel_interface" where
  "ax25_kernel_new callsign device tx_ok grp =
     \<lparr>ak_metadata = \<lparr>md_callsign = callsign, md_type = Ax25Iface, md_tx_ok = tx_ok, md_igate_group = grp\<rparr>,
      ak_device = device\<rparr>"

text \<open>The task on the commands it receives until the channel is closed: how many it takes.\<close>

fun ax25_kernel_run :: "ax25_kernel_interface \<Rightarrow> interface_command list \<Rightarrow> nat" where
  "ax25_kernel_run k [] = 0"
| "ax25_kernel_run k (Shutdown # cs) = 1"
| "ax25_kernel_run k (Transmit p # cs) = Suc (ax25_kernel_run k cs)"

section \<open>Tasks that take commands\<close>

text \<open>The rounds of a task with their times.\<close>

fun rounds :: "(instant \<Rightarrow> 'e \<Rightarrow> 's \<Rightarrow> 's option) \<Rightarrow> (instant \<times> 'e) list \<Rightarrow> 's \<Rightarrow> 's option" where
  "rounds step [] s = Some s"
| "rounds step ((now, e) # es) s = (case step now e s of None \<Rightarrow> None | Some s' \<Rightarrow> rounds step es s')"

text \<open>What the trait \<open>Interface\<close> promises of \<open>run\<close>: where the task listens for commands, receiving a shutdown is
  a round that stops it, and a stopped task has no further round. \<open>told_to_stop\<close> is this event in a state.\<close>

locale interface_task =
  fixes step :: "instant \<Rightarrow> 'e \<Rightarrow> 's \<Rightarrow> 's option"
    and listening :: "'s \<Rightarrow> bool"
    and stopped :: "'s \<Rightarrow> bool"
    and told_to_stop :: "'s \<Rightarrow> 'e"
  assumes shutdown_stops: "listening s \<Longrightarrow> \<exists>s'. step now (told_to_stop s) s = Some s' \<and> stopped s'"
    and stopped_ends: "stopped s \<Longrightarrow> step now e s = None"
begin

lemma rounds_stopped: "stopped s \<Longrightarrow> rounds step es s = Some s' \<Longrightarrow> es = [] \<and> s' = s"
  by (cases es) (auto simp: stopped_ends)

text \<open>A shutdown can be received, and it is the last thing that happens.\<close>

lemma shutdown_is_last:
  assumes "listening s"
  shows "\<exists>s'. stopped s' \<and> (\<forall>es r. rounds step ((now, told_to_stop s) # es) s = Some r \<longleftrightarrow> es = [] \<and> r = s')"
proof -
  obtain s' where s': "step now (told_to_stop s) s = Some s'" "stopped s'" using shutdown_stops [OF assms] by blast
  have "rounds step ((now, told_to_stop s) # es) s = Some r \<longleftrightarrow> es = [] \<and> r = s'" for es r
    using s' rounds_stopped [of s' es r] by auto
  then show ?thesis using s'(2) by blast
qed

end

section \<open>Look-ups and shutdown\<close>

text \<open>Of two interfaces with one call sign only the one registered first can be found.\<close>

lemma second_interface_hidden:
  assumes "find_by_callsign r cs = Some h"
  shows "find_by_callsign (register_handle r g) cs = Some h"
  using assms by (auto simp: find_by_callsign_def register_handle_def find_Some_iff nth_append less_Suc_eq)

lemma shutdown_all_every:
  "shutdown_all send r = map (\<lambda>h. h\<lparr>ih_cmd_tx := fst (send (ih_cmd_tx h) Shutdown)\<rparr>) r"
  by (induction r) (simp_all add: handle_shutdown_def handle_send_def split: prod.split)

lemma ax25_kernel_stops_at_shutdown:
  "ax25_kernel_run k (map Transmit ps @ Shutdown # cs) = Suc (length ps)"
  by (induction ps) simp_all

end
