(* ===== verification/Serial_Kiss.thy ===== *)
theory Serial_Kiss
  imports Interface_Registry Kiss Ax25
begin

text \<open>
  \<open>src/interface/serial.rs\<close>: from KISS frames to packets and back, and the event loop the serial and
  the TCP interface share. The loop is a state machine: an event is what its \<open>select!\<close> woke up
  with, \<open>kiss_loop_step\<close> one round, \<^const>\<open>None\<close> where the event cannot happen. What the other
  side of a channel or of the line does is part of the event. Whether the serial port opens (the crate
  \<open>tokio_serial\<close>) is a parameter. \<open>kl_packets\<close> and \<open>kl_written\<close> record the packets handed to the router and the
  bytes of the writes. The lemmas show that what is delivered depends on the bytes alone, not on
  how they were chunked, and that nothing is written unless transmitting is allowed.
\<close>

section \<open>Frames and packets\<close>

definition DEFAULT_WATCHDOG_TIMEOUT_SECS :: nat where "DEFAULT_WATCHDOG_TIMEOUT_SECS = 600"
definition READ_BUF_SIZE :: nat where "READ_BUF_SIZE = 4096"

fun protocol_to_kiss_variant :: "protocol \<Rightarrow> kiss_variant option" where
  "protocol_to_kiss_variant ProtoKiss = Some Plain"
| "protocol_to_kiss_variant ProtoSmack = Some Smack"
| "protocol_to_kiss_variant ProtoFlexnet = Some FlexNet"
| "protocol_to_kiss_variant ProtoBpqcrc = Some BpqCrc"
| "protocol_to_kiss_variant ProtoTnc2 = None"
| "protocol_to_kiss_variant ProtoDprs = None"

definition process_kiss_frame :: "instant \<Rightarrow> kiss_frame \<Rightarrow> string \<Rightarrow> u8 \<Rightarrow> packet option" where
  "process_kiss_frame now frame iface grp =
     (if cmd frame \<noteq> 0 then None
      else (case ax25_to_tnc2 (frame_data frame) of
              Inr f \<Rightarrow>
                Some \<lparr>tnc2 = frame_tnc2 f, tnc2_addr_len = frame_tnc2_addr_len f,
                      ax25 = Some (frame_data frame), ax25_addr_len = frame_ax25_addr_len f,
                      source_interface = iface, is_aprs = frame_is_aprs f, ui_pid = frame_ui_pid f,
                      received_at = now, igate_group = grp\<rparr>
            | Inl e \<Rightarrow> None))"

definition prepare_transmit :: "packet \<Rightarrow> protocol \<Rightarrow> u8 list option" where
  "prepare_transmit p proto =
     (case protocol_to_kiss_variant proto of
        None \<Rightarrow> None
      | Some variant \<Rightarrow>
          (case ax25 p of None \<Rightarrow> None | Some ax25_data \<Rightarrow> Some (kiss_encode ax25_data 0x00 variant)))"

record serial_interface =
  si_metadata :: interface_metadata
  si_device :: string
  si_speed :: u32
  si_protocol :: protocol
  si_watchdog :: duration

definition serial_new :: "string \<Rightarrow> string \<Rightarrow> u32 \<Rightarrow> protocol \<Rightarrow> bool \<Rightarrow> u8 \<Rightarrow> serial_interface" where
  "serial_new callsign device speed proto tx_ok grp =
     \<lparr>si_metadata = \<lparr>md_callsign = callsign, md_type = Serial, md_tx_ok = tx_ok, md_igate_group = grp\<rparr>,
      si_device = device, si_speed = speed, si_protocol = proto,
      si_watchdog = from_secs DEFAULT_WATCHDOG_TIMEOUT_SECS\<rparr>"

definition with_watchdog_timeout :: "duration \<Rightarrow> serial_interface \<Rightarrow> serial_interface" where
  "with_watchdog_timeout timeout si = si\<lparr>si_watchdog := timeout\<rparr>"

section \<open>The event loop\<close>

datatype kiss_loop_exit = Eof | IoError | WriteFailed | ShutdownExit | ChannelClosed | PacketChannelClosed

text \<open>A read comes with the answers of the packet channel to the packets it leads to (\<^const>\<open>False\<close>: its
  receiver is gone), a command with whether a write succeeds.\<close>

datatype kiss_event =
    ReadBytes "u8 list" "nat \<Rightarrow> bool"
  | ReadError
  | Command interface_command bool
  | CommandsClosed
  | WatchdogFires

record kiss_loop =
  kl_decoder :: kiss_decoder
  kl_last_data :: instant
  kl_warned :: bool
  kl_warnings :: nat
  kl_exit :: "kiss_loop_exit option"
  kl_packets :: "packet list"
  kl_written :: "u8 list list"

definition kiss_loop_start :: "instant \<Rightarrow> kiss_loop" where
  "kiss_loop_start now =
     \<lparr>kl_decoder = decoder_new, kl_last_data = now, kl_warned = False, kl_warnings = 0,
      kl_exit = None, kl_packets = [], kl_written = []\<rparr>"

text \<open>The task of the serial interface: it ends at once where the port does not open, and otherwise runs the loop
  once. Whether a port opens is what the crate \<open>tokio_serial\<close> answers.\<close>

definition serial_run :: "(string \<Rightarrow> u32 \<Rightarrow> bool) \<Rightarrow> instant \<Rightarrow> serial_interface \<Rightarrow> kiss_loop option" where
  "serial_run opens now si = (if opens (si_device si) (si_speed si) then Some (kiss_loop_start now) else None)"

text \<open>The \<open>for\<close> loop over the frames of a read; \<open>i\<close> counts the packets sent.\<close>

fun deliver :: "interface_metadata \<Rightarrow> instant \<Rightarrow> (nat \<Rightarrow> bool) \<Rightarrow> nat \<Rightarrow> kiss_frame list \<Rightarrow> kiss_loop \<Rightarrow> kiss_loop" where
  "deliver md now answers i [] s = s"
| "deliver md now answers i (f # fs) s =
     (case process_kiss_frame now f (md_callsign md) (md_igate_group md) of
        None \<Rightarrow> deliver md now answers i fs s
      | Some p \<Rightarrow>
          if \<not> answers i then s\<lparr>kl_exit := Some PacketChannelClosed\<rparr>
          else deliver md now answers (Suc i) fs (s\<lparr>kl_packets := kl_packets s @ [p]\<rparr>))"

fun kiss_loop_step ::
  "interface_metadata \<Rightarrow> protocol \<Rightarrow> duration \<Rightarrow> instant \<Rightarrow> kiss_event \<Rightarrow> kiss_loop \<Rightarrow> kiss_loop option" where
  "kiss_loop_step md proto watchdog now (ReadBytes bytes answers) s =
     (if kl_exit s \<noteq> None \<or> length bytes > READ_BUF_SIZE then None
      else if bytes = [] then Some (s\<lparr>kl_exit := Some Eof\<rparr>)
      else (case feed (kl_decoder s) bytes of
              (decoder, frames) \<Rightarrow>
                Some (deliver md now answers 0 frames
                  (s\<lparr>kl_last_data := now, kl_warned := False, kl_decoder := decoder\<rparr>))))"
| "kiss_loop_step md proto watchdog now ReadError s =
     (if kl_exit s \<noteq> None then None else Some (s\<lparr>kl_exit := Some IoError\<rparr>))"
| "kiss_loop_step md proto watchdog now (Command (Transmit p) write_ok) s =
     (if kl_exit s \<noteq> None then None
      else if \<not> md_tx_ok md then Some s
      else (case prepare_transmit p proto of
              Some kiss_data \<Rightarrow>
                if \<not> write_ok then Some (s\<lparr>kl_exit := Some WriteFailed\<rparr>)
                else Some (s\<lparr>kl_written := kl_written s @ [kiss_data]\<rparr>)
            | None \<Rightarrow> Some s))"
| "kiss_loop_step md proto watchdog now (Command Shutdown write_ok) s =
     (if kl_exit s \<noteq> None then None else Some (s\<lparr>kl_exit := Some ShutdownExit\<rparr>))"
| "kiss_loop_step md proto watchdog now CommandsClosed s =
     (if kl_exit s \<noteq> None then None else Some (s\<lparr>kl_exit := Some ChannelClosed\<rparr>))"
| "kiss_loop_step md proto watchdog now WatchdogFires s =
     (if kl_exit s \<noteq> None \<or> watchdog > duration_since now (kl_last_data s) then None
      else if \<not> kl_warned s then Some (s\<lparr>kl_warned := True, kl_warnings := Suc (kl_warnings s)\<rparr>)
      else Some s)"

fun kiss_loop_run ::
  "interface_metadata \<Rightarrow> protocol \<Rightarrow> duration \<Rightarrow> (instant \<times> kiss_event) list \<Rightarrow> kiss_loop \<Rightarrow> kiss_loop option" where
  "kiss_loop_run md proto watchdog [] s = Some s"
| "kiss_loop_run md proto watchdog ((now, e) # es) s =
     (case kiss_loop_step md proto watchdog now e s of
        None \<Rightarrow> None | Some s' \<Rightarrow> kiss_loop_run md proto watchdog es s')"

section \<open>The loop as a task\<close>

interpretation kiss_task: interface_task "kiss_loop_step md proto watchdog" "\<lambda>s. kl_exit s = None" "\<lambda>s. kl_exit s \<noteq> None"
  "\<lambda>s. Command Shutdown write_ok" for md proto watchdog write_ok
proof unfold_locales
  fix s :: kiss_loop and now e assume "kl_exit s \<noteq> None"
  then show "kiss_loop_step md proto watchdog now e s = None"
    by (cases "(md, proto, watchdog, now, e, s)" rule: kiss_loop_step.cases) simp_all
qed simp

lemma kiss_loop_run_rounds: "kiss_loop_run md proto watchdog es s = rounds (kiss_loop_step md proto watchdog) es s"
  by (induction md proto watchdog es s rule: kiss_loop_run.induct) (simp_all split: option.split)

text \<open>A loop that is told to stop has stopped.\<close>

lemma kiss_loop_shutdown_is_last:
  assumes "kl_exit s = None"
  shows "\<exists>s'. kl_exit s' \<noteq> None
    \<and> (\<forall>es r. kiss_loop_run md proto watchdog ((now, Command Shutdown write_ok) # es) s = Some r \<longleftrightarrow> es = [] \<and> r = s')"
  using kiss_task.shutdown_is_last [OF assms] by (simp only: kiss_loop_run_rounds)

section \<open>What is received\<close>

fun bytes_read :: "(instant \<times> kiss_event) list \<Rightarrow> u8 list" where
  "bytes_read [] = []"
| "bytes_read ((t, ReadBytes bytes a) # es) = bytes @ bytes_read es"
| "bytes_read (_ # es) = bytes_read es"

text \<open>A packet without the time it was received, and the packets that some frames lead to.\<close>

definition untimed :: "packet \<Rightarrow> packet" where
  "untimed p = p\<lparr>received_at := 0\<rparr>"

definition packets_of :: "interface_metadata \<Rightarrow> kiss_frame list \<Rightarrow> packet list" where
  "packets_of md fs = List.map_filter (\<lambda>f. process_kiss_frame 0 f (md_callsign md) (md_igate_group md)) fs"

lemma packets_of_simps [simp]:
  "packets_of md [] = []" "packets_of md (fs @ gs) = packets_of md fs @ packets_of md gs"
  "packets_of md (f # fs) = (case process_kiss_frame 0 f (md_callsign md) (md_igate_group md) of
     None \<Rightarrow> packets_of md fs | Some p \<Rightarrow> p # packets_of md fs)"
  by (simp_all add: packets_of_def map_filter_def split: option.split)

lemma process_untimed:
  "process_kiss_frame now f i g = Some p \<Longrightarrow> process_kiss_frame 0 f i g = Some (untimed p)"
  by (auto simp: process_kiss_frame_def untimed_def split: if_splits sum.splits)

lemma process_none: "process_kiss_frame now f i g = None \<Longrightarrow> process_kiss_frame 0 f i g = None"
  by (auto simp: process_kiss_frame_def split: if_splits sum.splits)

lemma deliver_keeps [simp]:
  "kl_decoder (deliver md now a i fs s) = kl_decoder s" "kl_written (deliver md now a i fs s) = kl_written s"
  by (induction md now a i fs s rule: deliver.induct) (simp_all split: option.split)

lemma deliver_packets:
  assumes "kl_exit s = None"
  shows "\<exists>rest. map untimed (kl_packets s) @ packets_of md fs = map untimed (kl_packets (deliver md now a i fs s)) @ rest
    \<and> (kl_exit (deliver md now a i fs s) = None \<and> rest = []
       \<or> kl_exit (deliver md now a i fs s) = Some PacketChannelClosed)"
  using assms
proof (induction md now a i fs s rule: deliver.induct)
  case (2 md now a i f fs s)
  show ?case
  proof (cases "process_kiss_frame now f (md_callsign md) (md_igate_group md)")
    case None
    then show ?thesis using 2(1,3) process_none [OF None] by simp
  next
    case (Some p)
    show ?thesis
    proof (cases "a i")
      case True
      then show ?thesis using 2(2) [OF Some] 2(3) Some process_untimed [OF Some] by simp
    next
      case False
      then show ?thesis using Some by simp
    qed
  qed
qed simp

lemma kiss_loop_run_stopped:
  "kl_exit s \<noteq> None \<Longrightarrow> kiss_loop_run md proto w es s = Some s' \<Longrightarrow> es = [] \<and> s' = s"
proof (cases es)
  case (Cons te es')
  obtain t e where te: "te = (t, e)" by (cases te)
  assume "kl_exit s \<noteq> None"
  then have "kiss_loop_step md proto w t e s = None"
    by (cases "(md, proto, w, t, e, s)" rule: kiss_loop_step.cases) simp_all
  then show "kiss_loop_run md proto w es s = Some s' \<Longrightarrow> es = [] \<and> s' = s" by (simp add: Cons te)
qed simp

lemma kiss_loop_step_other:
  assumes "kiss_loop_step md proto w t e s = Some s'" "\<forall>bytes a. e \<noteq> ReadBytes bytes a"
  shows "kl_decoder s' = kl_decoder s \<and> kl_packets s' = kl_packets s \<and> kl_exit s' \<noteq> Some PacketChannelClosed
    \<and> bytes_read ((t, e) # es) = bytes_read es"
  using assms
  by (cases "(md, proto, w, t, e, s)" rule: kiss_loop_step.cases) (auto split: if_splits option.splits)

lemma kiss_loop_run_packets:
  assumes "kiss_loop_run md proto w es s = Some s'" "kl_exit s = None"
  shows "\<exists>rest. map untimed (kl_packets s) @ packets_of md (snd (feed (kl_decoder s) (bytes_read es)))
      = map untimed (kl_packets s') @ rest
    \<and> (kl_exit s' \<noteq> Some PacketChannelClosed \<longrightarrow> rest = [])"
  using assms
proof (induction es arbitrary: s)
  case (Cons te es)
  obtain t e where te: "te = (t, e)" by (cases te)
  with Cons.prems(1) obtain s1 where step: "kiss_loop_step md proto w t e s = Some s1"
    and rest: "kiss_loop_run md proto w es s1 = Some s'"
    by (auto split: option.splits)
  show ?case
  proof (cases "\<exists>bytes a. e = ReadBytes bytes a")
    case False
    then have e: "\<forall>bytes a. e \<noteq> ReadBytes bytes a" by simp
    note same = kiss_loop_step_other [OF step e, of es]
    show ?thesis
    proof (cases "kl_exit s1 = None")
      case True
      then show ?thesis using Cons.IH [OF rest True] same te by simp
    next
      case False
      then show ?thesis using kiss_loop_run_stopped [OF False rest] same te by simp
    qed
  next
    case True
    then obtain bytes a where e: "e = ReadBytes bytes a" by blast
    show ?thesis
    proof (cases "bytes = []")
      case True
      then have "kl_exit s1 \<noteq> None" "s1 = s\<lparr>kl_exit := Some Eof\<rparr>" using step e by (auto split: if_splits)
      then show ?thesis using kiss_loop_run_stopped [OF _ rest] te e True by simp
    next
      case False
      obtain d fs where df: "feed (kl_decoder s) bytes = (d, fs)" by (cases "feed (kl_decoder s) bytes")
      let ?s = "s\<lparr>kl_last_data := t, kl_warned := False, kl_decoder := d\<rparr>"
      have s1: "s1 = deliver md t a 0 fs ?s" using step e False df by (auto split: if_splits)
      have "kl_exit ?s = None" using Cons.prems(2) by simp
      from deliver_packets [OF this, of md fs t a 0]
      obtain r where r: "map untimed (kl_packets s) @ packets_of md fs = map untimed (kl_packets s1) @ r"
        and ends: "kl_exit s1 = None \<and> r = [] \<or> kl_exit s1 = Some PacketChannelClosed"
        by (auto simp: s1)
      have fed: "snd (feed (kl_decoder s) (bytes_read (te # es))) = fs @ snd (feed d (bytes_read es))"
        using feed_append [of "kl_decoder s" bytes "bytes_read es"] df by (simp add: te e)
      show ?thesis
      proof (cases "kl_exit s1 = None")
        case True
        then have "r = []" using ends by simp
        moreover have "kl_decoder s1 = d" by (simp add: s1)
        ultimately show ?thesis using Cons.IH [OF rest True] r fed by (metis append.assoc append_Nil2 packets_of_simps(2))
      next
        case False
        then have "s' = s1" "kl_exit s' = Some PacketChannelClosed" using kiss_loop_run_stopped [OF False rest] ends by auto
        then show ?thesis using r fed by (metis append.assoc packets_of_simps(2))
      qed
    qed
  qed
qed simp

section \<open>What is written\<close>

text \<open>The frames of the transmit commands whose write succeeds.\<close>

fun frames_to_send :: "protocol \<Rightarrow> (instant \<times> kiss_event) list \<Rightarrow> u8 list list" where
  "frames_to_send proto [] = []"
| "frames_to_send proto ((t, Command (Transmit p) True) # es) =
     (case prepare_transmit p proto of None \<Rightarrow> [] | Some w \<Rightarrow> [w]) @ frames_to_send proto es"
| "frames_to_send proto (_ # es) = frames_to_send proto es"

lemma kiss_loop_step_written:
  assumes "kiss_loop_step md proto w t e s = Some s'"
  shows "kl_written s' @ (if md_tx_ok md then frames_to_send proto es else [])
    = kl_written s @ (if md_tx_ok md then frames_to_send proto ((t, e) # es) else [])"
proof (cases e)
  case (Command c ok)
  then show ?thesis using assms by (cases c; cases ok) (auto split: if_splits option.splits)
qed (use assms in \<open>auto split: if_splits prod.splits\<close>)

lemma kiss_loop_run_written:
  "kiss_loop_run md proto w es s = Some s' \<Longrightarrow>
   kl_written s' = kl_written s @ (if md_tx_ok md then frames_to_send proto es else [])"
proof (induction es arbitrary: s)
  case (Cons te es)
  obtain t e where te: "te = (t, e)" by (cases te)
  with Cons.prems obtain s1 where "kiss_loop_step md proto w t e s = Some s1"
    and "kiss_loop_run md proto w es s1 = Some s'"
    by (auto split: option.splits)
  then show ?case using Cons.IH kiss_loop_step_written te by metis
qed simp

text \<open>The AX.25 data of the packets whose transmission succeeds.\<close>

fun data_to_send :: "(instant \<times> kiss_event) list \<Rightarrow> u8 list list" where
  "data_to_send [] = []"
| "data_to_send ((t, Command (Transmit p) True) # es) =
     (case ax25 p of None \<Rightarrow> [] | Some d \<Rightarrow> [d]) @ data_to_send es"
| "data_to_send (_ # es) = data_to_send es"

lemma frames_to_send_kiss:
  "frames_to_send ProtoKiss es = map encode_message (map (\<lambda>d. (d, 0, Plain)) (data_to_send es))"
  by (induction es rule: data_to_send.induct)
     (simp_all add: prepare_transmit_def split: option.split)

text \<open>Plain KISS frames, written one after the other.\<close>

lemma kiss_loop_plain_frames:
  assumes "kiss_loop_run md proto w es (kiss_loop_start t0) = Some s" "kl_exit s \<noteq> Some PacketChannelClosed"
    and "bytes_read es = concat (map (\<lambda>d. kiss_encode d 0 Plain) ds)" "\<forall>d\<in>set ds. length d < MAX_FRAME_LEN"
  shows "map untimed (kl_packets s) = packets_of md (map (\<lambda>d. \<lparr>cmd_byte = 0, frame_data = d\<rparr>) ds)"
proof -
  let ?ms = "map (\<lambda>d. (d, 0, Plain)) ds"
  have "\<forall>m\<in>set ?ms. message_ok m" using assms(4) by (auto simp: kiss_bytes Suc_le_eq)
  moreover have "bytes_read es = concat (map encode_message ?ms)" using assms(3) by (simp add: comp_def)
  ultimately have "snd (feed decoder_new (bytes_read es)) = map message_view ?ms"
    using kiss_stream.messages [OF ready_new, of ?ms] by simp
  then have frames: "snd (feed decoder_new (bytes_read es)) = map (\<lambda>d. \<lparr>cmd_byte = 0, frame_data = d\<rparr>) ds"
    by (simp add: comp_def)
  have "packets_of md (snd (feed decoder_new (bytes_read es))) = map untimed (kl_packets s)"
    using kiss_loop_run_packets [OF assms(1)] assms(2) by (auto simp: kiss_loop_start_def)
  then show ?thesis by (simp only: frames)
qed

section \<open>Properties\<close>

text \<open>The loop delivers what is in the bytes: however the reads chunk the bytes of the line, and
  whatever commands and timers come between, the packets handed to the router are those of the
  KISS frames in all bytes read, in order; a prefix of them if the router has gone.\<close>

theorem kiss_loop_delivers:
  assumes "kiss_loop_run md proto w es (kiss_loop_start t0) = Some s"
  shows "\<exists>rest. packets_of md (snd (feed decoder_new (bytes_read es))) = map untimed (kl_packets s) @ rest
    \<and> (kl_exit s \<noteq> Some PacketChannelClosed \<longrightarrow> rest = [])"
  using kiss_loop_run_packets [OF assms] by (simp add: kiss_loop_start_def)

text \<open>A loop writes the frames of the transmit commands, each once and in order, and nothing at all on an
  interface that may not transmit.\<close>

theorem kiss_loop_writes:
  assumes "kiss_loop_run md proto w es (kiss_loop_start t0) = Some s"
  shows "kl_written s = (if md_tx_ok md then frames_to_send proto es else [])"
  using kiss_loop_run_written [OF assms] by (simp add: kiss_loop_start_def)

text \<open>C7: a link of two interfaces with plain KISS: if one reads the bytes the other writes, in chunks of any
  size, its router gets the packets of exactly the AX.25 frames the other was told to transmit.\<close>

theorem kiss_link:
  assumes sender: "kiss_loop_run md1 ProtoKiss w1 es1 (kiss_loop_start t1) = Some s1" "md_tx_ok md1"
    and receiver: "kiss_loop_run md2 proto2 w2 es2 (kiss_loop_start t2) = Some s2"
      "kl_exit s2 \<noteq> Some PacketChannelClosed"
    and link: "bytes_read es2 = concat (kl_written s1)"
    and small: "\<forall>d\<in>set (data_to_send es1). length d < MAX_FRAME_LEN"
  shows "map untimed (kl_packets s2)
    = packets_of md2 (map (\<lambda>d. \<lparr>cmd_byte = 0, frame_data = d\<rparr>) (data_to_send es1))"
proof (rule kiss_loop_plain_frames [OF receiver _ small])
  have "kl_written s1 = map (\<lambda>d. kiss_encode d 0 Plain) (data_to_send es1)"
    using kiss_loop_run_written [OF sender(1)] sender(2)
    by (simp add: kiss_loop_start_def frames_to_send_kiss comp_def)
  then show "bytes_read es2 = concat (map (\<lambda>d. kiss_encode d 0 Plain) (data_to_send es1))" by (simp only: link)
qed

section \<open>The watchdog\<close>

text \<open>After the warning the remaining time stays zero, so the timer fires again at once, at the same time and without
  any change of the state: the loop spins until data come.\<close>

theorem watchdog_spins:
  assumes "kl_exit s = None" "watchdog \<le> duration_since now (kl_last_data s)" "kl_warned s"
  shows "kiss_loop_run md proto watchdog (replicate n (now, WatchdogFires)) s = Some s"
  using assms by (induction n) simp_all

lemma watchdog_warns_once:
  assumes "kl_exit s = None" "watchdog \<le> duration_since now (kl_last_data s)"
  shows "\<exists>s'. kiss_loop_step md proto watchdog now WatchdogFires s = Some s' \<and> kl_warned s'
    \<and> kl_warnings s' = kl_warnings s + (if kl_warned s then 0 else 1)"
  using assms by simp

section \<open>Witnesses\<close>

definition demo_md :: interface_metadata where
  "demo_md = \<lparr>md_callsign = ''N0CALL'', md_type = Serial, md_tx_ok = True, md_igate_group = 1\<rparr>"

definition demo_frame :: "u8 list" where
  "demo_frame = address_field ''APRS'' 0x60 @ address_field ''W1AW'' 0x61 @ [0x03, 0xF0, 0x21]"

definition demo_packet :: packet where
  "demo_packet = (packet_new 0 ''W1AW>APRS:!'' ''APRSIS'' True)\<lparr>ax25 := Some demo_frame\<rparr>"

definition demo_send :: "(instant \<times> kiss_event) list" where
  "demo_send = [(1, Command (Transmit demo_packet) True)]"

definition demo_receive :: "(instant \<times> kiss_event) list" where
  "demo_receive = [(2, ReadBytes (take 5 (kiss_encode demo_frame 0 Plain)) (\<lambda>_. True)),
     (3, ReadBytes (drop 5 (kiss_encode demo_frame 0 Plain)) (\<lambda>_. True))]"

lemma demo_frame_bytes:
  "demo_frame = [130, 160, 164, 166, 64, 64, 96, 174, 98, 130, 174, 64, 64, 97, 3, 240, 33]"
  by code_simp

lemma demo_kiss_bytes:
  "kiss_encode demo_frame 0 Plain = [192, 0, 130, 160, 164, 166, 64, 64, 96, 174, 98, 130, 174, 64, 64, 97, 3, 240, 33, 192]"
  by (simp add: demo_frame_bytes kiss_encode_def kiss_escape_byte_def kiss_bytes)

lemma demo_kiss_length: "length (kiss_encode demo_frame 0 Plain) = 20"
  by (simp add: demo_kiss_bytes)

lemma demo_decodes:
  "ax25_to_tnc2 demo_frame = Inr \<lparr>frame_tnc2 = ''W1AW>APRS:!'', frame_tnc2_addr_len = 9,
     frame_ax25_addr_len = 14, frame_is_aprs = True, frame_ui_pid = 240\<rparr>"
  by code_simp

lemma demo_send_run:
  "kiss_loop_run demo_md ProtoKiss 100 demo_send (kiss_loop_start 0)
    = Some ((kiss_loop_start 0)\<lparr>kl_written := [kiss_encode demo_frame 0 Plain]\<rparr>)"
  by (simp add: demo_send_def kiss_loop_start_def demo_md_def prepare_transmit_def demo_packet_def)

lemma demo_feed:
  "feed decoder_new (take 5 (kiss_encode demo_frame 0 Plain)) = (\<lparr>kd_state = Collecting, kd_buffer = [0, 130, 160, 164]\<rparr>, [])"
  "feed \<lparr>kd_state = Collecting, kd_buffer = [0, 130, 160, 164]\<rparr> (drop 5 (kiss_encode demo_frame 0 Plain))
    = (\<lparr>kd_state = Collecting, kd_buffer = []\<rparr>, [\<lparr>cmd_byte = 0, frame_data = demo_frame\<rparr>])"
  unfolding demo_kiss_bytes
  by (simp_all add: demo_frame_bytes decoder_new_def decode_byte_def emit_frame_def kiss_bytes MAX_FRAME_LEN_def)

definition demo_received :: packet where
  "demo_received = \<lparr>tnc2 = ''W1AW>APRS:!'', tnc2_addr_len = 9, ax25 = Some demo_frame, ax25_addr_len = 14,
     source_interface = ''N0CALL'', is_aprs = True, ui_pid = 240, received_at = 3, igate_group = 1\<rparr>"

lemma demo_process:
  "process_kiss_frame now \<lparr>cmd_byte = 0, frame_data = demo_frame\<rparr> ''N0CALL'' 1 = Some (demo_received\<lparr>received_at := now\<rparr>)"
  by (simp add: process_kiss_frame_def cmd_def demo_decodes demo_received_def)

lemma demo_receive_run:
  "\<exists>s. kiss_loop_run demo_md ProtoKiss 100 demo_receive (kiss_loop_start 0) = Some s \<and> kl_exit s = None
    \<and> kl_packets s = [demo_received]"
proof -
  have "take 5 (kiss_encode demo_frame 0 Plain) \<noteq> []" "drop 5 (kiss_encode demo_frame 0 Plain) \<noteq> []"
    unfolding demo_kiss_bytes by simp_all
  then show ?thesis
    by (simp add: demo_receive_def kiss_loop_start_def demo_feed demo_process READ_BUF_SIZE_def demo_md_def
        demo_received_def demo_kiss_length)
qed

theorem kiss_loop_delivers_witness:
  "\<exists>s. kiss_loop_run demo_md ProtoKiss 100 demo_receive (kiss_loop_start 0) = Some s
    \<and> packets_of demo_md (snd (feed decoder_new (kiss_encode demo_frame 0 Plain))) = map untimed (kl_packets s)
    \<and> kl_packets s = [demo_received]"
proof -
  obtain s where s: "kiss_loop_run demo_md ProtoKiss 100 demo_receive (kiss_loop_start 0) = Some s"
    "kl_exit s = None" "kl_packets s = [demo_received]"
    using demo_receive_run by blast
  have "bytes_read demo_receive = kiss_encode demo_frame 0 Plain" by (simp add: demo_receive_def)
  with kiss_loop_delivers [OF s(1)] s show ?thesis by auto
qed

theorem kiss_loop_writes_witness:
  "\<exists>s. kiss_loop_run demo_md ProtoKiss 100 demo_send (kiss_loop_start 0) = Some s
    \<and> kl_written s = frames_to_send ProtoKiss demo_send"
  using kiss_loop_writes [OF demo_send_run] demo_send_run by (simp add: demo_md_def)

theorem kiss_link_witness:
  "\<exists>s. kiss_loop_run demo_md ProtoKiss 100 demo_receive (kiss_loop_start 0) = Some s
    \<and> map untimed (kl_packets s) = [demo_received\<lparr>received_at := 0\<rparr>]"
proof -
  obtain s where s: "kiss_loop_run demo_md ProtoKiss 100 demo_receive (kiss_loop_start 0) = Some s" "kl_exit s = None"
    using demo_receive_run by blast
  have "bytes_read demo_receive = kiss_encode demo_frame 0 Plain" by (simp add: demo_receive_def)
  moreover have "data_to_send demo_send = [demo_frame]" by (simp add: demo_send_def demo_packet_def)
  moreover have "md_tx_ok demo_md" by (simp add: demo_md_def)
  ultimately have "map untimed (kl_packets s) = packets_of demo_md (map (\<lambda>d. \<lparr>cmd_byte = 0, frame_data = d\<rparr>) [demo_frame])"
    using kiss_link [OF demo_send_run _ s(1)] s(2) by (simp add: MAX_FRAME_LEN_def demo_frame_bytes)
  then show ?thesis using s(1) by (simp add: demo_process demo_md_def)
qed

end
