(* ===== verification/Tcp_Kiss.thy ===== *)
theory Tcp_Kiss
  imports Serial_Kiss
begin

text \<open>
  \<open>src/interface/tcp.rs\<close>: the KISS interface over TCP, which runs the loop of the serial interface on a
  connection and connects again when it is lost. The task is a step relation: a step is labelled with the
  time and with what the awaited call returned. \<open>tc_waits\<close> counts the waits since the
  last connection, \<open>tc_dropped\<close> the packets thrown away while there was none, and \<open>tc_done\<close>
  collects the finished loops. \<open>tcp_next\<close> is the relation as a function, so it is deterministic. The lemmas give the exact delay of every wait and what a shutdown does.
\<close>

section \<open>The interface\<close>

definition TCP_WATCHDOG_TIMEOUT_SECS :: nat where "TCP_WATCHDOG_TIMEOUT_SECS = 600"
definition DEFAULT_CONNECT_TIMEOUT_SECS :: nat where "DEFAULT_CONNECT_TIMEOUT_SECS = 30"
definition INITIAL_BACKOFF :: duration where "INITIAL_BACKOFF = from_secs 1"
definition MAX_BACKOFF :: duration where "MAX_BACKOFF = from_secs 60"

record tcp_interface =
  ti_metadata :: interface_metadata
  ti_host :: string
  ti_port :: u16
  ti_protocol :: protocol
  ti_watchdog :: duration
  ti_connect_timeout :: duration

definition tcp_new :: "string \<Rightarrow> string \<Rightarrow> u16 \<Rightarrow> protocol \<Rightarrow> bool \<Rightarrow> u8 \<Rightarrow> tcp_interface" where
  "tcp_new callsign host port proto tx_ok grp =
     \<lparr>ti_metadata = \<lparr>md_callsign = callsign, md_type = Tcp, md_tx_ok = tx_ok, md_igate_group = grp\<rparr>,
      ti_host = host, ti_port = port, ti_protocol = proto,
      ti_watchdog = from_secs TCP_WATCHDOG_TIMEOUT_SECS,
      ti_connect_timeout = from_secs DEFAULT_CONNECT_TIMEOUT_SECS\<rparr>"

definition tcp_with_watchdog_timeout :: "duration \<Rightarrow> tcp_interface \<Rightarrow> tcp_interface" where
  "tcp_with_watchdog_timeout timeout ti = ti\<lparr>ti_watchdog := timeout\<rparr>"

definition tcp_with_connect_timeout :: "duration \<Rightarrow> tcp_interface \<Rightarrow> tcp_interface" where
  "tcp_with_connect_timeout timeout ti = ti\<lparr>ti_connect_timeout := timeout\<rparr>"

section \<open>The task\<close>

datatype tcp_phase =
    CheckCommands
  | TcpConnecting instant
  | InLoop kiss_loop
  | Waiting instant
  | TcpStopped

record tcp_state =
  tc_phase :: tcp_phase
  tc_backoff :: duration
  tc_waits :: nat
  tc_dropped :: nat
  tc_done :: "kiss_loop list"

definition tcp_start :: tcp_state where
  "tcp_start = \<lparr>tc_phase = CheckCommands, tc_backoff = INITIAL_BACKOFF, tc_waits = 0, tc_dropped = 0, tc_done = []\<rparr>"

text \<open>The answers of the awaited calls. \<open>Got\<close> is a command from \<open>try_recv\<close> or \<open>recv\<close>.\<close>

datatype tcp_event =
    Got interface_command
  | NothingQueued
  | Disconnected
  | ConnectOk
  | ConnectFails
  | ConnectTimesOut
  | LoopEvent kiss_event
  | SleepOver

text \<open>The exits after which the task stops.\<close>

fun intentional :: "kiss_loop_exit \<Rightarrow> bool" where
  "intentional ShutdownExit = True"
| "intentional ChannelClosed = True"
| "intentional PacketChannelClosed = True"
| "intentional Eof = False"
| "intentional IoError = False"
| "intentional WriteFailed = False"

definition waited :: "tcp_state \<Rightarrow> tcp_state" where
  "waited s = s\<lparr>tc_phase := CheckCommands, tc_backoff := min (tc_backoff s * 2) MAX_BACKOFF, tc_waits := Suc (tc_waits s)\<rparr>"

inductive tcp_step :: "tcp_interface \<Rightarrow> instant \<Rightarrow> tcp_event \<Rightarrow> tcp_state \<Rightarrow> tcp_state \<Rightarrow> bool"
  for ti :: tcp_interface and now :: instant
where
  ShutdownBefore:
    "tc_phase s = CheckCommands \<Longrightarrow> tcp_step ti now (Got Shutdown) s (s\<lparr>tc_phase := TcpStopped\<rparr>)"
| TransmitBefore:
    "tc_phase s = CheckCommands
     \<Longrightarrow> tcp_step ti now (Got (Transmit p)) s (s\<lparr>tc_phase := TcpConnecting now, tc_dropped := Suc (tc_dropped s)\<rparr>)"
| DisconnectedBefore:
    "tc_phase s = CheckCommands \<Longrightarrow> tcp_step ti now Disconnected s (s\<lparr>tc_phase := TcpStopped\<rparr>)"
| EmptyBefore:
    "tc_phase s = CheckCommands \<Longrightarrow> tcp_step ti now NothingQueued s (s\<lparr>tc_phase := TcpConnecting now\<rparr>)"
| Connected:
    "tc_phase s = TcpConnecting t
     \<Longrightarrow> tcp_step ti now ConnectOk s
           (s\<lparr>tc_phase := InLoop (kiss_loop_start now), tc_backoff := INITIAL_BACKOFF, tc_waits := 0\<rparr>)"
| Refused:
    "tc_phase s = TcpConnecting t \<Longrightarrow> tcp_step ti now ConnectFails s (s\<lparr>tc_phase := Waiting now\<rparr>)"
| TimedOut:
    "tc_phase s = TcpConnecting t \<Longrightarrow> t + ti_connect_timeout ti \<le> now
     \<Longrightarrow> tcp_step ti now ConnectTimesOut s (s\<lparr>tc_phase := Waiting now\<rparr>)"
| LoopGoesOn:
    "tc_phase s = InLoop k \<Longrightarrow> kiss_loop_step (ti_metadata ti) (ti_protocol ti) (ti_watchdog ti) now e k = Some k'
     \<Longrightarrow> kl_exit k' = None \<Longrightarrow> tcp_step ti now (LoopEvent e) s (s\<lparr>tc_phase := InLoop k'\<rparr>)"
| LoopStops:
    "tc_phase s = InLoop k \<Longrightarrow> kiss_loop_step (ti_metadata ti) (ti_protocol ti) (ti_watchdog ti) now e k = Some k'
     \<Longrightarrow> kl_exit k' = Some r \<Longrightarrow> intentional r
     \<Longrightarrow> tcp_step ti now (LoopEvent e) s (s\<lparr>tc_phase := TcpStopped, tc_done := tc_done s @ [k']\<rparr>)"
| LoopLost:
    "tc_phase s = InLoop k \<Longrightarrow> kiss_loop_step (ti_metadata ti) (ti_protocol ti) (ti_watchdog ti) now e k = Some k'
     \<Longrightarrow> kl_exit k' = Some r \<Longrightarrow> \<not> intentional r
     \<Longrightarrow> tcp_step ti now (LoopEvent e) s (s\<lparr>tc_phase := Waiting now, tc_done := tc_done s @ [k']\<rparr>)"
| Slept:
    "tc_phase s = Waiting t \<Longrightarrow> t + tc_backoff s \<le> now \<Longrightarrow> tcp_step ti now SleepOver s (waited s)"
| ShutdownWaiting:
    "tc_phase s = Waiting t \<Longrightarrow> tcp_step ti now (Got Shutdown) s (s\<lparr>tc_phase := TcpStopped\<rparr>)"
| DisconnectedWaiting:
    "tc_phase s = Waiting t \<Longrightarrow> tcp_step ti now Disconnected s (s\<lparr>tc_phase := TcpStopped\<rparr>)"
| TransmitWaiting:
    "tc_phase s = Waiting t
     \<Longrightarrow> tcp_step ti now (Got (Transmit p)) s (waited (s\<lparr>tc_dropped := Suc (tc_dropped s)\<rparr>))"

code_pred (modes: i \<Rightarrow> i \<Rightarrow> i \<Rightarrow> i \<Rightarrow> o \<Rightarrow> bool) tcp_step .

inductive_cases tcp_stepE: "tcp_step ti now e s s'"
inductive_simps sleep_over_iff: "tcp_step ti now SleepOver s s'"
inductive_simps connect_ok_iff: "tcp_step ti now ConnectOk s s'"
inductive_simps got_shutdown_iff: "tcp_step ti now (Got Shutdown) s s'"

inductive tcp_reach :: "tcp_interface \<Rightarrow> tcp_state \<Rightarrow> bool" for ti :: tcp_interface where
  Start: "tcp_reach ti tcp_start"
| Step: "tcp_reach ti s \<Longrightarrow> tcp_step ti now e s s' \<Longrightarrow> tcp_reach ti s'"

section \<open>The task as a function\<close>

text \<open>The step relation computed: a round of the task has one outcome for each answer of the awaited call.\<close>

definition tcp_next :: "tcp_interface \<Rightarrow> instant \<Rightarrow> tcp_event \<Rightarrow> tcp_state \<Rightarrow> tcp_state option" where
  "tcp_next ti now e s =
     (case tc_phase s of
        CheckCommands \<Rightarrow>
          (case e of
             Got Shutdown \<Rightarrow> Some (s\<lparr>tc_phase := TcpStopped\<rparr>)
           | Got (Transmit p) \<Rightarrow> Some (s\<lparr>tc_phase := TcpConnecting now, tc_dropped := Suc (tc_dropped s)\<rparr>)
           | Disconnected \<Rightarrow> Some (s\<lparr>tc_phase := TcpStopped\<rparr>)
           | NothingQueued \<Rightarrow> Some (s\<lparr>tc_phase := TcpConnecting now\<rparr>)
           | _ \<Rightarrow> None)
      | TcpConnecting t \<Rightarrow>
          (case e of
             ConnectOk \<Rightarrow>
               Some (s\<lparr>tc_phase := InLoop (kiss_loop_start now), tc_backoff := INITIAL_BACKOFF, tc_waits := 0\<rparr>)
           | ConnectFails \<Rightarrow> Some (s\<lparr>tc_phase := Waiting now\<rparr>)
           | ConnectTimesOut \<Rightarrow> if t + ti_connect_timeout ti \<le> now then Some (s\<lparr>tc_phase := Waiting now\<rparr>) else None
           | _ \<Rightarrow> None)
      | InLoop k \<Rightarrow>
          (case e of
             LoopEvent e \<Rightarrow>
               (case kiss_loop_step (ti_metadata ti) (ti_protocol ti) (ti_watchdog ti) now e k of
                  None \<Rightarrow> None
                | Some k' \<Rightarrow>
                    (case kl_exit k' of
                       None \<Rightarrow> Some (s\<lparr>tc_phase := InLoop k'\<rparr>)
                     | Some r \<Rightarrow>
                         if intentional r then Some (s\<lparr>tc_phase := TcpStopped, tc_done := tc_done s @ [k']\<rparr>)
                         else Some (s\<lparr>tc_phase := Waiting now, tc_done := tc_done s @ [k']\<rparr>)))
           | _ \<Rightarrow> None)
      | Waiting t \<Rightarrow>
          (case e of
             SleepOver \<Rightarrow> if t + tc_backoff s \<le> now then Some (waited s) else None
           | Got Shutdown \<Rightarrow> Some (s\<lparr>tc_phase := TcpStopped\<rparr>)
           | Disconnected \<Rightarrow> Some (s\<lparr>tc_phase := TcpStopped\<rparr>)
           | Got (Transmit p) \<Rightarrow> Some (waited (s\<lparr>tc_dropped := Suc (tc_dropped s)\<rparr>))
           | _ \<Rightarrow> None)
      | TcpStopped \<Rightarrow> None)"

lemma tcp_step_next: "tcp_step ti now e s s' \<longleftrightarrow> tcp_next ti now e s = Some s'"
proof
  assume "tcp_step ti now e s s'"
  then show "tcp_next ti now e s = Some s'" by cases (simp_all add: tcp_next_def)
next
  assume "tcp_next ti now e s = Some s'"
  then show "tcp_step ti now e s s'"
    by (auto simp: tcp_next_def intro: tcp_step.intros
        split: tcp_phase.splits tcp_event.splits interface_command.splits option.splits if_splits)
qed

lemma tcp_step_deterministic: "tcp_step ti now e s s1 \<Longrightarrow> tcp_step ti now e s s2 \<Longrightarrow> s1 = s2"
  by (simp add: tcp_step_next)

fun tcp_run :: "tcp_interface \<Rightarrow> (instant \<times> tcp_event) list \<Rightarrow> tcp_state \<Rightarrow> tcp_state option" where
  "tcp_run ti [] s = Some s"
| "tcp_run ti ((now, e) # es) s = (case tcp_next ti now e s of None \<Rightarrow> None | Some s' \<Rightarrow> tcp_run ti es s')"

lemma tcp_run_reach: "tcp_reach ti s \<Longrightarrow> tcp_run ti es s = Some s' \<Longrightarrow> tcp_reach ti s'"
  by (induction ti es s rule: tcp_run.induct)
    (auto simp: tcp_step_next [symmetric] split: option.splits intro: tcp_reach.Step)

section \<open>The task stops\<close>

text \<open>Where the task awaits a command: everywhere but during a connection attempt.\<close>

definition tcp_listening :: "tcp_state \<Rightarrow> bool" where
  "tcp_listening s \<longleftrightarrow>
     (case tc_phase s of CheckCommands \<Rightarrow> True | InLoop k \<Rightarrow> kl_exit k = None | Waiting t \<Rightarrow> True | _ \<Rightarrow> False)"

definition tcp_told_to_stop :: "tcp_state \<Rightarrow> tcp_event" where
  "tcp_told_to_stop s = (case tc_phase s of InLoop k \<Rightarrow> LoopEvent (Command Shutdown True) | _ \<Rightarrow> Got Shutdown)"

interpretation tcp_task: interface_task "tcp_next ti" tcp_listening "\<lambda>s. tc_phase s = TcpStopped" tcp_told_to_stop for ti
  by unfold_locales (auto simp: tcp_listening_def tcp_told_to_stop_def tcp_next_def split: tcp_phase.splits)

lemma tcp_run_rounds: "tcp_run ti es s = rounds (tcp_next ti) es s"
  by (induction ti es s rule: tcp_run.induct) (simp_all split: option.split)

lemma tcp_shutdown_is_last:
  assumes "tcp_listening s"
  shows "\<exists>s'. tc_phase s' = TcpStopped
    \<and> (\<forall>es r. tcp_run ti ((now, tcp_told_to_stop s) # es) s = Some r \<longleftrightarrow> es = [] \<and> r = s')"
  using tcp_task.shutdown_is_last [OF assms] by (simp only: tcp_run_rounds)

text \<open>A reachable task that does not listen has stopped, or is connecting and listens again at the latest when the
  attempt times out.\<close>

lemma tcp_reach_loop_open: "tcp_reach ti s \<Longrightarrow> tc_phase s = InLoop k \<Longrightarrow> kl_exit k = None"
proof (induction arbitrary: k rule: tcp_reach.induct)
  case (Step s now e s')
  from Step.hyps(2) show ?case
    using Step.prems by cases (auto simp: kiss_loop_start_def waited_def)
qed (simp add: tcp_start_def)

lemma tcp_listens_again:
  assumes "tcp_reach ti s" "\<not> tcp_listening s" "tc_phase s \<noteq> TcpStopped"
  shows "\<exists>t s'. tc_phase s = TcpConnecting t
    \<and> tcp_next ti (t + ti_connect_timeout ti) ConnectTimesOut s = Some s' \<and> tcp_listening s'"
  using assms(2,3) tcp_reach_loop_open [OF assms(1)]
  by (auto simp: tcp_listening_def tcp_next_def split: tcp_phase.splits)

section \<open>Delays\<close>

definition backoff_after :: "nat \<Rightarrow> duration" where
  "backoff_after n = min (INITIAL_BACKOFF * 2 ^ n) MAX_BACKOFF"

lemma backoff_after_0: "backoff_after 0 = INITIAL_BACKOFF"
  by (simp add: backoff_after_def INITIAL_BACKOFF_def MAX_BACKOFF_def from_secs_def)

lemma backoff_after_Suc: "min (backoff_after n * 2) MAX_BACKOFF = backoff_after (Suc n)"
  by (auto simp: backoff_after_def min_def)

lemma tcp_step_backoff:
  assumes "tcp_step ti now e s s'" "tc_backoff s = backoff_after (tc_waits s)"
  shows "tc_backoff s' = backoff_after (tc_waits s')"
  using assms
  by (induction rule: tcp_step.induct) (simp_all add: waited_def backoff_after_Suc backoff_after_0)

section \<open>Shutdown\<close>

lemma stopped_final: "tc_phase s = TcpStopped \<Longrightarrow> \<not> tcp_step ti now e s s'"
  by (auto elim: tcp_stepE)

text \<open>While the task waits or is about to connect, a shutdown stops it; while it connects, no event but
  the end of the attempt is taken.\<close>

lemma shutdown_when_waiting:
  assumes "tc_phase s = CheckCommands \<or> tc_phase s = Waiting t"
  shows "tcp_step ti now (Got Shutdown) s (s\<lparr>tc_phase := TcpStopped\<rparr>)"
  using assms tcp_step.ShutdownBefore tcp_step.ShutdownWaiting by blast

lemma shutdown_not_seen_connecting:
  "tc_phase s = TcpConnecting t \<Longrightarrow> \<not> tcp_step ti now (Got Shutdown) s s'"
  by (auto simp: got_shutdown_iff)

text \<open>A packet to transmit ends the wait at once: the next attempt does not wait for the delay.\<close>

lemma transmit_cuts_backoff:
  assumes "tc_phase s = Waiting t"
  shows "\<exists>s'. tcp_step ti t (Got (Transmit p)) s s' \<and> tc_phase s' = CheckCommands"
proof -
  have "tc_phase (waited (s\<lparr>tc_dropped := Suc (tc_dropped s)\<rparr>)) = CheckCommands" by (simp add: waited_def)
  then show ?thesis using tcp_step.TransmitWaiting [OF assms] by blast
qed

section \<open>Property\<close>

text \<open>C34: the delay before the next attempt is one second, doubled with every wait since the last connection, and never
  more than a minute; a wait that no command ends takes at least this long.\<close>

theorem tcp_backoff_doubles:
  assumes "tcp_reach ti s"
  shows "tc_backoff s = min (from_secs (2 ^ tc_waits s)) (from_secs 60)
    \<and> (\<forall>now s' t. tc_phase s = Waiting t \<longrightarrow> tcp_step ti now SleepOver s s'
        \<longrightarrow> t + min (from_secs (2 ^ tc_waits s)) (from_secs 60) \<le> now \<and> tc_waits s' = Suc (tc_waits s))"
proof -
  have "tc_backoff s = backoff_after (tc_waits s)"
    using assms
  proof (induction rule: tcp_reach.induct)
    case Start
    then show ?case by (simp add: tcp_start_def backoff_after_0)
  next
    case (Step s now e s')
    show ?case by (rule tcp_step_backoff [OF Step.hyps(2) Step.IH])
  qed
  then have "tc_backoff s = min (from_secs (2 ^ tc_waits s)) (from_secs 60)"
    by (simp add: backoff_after_def INITIAL_BACKOFF_def MAX_BACKOFF_def from_secs_def mult.commute)
  then show ?thesis by (auto simp: sleep_over_iff waited_def)
qed

text \<open>A round with a refused connection, slept through.\<close>

lemma refused_round:
  assumes "tcp_reach ti s" "tc_phase s = CheckCommands" "tc_backoff s \<le> now"
  shows "tcp_reach ti (waited (s\<lparr>tc_phase := Waiting 0\<rparr>))"
proof -
  let ?c = "s\<lparr>tc_phase := TcpConnecting 0\<rparr>"
  have "tcp_reach ti ?c" using assms(1) EmptyBefore [OF assms(2)] by (rule tcp_reach.Step)
  moreover have "tcp_step ti 0 ConnectFails ?c (?c\<lparr>tc_phase := Waiting 0\<rparr>)" by (rule Refused) simp
  ultimately have "tcp_reach ti (?c\<lparr>tc_phase := Waiting 0\<rparr>)" by (rule tcp_reach.Step)
  then have "tcp_reach ti (s\<lparr>tc_phase := Waiting 0\<rparr>)" by simp
  moreover have "tcp_step ti now SleepOver (s\<lparr>tc_phase := Waiting 0\<rparr>) (waited (s\<lparr>tc_phase := Waiting 0\<rparr>))"
    by (rule Slept [where t = 0]) (use assms(3) in simp_all)
  ultimately show ?thesis by (rule tcp_reach.Step)
qed

theorem tcp_backoff_doubles_witness:
  "\<exists>s. tcp_reach (tcp_new ''N0CALL'' ''tnc'' 8001 ProtoKiss True 1) s \<and> tc_waits s = 2
    \<and> tc_backoff s = from_secs 4"
proof -
  let ?ti = "tcp_new ''N0CALL'' ''tnc'' 8001 ProtoKiss True 1"
  let ?round = "\<lambda>s. waited (s\<lparr>tc_phase := Waiting 0\<rparr>)"
  have one: "tcp_reach ?ti (?round tcp_start)"
    by (rule refused_round [OF tcp_reach.Start, where now = "from_secs 1"])
       (simp_all add: tcp_start_def INITIAL_BACKOFF_def)
  have two: "tcp_reach ?ti (?round (?round tcp_start))"
    by (rule refused_round [OF one, where now = "from_secs 100"])
       (simp_all add: waited_def MAX_BACKOFF_def from_secs_def)
  have "tc_waits (?round (?round tcp_start)) = 2" by (simp add: waited_def tcp_start_def)
  moreover from tcp_backoff_doubles [OF two] this
  have "tc_backoff (?round (?round tcp_start)) = from_secs 4" by (simp add: from_secs_def)
  ultimately show ?thesis using two by blast
qed

end
