(* ===== verification/Agwpe_Frames.thy ===== *)
theory Agwpe_Frames
  imports Vaprs_Prelude
begin

text \<open>
  \<open>src/interface/agwpe.rs\<close>: the frames of the AGW Packet Engine, a header of 36 bytes and data. The
  encoder writes its fields into a buffer of zeros, as the code does; the lemmas give the layout and read it back.
\<close>

unbundle bit_operations_syntax

section \<open>Frames\<close>

definition AGWPE_HEADER_LEN :: nat where "AGWPE_HEADER_LEN = 36"

record agwpe_frame =
  ag_port :: u32
  ag_data_kind :: u8
  ag_call_from :: string
  ag_call_to :: string
  ag_data :: "u8 list"

definition to_le_bytes :: "u32 \<Rightarrow> u8 list" where
  "to_le_bytes w = map (\<lambda>i. ucast (drop_bit (8 * i) w)) [0..<4]"

definition from_le_bytes :: "u8 list \<Rightarrow> u32" where
  "from_le_bytes bs = foldr (\<lambda>b w. ucast b OR push_bit 8 w) bs 0"

definition extract_callsign :: "u8 list \<Rightarrow> string" where
  "extract_callsign field =
     from_utf8_lossy (map char_of_byte (takeWhile (\<lambda>b. b \<noteq> 0) field))"

text \<open>\<open>buf[i..i + n].copy_from_slice(bs)\<close>.\<close>

definition write_at :: "'a list \<Rightarrow> nat \<Rightarrow> 'a list \<Rightarrow> 'a list" where
  "write_at buf i bs = take i buf @ bs @ drop (i + length bs) buf"

definition write_callsign :: "u8 list \<Rightarrow> string \<Rightarrow> u8 list" where
  "write_callsign field callsign =
     (let bytes = as_bytes callsign; copy_len = min (length bytes) (length field)
      in write_at field 0 (take copy_len bytes))"

text \<open>The header has exactly 36 bytes: its type is an array.\<close>

definition parse_agwpe_frame :: "u8 list \<Rightarrow> u8 list \<Rightarrow> agwpe_frame" where
  "parse_agwpe_frame header data =
     \<lparr>ag_port = from_le_bytes (take 4 header), ag_data_kind = header ! 4,
      ag_call_from = extract_callsign (take 10 (drop 8 header)),
      ag_call_to = extract_callsign (take 10 (drop 18 header)), ag_data = data\<rparr>"

definition encode_agwpe_frame :: "agwpe_frame \<Rightarrow> u8 list" where
  "encode_agwpe_frame f =
     (let buf = replicate (AGWPE_HEADER_LEN + length (ag_data f)) 0;
          buf = write_at buf 0 (to_le_bytes (ag_port f));
          buf = buf[4 := ag_data_kind f];
          buf = write_at buf 8 (write_callsign (take 10 (drop 8 buf)) (ag_call_from f));
          buf = write_at buf 18 (write_callsign (take 10 (drop 18 buf)) (ag_call_to f));
          data_len = of_nat (length (ag_data f)) :: u32;
          buf = write_at buf 28 (to_le_bytes data_len)
      in write_at buf AGWPE_HEADER_LEN (ag_data f))"

definition register_callsign :: "u32 \<Rightarrow> string \<Rightarrow> agwpe_frame" where
  "register_callsign port callsign =
     \<lparr>ag_port = port, ag_data_kind = 0x58, ag_call_from = callsign, ag_call_to = [], ag_data = []\<rparr>"

definition unregister_callsign :: "u32 \<Rightarrow> string \<Rightarrow> agwpe_frame" where
  "unregister_callsign port callsign =
     \<lparr>ag_port = port, ag_data_kind = 0x78, ag_call_from = callsign, ag_call_to = [], ag_data = []\<rparr>"

definition version_request :: agwpe_frame where
  "version_request = \<lparr>ag_port = 0, ag_data_kind = 0x52, ag_call_from = [], ag_call_to = [], ag_data = []\<rparr>"

definition port_info_request :: agwpe_frame where
  "port_info_request = \<lparr>ag_port = 0, ag_data_kind = 0x47, ag_call_from = [], ag_call_to = [], ag_data = []\<rparr>"

definition raw_transmit :: "u32 \<Rightarrow> string \<Rightarrow> string \<Rightarrow> u8 list \<Rightarrow> agwpe_frame" where
  "raw_transmit port call_from call_to ax25_data =
     \<lparr>ag_port = port, ag_data_kind = 0x4B, ag_call_from = call_from, ag_call_to = call_to, ag_data = ax25_data\<rparr>"

section \<open>Layout\<close>

lemma length_to_le_bytes [simp]: "length (to_le_bytes w) = 4"
  by (simp add: to_le_bytes_def)

lemma le_bytes_inverse: "from_le_bytes (to_le_bytes w) = w"
proof (rule bit_word_eqI)
  fix n assume n: "n < LENGTH(32)"
  have le: "to_le_bytes w = [ucast w, ucast (drop_bit 8 w), ucast (drop_bit 16 w), ucast (drop_bit 24 w)]"
    by (simp add: to_le_bytes_def upt_rec)
  consider "n < 8" | "8 \<le> n" "n < 16" | "16 \<le> n" "n < 24" | "24 \<le> n" by linarith
  then show "bit (from_le_bytes (to_le_bytes w)) n \<longleftrightarrow> bit w n"
    unfolding le from_le_bytes_def using n
    by cases (auto simp: bit_simps)
qed

text \<open>A call sign in its field: the first ten bytes, filled up with zeros.\<close>

definition callsign_field :: "string \<Rightarrow> u8 list" where
  "callsign_field s = take 10 (as_bytes s) @ replicate (10 - length s) 0"

lemma length_callsign_field [simp]: "length (callsign_field s) = 10"
  by (simp add: callsign_field_def)

lemma write_callsign_zeros: "write_callsign (replicate 10 0) s = callsign_field s"
  by (cases "length s \<le> 10") (simp_all add: write_callsign_def write_at_def callsign_field_def Let_def min_def)

lemma write_at_append: "i = length a \<Longrightarrow> length bs = length b \<Longrightarrow> write_at (a @ b @ c) i bs = a @ bs @ c"
  by (simp add: write_at_def)

lemma encode_layout:
  "encode_agwpe_frame f = to_le_bytes (ag_port f) @ [ag_data_kind f, 0, 0, 0] @ callsign_field (ag_call_from f)
    @ callsign_field (ag_call_to f) @ to_le_bytes (of_nat (length (ag_data f))) @ replicate 4 0 @ ag_data f"
proof -
  let ?z = "\<lambda>n. replicate n (0 :: u8)" and ?p = "to_le_bytes (ag_port f)" and ?k = "[ag_data_kind f] @ replicate 3 0"
  let ?d = "ag_data f" and ?from = "callsign_field (ag_call_from f)" and ?to = "callsign_field (ag_call_to f)"
  let ?len = "to_le_bytes (of_nat (length (ag_data f)))"
  have zeros: "?z (AGWPE_HEADER_LEN + length ?d) = [] @ ?z 4 @ ?z 1 @ ?z 3 @ ?z 10 @ ?z 10 @ ?z 4 @ ?z 4 @ ?z (length ?d)"
    unfolding append_Nil replicate_add [symmetric] by (simp add: AGWPE_HEADER_LEN_def)
  have b1: "write_at (?z (AGWPE_HEADER_LEN + length ?d)) 0 ?p = ?p @ ?z 1 @ ?z 3 @ ?z 10 @ ?z 10 @ ?z 4 @ ?z 4 @ ?z (length ?d)"
    unfolding zeros by (subst write_at_append) simp_all
  have b2: "(?p @ ?z 1 @ ?z 3 @ ?z 10 @ ?z 10 @ ?z 4 @ ?z 4 @ ?z (length ?d))[4 := ag_data_kind f]
      = (?p @ ?k) @ ?z 10 @ ?z 10 @ ?z 4 @ ?z 4 @ ?z (length ?d)"
    by (simp add: list_update_append)
  have b3: "write_at ((?p @ ?k) @ ?z 10 @ ?z 10 @ ?z 4 @ ?z 4 @ ?z (length ?d)) 8 ?from
      = (?p @ ?k @ ?from) @ ?z 10 @ ?z 4 @ ?z 4 @ ?z (length ?d)"
    by (subst write_at_append) simp_all
  have b4: "write_at ((?p @ ?k @ ?from) @ ?z 10 @ ?z 4 @ ?z 4 @ ?z (length ?d)) 18 ?to
      = (?p @ ?k @ ?from @ ?to) @ ?z 4 @ ?z 4 @ ?z (length ?d)"
    by (subst write_at_append) simp_all
  have b5: "write_at ((?p @ ?k @ ?from @ ?to) @ ?z 4 @ ?z 4 @ ?z (length ?d)) 28 ?len
      = (?p @ ?k @ ?from @ ?to @ ?len @ ?z 4) @ ?z (length ?d) @ []"
    by (subst write_at_append) simp_all
  have b6: "write_at ((?p @ ?k @ ?from @ ?to @ ?len @ ?z 4) @ ?z (length ?d) @ []) AGWPE_HEADER_LEN ?d
      = (?p @ ?k @ ?from @ ?to @ ?len @ ?z 4) @ ?d @ []"
    by (rule write_at_append) (simp_all add: AGWPE_HEADER_LEN_def)
  have s3: "take 10 (drop 8 ((?p @ ?k) @ ?z 10 @ ?z 10 @ ?z 4 @ ?z 4 @ ?z (length ?d))) = ?z 10" by simp
  have s4: "take 10 (drop 18 ((?p @ ?k @ ?from) @ ?z 10 @ ?z 4 @ ?z 4 @ ?z (length ?d))) = ?z 10" by simp
  have "encode_agwpe_frame f = (?p @ ?k @ ?from @ ?to @ ?len @ ?z 4) @ ?d @ []"
    unfolding encode_agwpe_frame_def Let_def b1 b2 s3 write_callsign_zeros b3 s4 b4 b5 b6 by (rule refl)
  then show ?thesis by (simp add: numeral_3_eq_3)
qed

lemma extract_callsign_field:
  assumes "utf8_valid s" "CHR 0x00 \<notin> set s" "length s \<le> 10"
  shows "extract_callsign (callsign_field s) = s"
proof -
  have "byte_of c \<noteq> 0" if "c \<in> set s" for c
  proof
    assume "byte_of c = 0"
    then have "c = char_of_byte 0" using char_of_byte_of [of c] by simp
    also have "\<dots> = CHR 0x00" by code_simp
    finally show False using that assms(2) by simp
  qed
  then have "\<forall>b\<in>set (as_bytes s). b \<noteq> 0" by (auto simp: as_bytes_def)
  then have "takeWhile (\<lambda>b. b \<noteq> 0) (as_bytes s @ replicate n 0) = as_bytes s" for n
    by (simp add: takeWhile_append2 takeWhile_replicate)
  then show ?thesis
    using assms by (simp add: extract_callsign_def callsign_field_def from_utf8_lossy_valid as_bytes_def comp_def)
qed

text \<open>A longer call sign is cut to ten bytes, without an error.\<close>

lemma callsign_truncated: "callsign_field (s @ t) = callsign_field s" if "length s = 10"
  using that by (simp add: callsign_field_def as_bytes_def)

section \<open>Property\<close>

text \<open>C35: a frame whose call signs have at most ten bytes and no zero byte is read back as it was, from the first 36
  bytes of its encoding and the rest, and the length field holds the length of the data.\<close>

theorem agwpe_roundtrip:
  assumes "utf8_valid (ag_call_from f)" "CHR 0x00 \<notin> set (ag_call_from f)" "length (ag_call_from f) \<le> 10"
    and "utf8_valid (ag_call_to f)" "CHR 0x00 \<notin> set (ag_call_to f)" "length (ag_call_to f) \<le> 10"
    and "length (ag_data f) < 2 ^ 32"
  shows "parse_agwpe_frame (take AGWPE_HEADER_LEN (encode_agwpe_frame f)) (drop AGWPE_HEADER_LEN (encode_agwpe_frame f)) = f
    \<and> unat (from_le_bytes (take 4 (drop 28 (encode_agwpe_frame f)))) = length (ag_data f)"
proof
  let ?h = "to_le_bytes (ag_port f) @ [ag_data_kind f, 0, 0, 0] @ callsign_field (ag_call_from f)
    @ callsign_field (ag_call_to f) @ to_le_bytes (of_nat (length (ag_data f))) @ replicate 4 0"
  have enc: "encode_agwpe_frame f = ?h @ ag_data f" by (simp only: encode_layout append_assoc)
  have len: "length ?h = AGWPE_HEADER_LEN" by (simp add: AGWPE_HEADER_LEN_def)
  have cut: "take (length h) (h @ d) = h" "drop (length h) (h @ d) = d" for h d :: "u8 list" by simp_all
  have header: "take AGWPE_HEADER_LEN (encode_agwpe_frame f) = ?h" unfolding enc len [symmetric] by (rule cut(1))
  have data: "drop AGWPE_HEADER_LEN (encode_agwpe_frame f) = ag_data f" unfolding enc len [symmetric] by (rule cut(2))
  have "parse_agwpe_frame ?h (ag_data f) = f"
    using assms by (simp add: parse_agwpe_frame_def le_bytes_inverse extract_callsign_field nth_append)
  then show "parse_agwpe_frame (take AGWPE_HEADER_LEN (encode_agwpe_frame f)) (drop AGWPE_HEADER_LEN (encode_agwpe_frame f)) = f"
    by (simp only: header data)
  have "take 4 (drop 28 (encode_agwpe_frame f)) = to_le_bytes (of_nat (length (ag_data f)))" by (simp add: enc)
  then show "unat (from_le_bytes (take 4 (drop 28 (encode_agwpe_frame f)))) = length (ag_data f)"
    using assms(7) by (simp add: le_bytes_inverse unat_of_nat)
qed

theorem agwpe_roundtrip_witness:
  "parse_agwpe_frame (take AGWPE_HEADER_LEN (encode_agwpe_frame (raw_transmit 1 ''N0CALL'' ''APRS'' [1, 2, 3])))
     (drop AGWPE_HEADER_LEN (encode_agwpe_frame (raw_transmit 1 ''N0CALL'' ''APRS'' [1, 2, 3])))
   = raw_transmit 1 ''N0CALL'' ''APRS'' [1, 2, 3]"
proof -
  have "utf8_valid ''N0CALL''" "utf8_valid ''APRS''"
    by (rule utf8_valid_all_ascii, simp add: is_ascii_char_def)+
  then show ?thesis
    using agwpe_roundtrip [of "raw_transmit 1 ''N0CALL'' ''APRS'' [1, 2, 3]"] by (simp add: raw_transmit_def)
qed

end
