(* ===== verification/Web_State.thy ===== *)
theory Web_State
  imports Igate Erlang Decimal
begin

text \<open>
  \<open>src/web/mod.rs\<close>: the state of the dashboard. The mutex around it makes every operation atomic, so an
  operation is a function on the state. Serialisation (the crate \<open>serde_json\<close>) is a parameter; the
  counters of the statistics are 64-bit words. The sequence number of a packet is a natural number: its 64 bits
  last for centuries at a packet per nanosecond. The locale \<open>numbered_log\<close> is what the stream of
  events relies on: packets get consecutive numbers, and the most recent ones are kept.
\<close>

section \<open>State\<close>

definition MAX_RECENT_PACKETS :: nat where "MAX_RECENT_PACKETS = 200"

record packet_snapshot =
  ps_timestamp :: nat
  ps_source_call :: string
  ps_dest_call :: string
  ps_interface :: string
  ps_payload :: string
  ps_raw :: string
  ps_sequence :: nat

record station_snapshot =
  ss_callsign :: string
  ss_secs_ago :: nat
  ss_interface :: string
  ss_heard_count :: u32
  ss_position :: "(float_val \<times> float_val) option"

record interface_info =
  ii_name :: string
  ii_detail :: string

record igate_stats =
  rx_from_rf :: u64
  gated_to_aprsis :: u64
  dropped_total :: u64
  dropped_query :: u64
  dropped_forbidden_source :: u64
  dropped_forbidden_dest :: u64
  dropped_forbidden_via :: u64
  dropped_depth_exceeded :: u64
  unique_stations_gated :: u64

definition stats_default :: igate_stats where
  "stats_default = \<lparr>rx_from_rf = 0, gated_to_aprsis = 0, dropped_total = 0, dropped_query = 0,
     dropped_forbidden_source = 0, dropped_forbidden_dest = 0, dropped_forbidden_via = 0,
     dropped_depth_exceeded = 0, unique_stations_gated = 0\<rparr>"

record station_entry =
  se_callsign :: string
  se_last_heard :: instant
  se_interface :: string
  se_heard_count :: u32
  se_position :: "(float_val \<times> float_val) option"

record dashboard_state =
  db_mycall :: string
  db_started_at :: instant
  db_interfaces :: "interface_info list"
  db_erlang_stats :: "erlang_channel_snapshot list"
  db_aprsis_connected :: bool
  db_aprsis_server :: string
  recent_packets :: "packet_snapshot list"
  packet_sequence :: nat
  stations :: "(string, station_entry) hash_map"
  db_igate_stats :: igate_stats
  gated_set :: "string set"

definition dashboard_new :: "string \<Rightarrow> interface_info list \<Rightarrow> instant \<Rightarrow> dashboard_state" where
  "dashboard_new mycall interfaces now =
     \<lparr>db_mycall = mycall, db_started_at = now, db_interfaces = interfaces, db_erlang_stats = [],
      db_aprsis_connected = False, db_aprsis_server = [], recent_packets = [], packet_sequence = 0,
      stations = [], db_igate_stats = stats_default, gated_set = {}\<rparr>"

section \<open>Operations\<close>

definition push_packet :: "packet_snapshot \<Rightarrow> dashboard_state \<Rightarrow> dashboard_state" where
  "push_packet snapshot s =
     (let s = s\<lparr>packet_sequence := packet_sequence s + 1\<rparr>;
          snapshot = snapshot\<lparr>ps_sequence := packet_sequence s\<rparr>;
          recent = (if length (recent_packets s) \<ge> MAX_RECENT_PACKETS then tl (recent_packets s) else recent_packets s)
      in s\<lparr>recent_packets := recent @ [snapshot]\<rparr>)"

definition record_station ::
  "instant \<Rightarrow> string \<Rightarrow> string \<Rightarrow> (float_val \<times> float_val) option \<Rightarrow> dashboard_state \<Rightarrow> dashboard_state" where
  "record_station now callsign iface position s =
     (let key = to_uppercase callsign;
          entry = unwrap_or (hm_get (stations s) key)
            \<lparr>se_callsign = key, se_last_heard = now, se_interface = iface, se_heard_count = 0, se_position = None\<rparr>;
          entry = entry\<lparr>se_last_heard := now, se_interface := iface, se_heard_count := se_heard_count entry + 1\<rparr>;
          entry = (if position \<noteq> None then entry\<lparr>se_position := position\<rparr> else entry)
      in s\<lparr>stations := hm_insert key entry (stations s)\<rparr>)"

definition count_dropped :: "igate_stats \<Rightarrow> igate_stats" where
  "count_dropped st = st\<lparr>dropped_total := dropped_total st + 1\<rparr>"

definition record_igate_result :: "string \<Rightarrow> gate_result \<Rightarrow> dashboard_state \<Rightarrow> dashboard_state" where
  "record_igate_result source result s =
     (let st = (db_igate_stats s)\<lparr>rx_from_rf := rx_from_rf (db_igate_stats s) + 1\<rparr>
      in case result of
           Gated line \<Rightarrow>
             (let st = st\<lparr>gated_to_aprsis := gated_to_aprsis st + 1\<rparr>;
                  key = to_uppercase source
              in if key \<notin> gated_set s
                 then s\<lparr>gated_set := insert key (gated_set s),
                        db_igate_stats := st\<lparr>unique_stations_gated := of_nat (card (insert key (gated_set s)))\<rparr>\<rparr>
                 else s\<lparr>db_igate_stats := st\<rparr>)
         | DroppedQuery \<Rightarrow>
             s\<lparr>db_igate_stats := (count_dropped st)\<lparr>dropped_query := dropped_query st + 1\<rparr>\<rparr>
         | DroppedForbiddenSource \<Rightarrow>
             s\<lparr>db_igate_stats := (count_dropped st)\<lparr>dropped_forbidden_source := dropped_forbidden_source st + 1\<rparr>\<rparr>
         | DroppedForbiddenDest \<Rightarrow>
             s\<lparr>db_igate_stats := (count_dropped st)\<lparr>dropped_forbidden_dest := dropped_forbidden_dest st + 1\<rparr>\<rparr>
         | DroppedForbiddenVia \<Rightarrow>
             s\<lparr>db_igate_stats := (count_dropped st)\<lparr>dropped_forbidden_via := dropped_forbidden_via st + 1\<rparr>\<rparr>
         | DroppedDepthExceeded \<Rightarrow>
             s\<lparr>db_igate_stats := (count_dropped st)\<lparr>dropped_depth_exceeded := dropped_depth_exceeded st + 1\<rparr>\<rparr>)"

section \<open>The report\<close>

record dashboard_json =
  dj_version :: string
  dj_mycall :: string
  dj_uptime_secs :: nat
  dj_timestamp :: nat
  dj_interfaces :: "interface_info list"
  dj_erlang_stats :: "erlang_channel_snapshot list"
  dj_aprsis_connected :: bool
  dj_aprsis_server :: string
  dj_recent_packets :: "packet_snapshot list"
  dj_packet_sequence :: nat
  dj_stations :: "station_snapshot list"
  dj_stations_heard :: nat
  dj_rx_per_min :: u64
  dj_tx_per_min :: u64
  dj_igate_stats :: igate_stats

definition as_secs :: "duration \<Rightarrow> nat" where
  "as_secs d = d div 1000000000"

definition station_snapshot_of :: "instant \<Rightarrow> station_entry \<Rightarrow> station_snapshot" where
  "station_snapshot_of now e =
     \<lparr>ss_callsign = se_callsign e, ss_secs_ago = as_secs (duration_since now (se_last_heard e)),
      ss_interface = se_interface e, ss_heard_count = se_heard_count e, ss_position = se_position e\<rparr>"

text \<open>Packets per minute of a channel: the current window, or the last one where that is empty.\<close>

definition per_min :: "(window_stats \<Rightarrow> u64) \<Rightarrow> erlang_channel_snapshot \<Rightarrow> u64" where
  "per_min field ch = (if field (es_current ch) > 0 then field (es_current ch) else field (es_last_1min ch))"

definition dashboard_report :: "string \<Rightarrow> instant \<Rightarrow> nat \<Rightarrow> dashboard_state \<Rightarrow> dashboard_json" where
  "dashboard_report version now now_epoch s =
     (let stations' = sort_key ss_secs_ago (map (\<lambda>(k, e). station_snapshot_of now e) (stations s));
          (rx_per_min, tx_per_min) =
            foldl (\<lambda>(rx, tx) ch. (rx + per_min rx_packets ch, tx + per_min tx_packets ch)) (0, 0) (db_erlang_stats s)
      in \<lparr>dj_version = version, dj_mycall = db_mycall s, dj_uptime_secs = as_secs (duration_since now (db_started_at s)),
          dj_timestamp = now_epoch, dj_interfaces = db_interfaces s, dj_erlang_stats = db_erlang_stats s,
          dj_aprsis_connected = db_aprsis_connected s, dj_aprsis_server = db_aprsis_server s,
          dj_recent_packets = recent_packets s, dj_packet_sequence = packet_sequence s,
          dj_stations = stations', dj_stations_heard = length (stations s),
          dj_rx_per_min = rx_per_min, dj_tx_per_min = tx_per_min, dj_igate_stats = db_igate_stats s\<rparr>)"

definition to_json :: "(dashboard_json \<Rightarrow> string option) \<Rightarrow> string \<Rightarrow> instant \<Rightarrow> nat \<Rightarrow> dashboard_state \<Rightarrow> string" where
  "to_json serialize version now now_epoch s =
     unwrap_or (serialize (dashboard_report version now now_epoch s)) (''{'' @ ''}'')"

section \<open>Numbered logs\<close>

text \<open>What a reader of the recent packets relies on: a push gives the next number and keeps the last
  \<open>cap\<close> entries.\<close>

definition newer :: "nat \<Rightarrow> (nat \<times> 'y) list \<Rightarrow> (nat \<times> 'y) list" where
  "newer last_seen entries = filter (\<lambda>(i, y). last_seen < i) entries"

fun numbered :: "nat \<Rightarrow> 'y list \<Rightarrow> (nat \<times> 'y) list" where
  "numbered n [] = []"
| "numbered n (y # ys) = (Suc n, y) # numbered (Suc n) ys"

lemma length_numbered [simp]: "length (numbered n ys) = length ys"
  by (induction ys arbitrary: n) simp_all

lemma numbered_bounds: "(i, y) \<in> set (numbered n ys) \<Longrightarrow> n < i \<and> i \<le> n + length ys"
  by (induction ys arbitrary: n) fastforce+

lemma last_n_append: "last_n cap (last_n cap us @ vs) = last_n cap (us @ vs)"
  by (cases "length us \<le> cap") (simp_all add: last_n_def add.commute)

locale numbered_log =
  fixes push :: "'x \<Rightarrow> 's \<Rightarrow> 's"
    and number :: "'s \<Rightarrow> nat"
    and recent :: "'s \<Rightarrow> (nat \<times> 'y) list"
    and view :: "'x \<Rightarrow> 'y"
    and cap :: nat
    and ok :: "'s \<Rightarrow> bool"
  assumes ok_push: "ok s \<Longrightarrow> ok (push x s)"
    and number_push: "number (push x s) = Suc (number s)"
    and recent_push: "ok s \<Longrightarrow> recent (push x s) = last_n cap (recent s @ [(Suc (number s), view x)])"
    and recent_old: "ok s \<Longrightarrow> (i, y) \<in> set (recent s) \<Longrightarrow> i \<le> number s"
    and recent_short: "ok s \<Longrightarrow> length (recent s) \<le> cap"
begin

lemma push_all:
  "ok s \<Longrightarrow> ok (fold push xs s) \<and> number (fold push xs s) = number s + length xs
    \<and> recent (fold push xs s) = last_n cap (recent s @ numbered (number s) (map view xs))"
proof (induction xs arbitrary: s)
  case Nil
  then show ?case using recent_short by (simp add: last_n_def)
next
  case (Cons x xs)
  show ?case
    using Cons.IH [OF ok_push [OF Cons.prems]] number_push [of x s] recent_push [OF Cons.prems, of x]
    by (simp add: last_n_append)
qed

text \<open>Reading what is newer than a number gives what was pushed since, as far as it was kept.\<close>

lemma newer_pushed:
  assumes "ok s"
  shows "newer (number s) (recent (fold push xs s)) = last_n cap (numbered (number s) (map view xs))"
proof -
  have old: "newer (number s) (drop n (recent s)) = []" for n
    using recent_old [OF assms] by (fastforce simp: newer_def filter_empty_conv dest: in_set_dropD)
  have new: "newer (number s) (drop n (numbered (number s) ys)) = drop n (numbered (number s) ys)" for n and ys :: "'y list"
    using numbered_bounds by (fastforce simp: newer_def filter_id_conv dest: in_set_dropD)
  have app: "newer k (us @ vs) = newer k us @ newer k vs" for k and us vs :: "(nat \<times> 'y) list"
    by (simp add: newer_def)
  show ?thesis
    using push_all [OF assms, of xs] old new recent_short [OF assms]
    by (simp add: last_n_def app)
qed

end

text \<open>A packet without its number.\<close>

definition unnumbered :: "packet_snapshot \<Rightarrow> packet_snapshot" where
  "unnumbered p = p\<lparr>ps_sequence := 0\<rparr>"

definition recent_log :: "dashboard_state \<Rightarrow> (nat \<times> packet_snapshot) list" where
  "recent_log s = map (\<lambda>p. (ps_sequence p, unnumbered p)) (recent_packets s)"

definition log_ok :: "dashboard_state \<Rightarrow> bool" where
  "log_ok s \<longleftrightarrow> length (recent_packets s) \<le> MAX_RECENT_PACKETS
     \<and> (\<forall>p\<in>set (recent_packets s). ps_sequence p \<le> packet_sequence s)"

lemma log_ok_new: "log_ok (dashboard_new mycall infos now)"
  by (simp add: log_ok_def dashboard_new_def)

lemma push_packet_simps:
  "packet_sequence (push_packet x s) = Suc (packet_sequence s)"
  "recent_packets (push_packet x s) =
     (if length (recent_packets s) \<ge> MAX_RECENT_PACKETS then tl (recent_packets s) else recent_packets s)
     @ [x\<lparr>ps_sequence := Suc (packet_sequence s)\<rparr>]"
  by (simp_all add: push_packet_def Let_def)

interpretation dashboard_log: numbered_log push_packet packet_sequence recent_log unnumbered MAX_RECENT_PACKETS log_ok
proof unfold_locales
  fix s x assume ok: "log_ok s"
  show "log_ok (push_packet x s)"
    using ok list.set_sel(2) [of "recent_packets s"]
    by (cases "recent_packets s") (auto simp: log_ok_def push_packet_simps MAX_RECENT_PACKETS_def)
  show "recent_log (push_packet x s) = last_n MAX_RECENT_PACKETS (recent_log s @ [(Suc (packet_sequence s), unnumbered x)])"
  proof (cases "length (recent_packets s) = MAX_RECENT_PACKETS")
    case True
    then have "recent_packets s \<noteq> []" "Suc 0 - MAX_RECENT_PACKETS = 0" by (auto simp: MAX_RECENT_PACKETS_def)
    then show ?thesis
      using True by (simp add: recent_log_def push_packet_simps last_n_def unnumbered_def drop_Suc map_tl)
  next
    case False
    then show ?thesis
      using ok by (simp add: log_ok_def recent_log_def push_packet_simps last_n_def unnumbered_def)
  qed
qed (auto simp: log_ok_def recent_log_def push_packet_simps)

section \<open>The statistics add up\<close>

text \<open>The drops by cause.\<close>

definition drops_by_cause :: "igate_stats \<Rightarrow> u64" where
  "drops_by_cause st = dropped_query st + dropped_forbidden_source st + dropped_forbidden_dest st
     + dropped_forbidden_via st + dropped_depth_exceeded st"

definition stats_inv :: "dashboard_state \<Rightarrow> bool" where
  "stats_inv s \<longleftrightarrow>
     rx_from_rf (db_igate_stats s) = gated_to_aprsis (db_igate_stats s) + dropped_total (db_igate_stats s)
     \<and> dropped_total (db_igate_stats s) = drops_by_cause (db_igate_stats s)
     \<and> unique_stations_gated (db_igate_stats s) = of_nat (card (gated_set s))"

lemma record_igate_result_inv: "stats_inv s \<Longrightarrow> stats_inv (record_igate_result source result s)"
  by (cases result) (auto simp: stats_inv_def record_igate_result_def count_dropped_def drops_by_cause_def Let_def)

fun record_all :: "(string \<times> gate_result) list \<Rightarrow> dashboard_state \<Rightarrow> dashboard_state" where
  "record_all [] s = s"
| "record_all ((source, result) # rs) s = record_all rs (record_igate_result source result s)"

lemma record_all_inv: "stats_inv s \<Longrightarrow> stats_inv (record_all rs s)"
  by (induction rs s rule: record_all.induct) (simp_all add: record_igate_result_inv)

lemma record_igate_result_counts:
  "rx_from_rf (db_igate_stats (record_igate_result source result s)) = rx_from_rf (db_igate_stats s) + 1"
  "gated_set (record_igate_result source result s) =
     (case result of Gated l \<Rightarrow> insert (to_uppercase source) (gated_set s) | _ \<Rightarrow> gated_set s)"
  by (auto simp: record_igate_result_def count_dropped_def Let_def split: gate_result.split)

lemma record_all_counts:
  "rx_from_rf (db_igate_stats (record_all rs s)) = rx_from_rf (db_igate_stats s) + of_nat (length rs)"
  "gated_set (record_all rs s) = gated_set s \<union> {to_uppercase source |source l. (source, Gated l) \<in> set rs}"
proof (induction rs s rule: record_all.induct)
  case (2 source result rs s)
  {
    case 1
    then show ?case using 2(1) by (simp add: record_igate_result_counts)
  next
    case 2
    then show ?case using \<open>gated_set (record_all rs (record_igate_result source result s)) = _\<close>
      by (cases result) (auto simp: record_igate_result_counts)
  }
qed simp_all

text \<open>C36: the statistics of the dashboard add up after any decisions: the packets from RF are those gated and
  those dropped, the drops are the sum of the drops by cause, the number of stations is the number
  of different calls gated, all modulo the 64 bits of the counters.\<close>

theorem igate_stats_balance:
  "let st = db_igate_stats (record_all rs (dashboard_new mycall infos now))
   in rx_from_rf st = of_nat (length rs) \<and> rx_from_rf st = gated_to_aprsis st + dropped_total st
      \<and> dropped_total st = drops_by_cause st
      \<and> unique_stations_gated st = of_nat (card {to_uppercase source |source l. (source, Gated l) \<in> set rs})"
proof -
  let ?s = "dashboard_new mycall infos now"
  have "stats_inv ?s" by (simp add: stats_inv_def dashboard_new_def stats_default_def drops_by_cause_def)
  then have "stats_inv (record_all rs ?s)" by (rule record_all_inv)
  moreover have "rx_from_rf (db_igate_stats ?s) = 0" "gated_set ?s = {}"
    by (simp_all add: dashboard_new_def stats_default_def)
  ultimately show ?thesis using record_all_counts [of rs ?s] by (simp add: stats_inv_def Let_def)
qed

end
