(* ===== verification/Web_Server.thy ===== *)
theory Web_Server
  imports Web_State Config
begin

text \<open>
  \<open>src/web/server.rs\<close>: the HTTP server of the dashboard. The bytes of a connection are the chunks its
  buffered reader gets, none of them empty; their end is the end of the stream. Whether a read takes longer than its
  timeout is an argument (\<open>slow\<close>), and so are the static pages, which are files of the repository that are not code.
  What the listener accepts is a list, the errors of accepting in it; the errors of writing a plain response are not
  modelled. The streams of events are steps on the shared count
  of connections here; what one sends is in \<open>Sse_Stream\<close>.
\<close>

section \<open>Lines of bounded length\<close>

definition MAX_SSE_CONNECTIONS :: u32 where "MAX_SSE_CONNECTIONS = 5"
definition SSE_STATE_INTERVAL_MS :: nat where "SSE_STATE_INTERVAL_MS = 5000"
definition SSE_POLL_INTERVAL_MS :: nat where "SSE_POLL_INTERVAL_MS = 200"
definition MAX_REQUEST_LINE_LEN :: nat where "MAX_REQUEST_LINE_LEN = 8192"
definition MAX_HEADER_COUNT :: nat where "MAX_HEADER_COUNT = 64"
definition MAX_HEADER_LINE_LEN :: nat where "MAX_HEADER_LINE_LEN = 8192"
definition SSE_MAX_LIFETIME_SECS :: nat where "SSE_MAX_LIFETIME_SECS = 300"

datatype read_result = LineRead string | EndOfInput | ReadFailed

definition from_utf8_line :: "string \<Rightarrow> read_result" where
  "from_utf8_line buf = (if utf8_valid buf then LineRead buf else ReadFailed)"

text \<open>\<open>consume(n)\<close>.\<close>

definition consume :: "nat \<Rightarrow> string \<Rightarrow> string list \<Rightarrow> string list" where
  "consume n available rest = (if n < length available then drop n available # rest else rest)"

fun read_line_loop :: "nat \<Rightarrow> string \<Rightarrow> string list \<Rightarrow> read_result \<times> string list" where
  "read_line_loop max_len buf [] = (if buf = [] then EndOfInput else from_utf8_line buf, [])"
| "read_line_loop max_len buf (available # rest) =
     (case str_find (\<lambda>c. c = CHR 0x0A) available of
        Some newline_pos \<Rightarrow>
          (let to_take = newline_pos + 1
           in if length buf + to_take > max_len then (ReadFailed, available # rest)
              else (from_utf8_line (buf @ take to_take available), consume to_take available rest))
      | None \<Rightarrow>
          if length buf + length available > max_len then (ReadFailed, available # rest)
          else read_line_loop max_len (buf @ available) rest)"

definition read_line_bounded :: "nat \<Rightarrow> string list \<Rightarrow> read_result \<times> string list" where
  "read_line_bounded max_len chunks = read_line_loop max_len [] chunks"

section \<open>Requests\<close>

record http_request =
  hr_method :: string
  hr_path :: string

fun word_length :: "string \<Rightarrow> nat" where
  "word_length [] = 0"
| "word_length (c # s) = (if leading white_space (c # s) > 0 then 0 else Suc (word_length s))"

text \<open>\<open>split_whitespace().next()\<close>: the first word and what follows it.\<close>

definition next_word :: "string \<Rightarrow> (string \<times> string) option" where
  "next_word s =
     (let s = trim_start s
      in if s = [] then None else Some (take (word_length s) s, drop (word_length s) s))"

definition parse_request_line :: "string \<Rightarrow> http_request option" where
  "parse_request_line line =
     (case next_word line of
        None \<Rightarrow> None
      | Some (method, rest) \<Rightarrow>
          (case next_word rest of
             None \<Rightarrow> None
           | Some (path, _) \<Rightarrow> Some \<lparr>hr_method = method, hr_path = path\<rparr>))"

text \<open>How a connection is answered: not at all, with a time-out error, with a response, or by a stream.\<close>

datatype answer = NoAnswer | TimedOut | Response nat string string | EventStream

fun status_text :: "nat \<Rightarrow> string" where
  "status_text status =
     (if status = 200 then ''OK'' else if status = 400 then ''Bad Request''
      else if status = 404 then ''Not Found'' else if status = 405 then ''Method Not Allowed''
      else if status = 503 then ''Service Unavailable'' else ''Unknown'')"

definition write_response :: "nat \<Rightarrow> string \<Rightarrow> string \<Rightarrow> string" where
  "write_response status content_type body =
     ''HTTP/1.1 '' @ show_nat status @ '' '' @ status_text status @ CRLF
     @ ''Content-Type: '' @ content_type @ CRLF
     @ ''Content-Length: '' @ show_nat (length body) @ CRLF
     @ ''Connection: close'' @ CRLF @ CRLF @ body"

definition bad_request :: answer where
  "bad_request = Response 400 ''text/plain'' ''Bad Request''"

text \<open>The loop over the headers: \<^const>\<open>None\<close> when it is left for the rest of the handler. \<open>i\<close> counts
  the reads of the connection.\<close>

function read_headers :: "(nat \<Rightarrow> bool) \<Rightarrow> nat \<Rightarrow> nat \<Rightarrow> string list \<Rightarrow> answer option" where
  "read_headers slow i header_count chunks =
     (if slow i then Some TimedOut
      else (case read_line_bounded MAX_HEADER_LINE_LEN chunks of
              (LineRead header_line, chunks) \<Rightarrow>
                if trim header_line = [] then None
                else if header_count + 1 \<ge> MAX_HEADER_COUNT then Some bad_request
                else read_headers slow (Suc i) (header_count + 1) chunks
            | (EndOfInput, _) \<Rightarrow> None
            | (ReadFailed, _) \<Rightarrow> Some bad_request))"
  by pat_completeness auto
termination read_headers
  by (relation "measure (\<lambda>(slow, i, n, chunks). MAX_HEADER_COUNT - n)") auto

declare read_headers.simps [simp del]

record static_pages =
  index_html :: string
  style_css :: string
  app_js :: string

definition route :: "static_pages \<Rightarrow> string \<Rightarrow> http_request \<Rightarrow> answer" where
  "route pages state_json r =
     (if hr_method r \<noteq> ''GET'' then Response 405 ''text/plain'' ''Method Not Allowed''
      else if hr_path r = ''/'' then Response 200 ''text/html; charset=utf-8'' (index_html pages)
      else if hr_path r = ''/style.css'' then Response 200 ''text/css; charset=utf-8'' (style_css pages)
      else if hr_path r = ''/app.js'' then Response 200 ''application/javascript; charset=utf-8'' (app_js pages)
      else if hr_path r = ''/api/state'' then Response 200 ''application/json'' state_json
      else if hr_path r = ''/api/events'' then EventStream
      else Response 404 ''text/plain'' ''Not Found'')"

definition handle_connection :: "static_pages \<Rightarrow> string \<Rightarrow> (nat \<Rightarrow> bool) \<Rightarrow> string list \<Rightarrow> answer" where
  "handle_connection pages state_json slow chunks =
     (if slow 0 then TimedOut
      else (case read_line_bounded MAX_REQUEST_LINE_LEN chunks of
              (LineRead line, chunks) \<Rightarrow>
                (case parse_request_line (trim line) of
                   None \<Rightarrow> bad_request
                 | Some request \<Rightarrow>
                     (case read_headers slow 1 0 chunks of
                        Some a \<Rightarrow> a
                      | None \<Rightarrow> route pages state_json request))
            | (EndOfInput, _) \<Rightarrow> NoAnswer
            | (ReadFailed, _) \<Rightarrow> bad_request))"

definition spawn_address :: "web_config \<Rightarrow> string" where
  "spawn_address cfg = wc_listen cfg @ '':'' @ show_nat (unat (wc_port cfg))"

section \<open>The listener\<close>

text \<open>What \<open>accept\<close> returns: an error, or a connection with the state's JSON at its time, its timeouts and its bytes.
  A task of its own answers each connection, an error is only logged; the loop does not end, so a list of what it has
  accepted is a point of its run.\<close>

datatype accepted = AcceptFailed | Accepted string "nat \<Rightarrow> bool" "string list"

fun accept_loop :: "static_pages \<Rightarrow> accepted list \<Rightarrow> answer list" where
  "accept_loop pages [] = []"
| "accept_loop pages (AcceptFailed # accepts) = accept_loop pages accepts"
| "accept_loop pages (Accepted state_json slow chunks # accepts) =
     handle_connection pages state_json slow chunks # accept_loop pages accepts"

text \<open>\<open>run_server\<close>: nothing is served when the address cannot be bound.\<close>

definition run_server :: "static_pages \<Rightarrow> bool \<Rightarrow> accepted list \<Rightarrow> answer list" where
  "run_server pages bound accepts = (if bound then accept_loop pages accepts else [])"

section \<open>Event streams\<close>

text \<open>\<open>str::lines\<close>.\<close>

definition chomp :: "string \<Rightarrow> string" where
  "chomp l = (if ends_with_char (CHR 0x0D) l then butlast l else l)"

definition text_lines :: "string \<Rightarrow> string list" where
  "text_lines s =
     (let ls = str_split (\<lambda>c. c = CHR 0x0A) s
      in map chomp (butlast ls) @ (if last ls = [] then [] else [last ls]))"

definition format_sse_event :: "string \<Rightarrow> string \<Rightarrow> string" where
  "format_sse_event event data =
     ''event: '' @ event @ [CHR 0x0A]
     @ (if data = [] then ''data: '' @ [CHR 0x0A]
        else concat (map (\<lambda>line. ''data: '' @ line @ [CHR 0x0A]) (text_lines data)))
     @ [CHR 0x0A]"

text \<open>The connections to the stream: each has counted itself in, and either runs, or has found the
  limit exceeded and is about to count itself out; \<open>None\<close> is one that has ended.\<close>

datatype sse_connection = Counted u32 | Streaming | Ended

record sse_server =
  sse_count :: u32
  connections :: "sse_connection list"

definition sse_start :: sse_server where
  "sse_start = \<lparr>sse_count = 0, connections = []\<rparr>"

text \<open>The atomic steps of \<open>handle_sse\<close>: \<open>fetch_add\<close>, the decision with its \<open>fetch_sub\<close>, the end with its \<open>fetch_sub\<close>.\<close>

datatype sse_event = Arrive | Decide nat | End nat

fun sse_step :: "sse_event \<Rightarrow> sse_server \<Rightarrow> sse_server option" where
  "sse_step Arrive s =
     Some \<lparr>sse_count = sse_count s + 1, connections = connections s @ [Counted (sse_count s)]\<rparr>"
| "sse_step (Decide i) s =
     (case nth_opt (connections s) i of
        Some (Counted before) \<Rightarrow>
          if before \<ge> MAX_SSE_CONNECTIONS
          then Some \<lparr>sse_count = sse_count s - 1, connections = (connections s)[i := Ended]\<rparr>
          else Some (s\<lparr>connections := (connections s)[i := Streaming]\<rparr>)
      | _ \<Rightarrow> None)"
| "sse_step (End i) s =
     (case nth_opt (connections s) i of
        Some Streaming \<Rightarrow> Some \<lparr>sse_count = sse_count s - 1, connections = (connections s)[i := Ended]\<rparr>
      | _ \<Rightarrow> None)"

fun sse_run :: "sse_event list \<Rightarrow> sse_server \<Rightarrow> sse_server option" where
  "sse_run [] s = Some s"
| "sse_run (e # es) s = (case sse_step e s of None \<Rightarrow> None | Some s' \<Rightarrow> sse_run es s')"

section \<open>Connections do not disturb each other\<close>

lemma accept_loop_append: "accept_loop pages (xs @ ys) = accept_loop pages xs @ accept_loop pages ys"
  by (induction pages xs rule: accept_loop.induct) auto

text \<open>Whatever came before it, an error of \<open>accept\<close>, a request that times out or one that is refused, a connection
  that the bound listener accepts gets the answer it would get alone.\<close>

lemma run_server_keeps_serving:
  assumes "run_server pages True before = answers"
  shows "run_server pages True (before @ AcceptFailed # Accepted state_json slow chunks # after)
    = answers @ handle_connection pages state_json slow chunks # run_server pages True after"
  using assms by (simp add: run_server_def accept_loop_append)

section \<open>Lines do not depend on the chunks\<close>

text \<open>The same on the whole input.\<close>

definition line_spec :: "nat \<Rightarrow> string \<Rightarrow> read_result \<times> string" where
  "line_spec max_len s =
     (let n = (case str_find (\<lambda>c. c = CHR 0x0A) s of Some p \<Rightarrow> p + 1 | None \<Rightarrow> length s)
      in if s = [] then (EndOfInput, [])
         else if n > max_len then (ReadFailed, s) else (from_utf8_line (take n s), drop n s))"

lemma concat_consume: "n \<le> length c \<Longrightarrow> concat (consume n c rest) = drop n (c @ concat rest)"
  by (simp add: consume_def)

lemma consume_nonempty: "[] \<notin> set rest \<Longrightarrow> [] \<notin> set (consume n c rest)"
  by (auto simp: consume_def)

lemma str_find_skip:
  "\<forall>c\<in>set s. \<not> p c \<Longrightarrow> str_find p (s @ t) = map_option (\<lambda>i. length s + i) (str_find p t)"
  by (induction s; cases "str_find p t") auto

lemma str_find_first: "str_find p s = Some i \<Longrightarrow> str_find p (s @ t) = Some i"
  by (induction s arbitrary: i) (auto split: if_splits)

lemma read_line_loop_spec:
  assumes "[] \<notin> set chunks" "CHR 0x0A \<notin> set buf" "length buf \<le> max_len"
  shows "fst (read_line_loop max_len buf chunks) = fst (line_spec max_len (buf @ concat chunks))
    \<and> (fst (read_line_loop max_len buf chunks) \<noteq> ReadFailed
        \<longrightarrow> concat (snd (read_line_loop max_len buf chunks)) = snd (line_spec max_len (buf @ concat chunks)))
    \<and> [] \<notin> set (snd (read_line_loop max_len buf chunks))"
  using assms
proof (induction max_len buf chunks rule: read_line_loop.induct)
  case (1 max_len buf)
  have "str_find (\<lambda>c. c = CHR 0x0A) buf = None" using 1 by (auto simp: str_find_None)
  then show ?case using 1 by (simp add: line_spec_def Let_def)
next
  case (2 max_len buf c rest)
  have buf: "str_find (\<lambda>c. c = CHR 0x0A) buf = None" using 2 by (auto simp: str_find_None)
  show ?case
  proof (cases "str_find (\<lambda>c. c = CHR 0x0A) c")
    case None
    then have no: "CHR 0x0A \<notin> set (buf @ c)" using 2 by (auto simp: str_find_None)
    then have find: "str_find (\<lambda>c. c = CHR 0x0A) ((buf @ c) @ concat rest)
        = map_option (\<lambda>i. length (buf @ c) + i) (str_find (\<lambda>c. c = CHR 0x0A) (concat rest))"
      by (intro str_find_skip) auto
    show ?thesis
    proof (cases "length buf + length c > max_len")
      case True
      have "c \<noteq> []" using 2(2) by auto
      then show ?thesis using True None find 2(2)
        by (auto simp: line_spec_def Let_def split: option.split)
    next
      case False
      then show ?thesis using 2(1) [OF None False] 2(2) None no by simp
    qed
  next
    case (Some p)
    have p: "p < length c" using str_find_Some [OF Some] by simp
    have find: "str_find (\<lambda>c. c = CHR 0x0A) (buf @ c @ concat rest) = Some (length buf + p)"
      using buf str_find_first [OF Some, of "concat rest"] str_find_skip [of buf _ "c @ concat rest"]
      by (simp add: str_find_None)
    have c: "c \<noteq> []" using 2(2) by auto
    show ?thesis
    proof (cases "length buf + (p + 1) > max_len")
      case True
      then show ?thesis using Some find c 2(2) by (simp add: line_spec_def)
    next
      case False
      have "concat (consume (p + 1) c rest) = drop (p + 1) (c @ concat rest)"
        using p by (intro concat_consume) simp
      then show ?thesis using Some find c p False 2(2) consume_nonempty [of rest "p + 1" c]
        by (simp add: line_spec_def from_utf8_line_def)
    qed
  qed
qed

lemma read_line_bounded_spec:
  assumes "[] \<notin> set chunks"
  shows "fst (read_line_bounded n chunks) = fst (line_spec n (concat chunks))"
    "fst (read_line_bounded n chunks) \<noteq> ReadFailed \<Longrightarrow> concat (snd (read_line_bounded n chunks)) = snd (line_spec n (concat chunks))"
    "[] \<notin> set (snd (read_line_bounded n chunks))"
  using read_line_loop_spec [OF assms, of "[]" n] by (simp_all add: read_line_bounded_def)

text \<open>Two chunkings of the same bytes: the line is the same, and so is what is left.\<close>

lemma read_line_same:
  assumes "concat chunks = concat chunks'" "[] \<notin> set chunks" "[] \<notin> set chunks'"
    and "read_line_bounded n chunks = (r, rest)"
  obtains rest' where "read_line_bounded n chunks' = (r, rest')" "[] \<notin> set rest" "[] \<notin> set rest'"
    "r \<noteq> ReadFailed \<Longrightarrow> concat rest = concat rest'"
proof -
  obtain r' rest' where r': "read_line_bounded n chunks' = (r', rest')" by (cases "read_line_bounded n chunks'")
  have "r' = r" using read_line_bounded_spec(1) [OF assms(2), of n] read_line_bounded_spec(1) [OF assms(3), of n] assms(1,4) r' by simp
  moreover have "r \<noteq> ReadFailed \<Longrightarrow> concat rest = concat rest'"
    using read_line_bounded_spec(2) [OF assms(2), of n] read_line_bounded_spec(2) [OF assms(3), of n] assms(1,4) r' \<open>r' = r\<close> by simp
  moreover have "[] \<notin> set rest" "[] \<notin> set rest'"
    using read_line_bounded_spec(3) [OF assms(2), of n] read_line_bounded_spec(3) [OF assms(3), of n] assms(4) r' by simp_all
  ultimately show ?thesis using that r' by blast
qed

lemma read_headers_same:
  "concat chunks = concat chunks' \<Longrightarrow> [] \<notin> set chunks \<Longrightarrow> [] \<notin> set chunks'
    \<Longrightarrow> read_headers slow i n chunks = read_headers slow i n chunks'"
proof (induction slow i n chunks arbitrary: chunks' rule: read_headers.induct)
  case (1 slow i n chunks)
  obtain r rest where r: "read_line_bounded MAX_HEADER_LINE_LEN chunks = (r, rest)"
    by (cases "read_line_bounded MAX_HEADER_LINE_LEN chunks")
  from read_line_same [OF 1(2-4) this] obtain rest' where
    r': "read_line_bounded MAX_HEADER_LINE_LEN chunks' = (r, rest')" "[] \<notin> set rest" "[] \<notin> set rest'"
    "r \<noteq> ReadFailed \<Longrightarrow> concat rest = concat rest'" by blast
  show ?case
  proof (cases r)
    case (LineRead l)
    show ?thesis
    proof (cases "slow i \<or> trim l = [] \<or> n + 1 \<ge> MAX_HEADER_COUNT")
      case True
      then show ?thesis using r r'(1) LineRead
        by (auto simp: read_headers.simps [of slow i n chunks] read_headers.simps [of slow i n chunks'])
    next
      case False
      then have "read_headers slow (Suc i) (n + 1) rest = read_headers slow (Suc i) (n + 1) rest'"
        using 1(1) [OF _ r [symmetric, unfolded LineRead] refl] r' LineRead by auto
      then show ?thesis using False r r'(1) LineRead
        by (simp add: read_headers.simps [of slow i n chunks] read_headers.simps [of slow i n chunks'])
    qed
  qed (use r r'(1) in \<open>simp_all add: read_headers.simps [of slow i n chunks] read_headers.simps [of slow i n chunks']\<close>)
qed

text \<open>C37: the answer to a connection depends on the bytes that arrive, not on how they are cut into chunks.\<close>

theorem http_answer_chunking:
  assumes "concat chunks = concat chunks'" "[] \<notin> set chunks" "[] \<notin> set chunks'"
  shows "handle_connection pages json slow chunks = handle_connection pages json slow chunks'"
proof -
  obtain r rest where r: "read_line_bounded MAX_REQUEST_LINE_LEN chunks = (r, rest)"
    by (cases "read_line_bounded MAX_REQUEST_LINE_LEN chunks")
  from read_line_same [OF assms this] obtain rest' where
    r': "read_line_bounded MAX_REQUEST_LINE_LEN chunks' = (r, rest')" "[] \<notin> set rest" "[] \<notin> set rest'"
    "r \<noteq> ReadFailed \<Longrightarrow> concat rest = concat rest'" by blast
  have "read_headers slow 1 0 rest = read_headers slow 1 0 rest'" if "r = LineRead l" for l
    using that r' by (intro read_headers_same) auto
  then show ?thesis
    using r r'(1) by (cases r) (simp_all add: handle_connection_def split: option.split)
qed

section \<open>Requests that are served\<close>

lemma line_of:
  assumes "CHR 0x0A \<notin> set l" "length l + 1 \<le> n" "utf8_valid (l @ [CHR 0x0A])"
  shows "read_line_bounded n [l @ [CHR 0x0A] @ s] = (LineRead (l @ [CHR 0x0A]), if s = [] then [] else [s])"
proof -
  have "str_find (\<lambda>c. c = CHR 0x0A) (l @ [CHR 0x0A] @ s) = Some (length l)"
    using assms(1) str_find_append [of l "\<lambda>c. c = CHR 0x0A" "CHR 0x0A" s] by auto
  then show ?thesis
    using assms(2,3) by (auto simp: read_line_bounded_def from_utf8_line_def consume_def)
qed

section \<open>Streams\<close>

lemma count_update:
  "i < length xs \<Longrightarrow> length (filter P (xs[i := y])) + (if P (xs ! i) then 1 else 0)
    = length (filter P xs) + (if P y then 1 else 0)"
proof (induction xs arbitrary: i)
  case (Cons x xs)
  then show ?case by (cases i) auto
qed simp

definition is_live :: "sse_connection \<Rightarrow> bool" where
  "is_live c \<longleftrightarrow> c \<noteq> Ended"

definition admitted :: "sse_connection \<Rightarrow> bool" where
  "admitted c \<longleftrightarrow> c = Streaming \<or> (\<exists>b. c = Counted b \<and> b < MAX_SSE_CONNECTIONS)"

lemma live_simps [simp]: "is_live (Counted b)" "is_live Streaming" "\<not> is_live Ended"
  by (simp_all add: is_live_def)

lemma admitted_simps [simp]:
  "admitted (Counted b) \<longleftrightarrow> b < MAX_SSE_CONNECTIONS" "admitted Streaming" "\<not> admitted Ended"
  by (simp_all add: admitted_def)

definition sse_inv :: "sse_server \<Rightarrow> bool" where
  "sse_inv s \<longleftrightarrow> unat (sse_count s) = length (filter is_live (connections s))
     \<and> length (filter admitted (connections s)) \<le> 5"

lemma admitted_live: "length (filter admitted cs) \<le> length (filter is_live cs)"
proof (induction cs)
  case (Cons c cs)
  then show ?case by (cases c) auto
qed simp

lemma unat_dec: "unat (c :: u32) = Suc n \<Longrightarrow> unat (c - 1) = n"
proof -
  assume "unat c = Suc n"
  moreover from this have "c \<noteq> 0" by auto
  ultimately show "unat (c - 1) = n" by (simp add: unat_minus_one)
qed

lemma sse_step_inv:
  assumes "sse_step e s = Some s'" "sse_inv s" "length (connections s) + 1 < 2 ^ 32"
  shows "sse_inv s' \<and> length (connections s') \<le> length (connections s) + 1"
proof (cases e)
  case Arrive
  have live: "unat (sse_count s) = length (filter is_live (connections s))" using assms(2) by (simp add: sse_inv_def)
  have "length (filter is_live (connections s)) \<le> length (connections s)" by simp
  then have "unat (sse_count s) + 1 < 2 ^ 32" using live assms(3) by linarith
  then have "unat (sse_count s + 1) = unat (sse_count s) + 1" by (simp add: unat_word_ariths)
  moreover have "sse_count s < MAX_SSE_CONNECTIONS \<Longrightarrow> length (filter admitted (connections s)) < 5"
    using live admitted_live [of "connections s"] by (simp add: MAX_SSE_CONNECTIONS_def word_less_nat_alt)
  ultimately show ?thesis using Arrive assms(1,2) by (auto simp: sse_inv_def)
next
  case (Decide i)
  then obtain b where i: "i < length (connections s)" "connections s ! i = Counted b"
    using assms(1) by (auto simp: nth_opt_def split: if_splits option.splits sse_connection.splits)
  note upd = count_update [OF i(1)]
  show ?thesis
  proof (cases "MAX_SSE_CONNECTIONS \<le> b")
    case True
    then have "length (filter is_live (connections s)) = Suc (length (filter is_live ((connections s)[i := Ended])))"
      "length (filter admitted ((connections s)[i := Ended])) = length (filter admitted (connections s))"
      using upd [of is_live Ended] upd [of admitted Ended] i(2) by (auto simp: not_less [symmetric])
    then show ?thesis using Decide assms(1,2) i True unat_dec by (auto simp: sse_inv_def nth_opt_def)
  next
    case False
    then have "length (filter is_live ((connections s)[i := Streaming])) = length (filter is_live (connections s))"
      "length (filter admitted ((connections s)[i := Streaming])) = length (filter admitted (connections s))"
      using upd [of is_live Streaming] upd [of admitted Streaming] i(2) by (auto simp: not_le)
    then show ?thesis using Decide assms(1,2) i False by (auto simp: sse_inv_def nth_opt_def)
  qed
next
  case (End i)
  then have i: "i < length (connections s)" "connections s ! i = Streaming"
    using assms(1) by (auto simp: nth_opt_def split: if_splits option.splits sse_connection.splits)
  note upd = count_update [OF i(1)]
  have "length (filter is_live (connections s)) = Suc (length (filter is_live ((connections s)[i := Ended])))"
    "length (filter admitted ((connections s)[i := Ended])) \<le> length (filter admitted (connections s))"
    using upd [of is_live Ended] upd [of admitted Ended] i(2) by auto
  then show ?thesis using End assms(1,2) i unat_dec by (auto simp: sse_inv_def nth_opt_def)
qed

lemma sse_run_inv:
  "sse_run es s = Some s' \<Longrightarrow> sse_inv s \<Longrightarrow> length (connections s) + length es < 2 ^ 32 \<Longrightarrow> sse_inv s'"
proof (induction es s rule: sse_run.induct)
  case (2 e es s)
  from 2(2) obtain s1 where step: "sse_step e s = Some s1" and rest: "sse_run es s1 = Some s'"
    by (auto split: option.splits)
  have "sse_inv s1 \<and> length (connections s1) \<le> length (connections s) + 1"
    using sse_step_inv [OF step 2(3)] 2(4) by simp
  then show ?case using 2(1) [OF step rest] 2(4) by simp
qed simp

text \<open>C38: however arrivals, admissions and ends of the streams interleave, at most five run at the same time, and the shared
  counter is the number of connections that have not ended: it is zero again when all have.\<close>

theorem sse_streams_bounded:
  assumes "sse_run es sse_start = Some s" "length es < 2 ^ 32"
  shows "length (filter (\<lambda>c. c = Streaming) (connections s)) \<le> 5
    \<and> unat (sse_count s) = length (filter is_live (connections s))"
proof -
  have inv: "sse_inv s" using sse_run_inv [OF assms(1)] assms(2) by (simp add: sse_inv_def sse_start_def)
  have "length (filter (\<lambda>c. c = Streaming) cs) \<le> length (filter admitted cs)" for cs
    by (induction cs) (auto simp: admitted_def)
  then show ?thesis using inv order_trans by (fastforce simp: sse_inv_def)
qed

section \<open>Witnesses\<close>

definition demo_pages :: static_pages where
  "demo_pages = \<lparr>index_html = ''<html>'', style_css = [], app_js = []\<rparr>"

definition demo_request :: string where
  "demo_request = ''GET / HTTP/1.1'' @ [CHR 0x0D]"

definition demo_end :: string where
  "demo_end = [CHR 0x0D, CHR 0x0A]"

lemma demo_answer:
  "handle_connection demo_pages json (\<lambda>_. False) [demo_request @ [CHR 0x0A] @ demo_end]
    = Response 200 ''text/html; charset=utf-8'' ''<html>''"
proof -
  have line: "CHR 0x0A \<notin> set demo_request" "length demo_request + 1 \<le> MAX_REQUEST_LINE_LEN"
    "utf8_valid (demo_request @ [CHR 0x0A])" "demo_end \<noteq> []"
    by (simp_all add: demo_request_def demo_end_def MAX_REQUEST_LINE_LEN_def is_ascii_char_def)
  have request: "parse_request_line (trim (demo_request @ [CHR 0x0A])) = Some \<lparr>hr_method = ''GET'', hr_path = ''/''\<rparr>"
    by code_simp
  have empty: "read_line_bounded MAX_HEADER_LINE_LEN [demo_end] = (LineRead demo_end, [])" "trim demo_end = []"
  proof -
    show "read_line_bounded MAX_HEADER_LINE_LEN [demo_end] = (LineRead demo_end, [])"
      using line_of [of "[CHR 0x0D]" MAX_HEADER_LINE_LEN "[]"]
      by (simp add: demo_end_def MAX_HEADER_LINE_LEN_def is_ascii_char_def)
    show "trim demo_end = []" by code_simp
  qed
  then have headers: "read_headers (\<lambda>_. False) 1 0 [demo_end] = None"
    by (simp add: read_headers.simps [of _ "Suc 0" 0])
  show ?thesis
    using line_of [OF line(1-3), of demo_end] line(4) request headers
    by (simp add: handle_connection_def route_def demo_pages_def)
qed

theorem http_answer_chunking_witness:
  "handle_connection demo_pages [] (\<lambda>_. False) [''GE'', ''T / HTTP/1.1'', [CHR 0x0D, CHR 0x0A, CHR 0x0D], [CHR 0x0A]]
    = Response 200 ''text/html; charset=utf-8'' ''<html>''"
  using http_answer_chunking [of "[''GE'', ''T / HTTP/1.1'', [CHR 0x0D, CHR 0x0A, CHR 0x0D], [CHR 0x0A]]"
      "[demo_request @ [CHR 0x0A] @ demo_end]" demo_pages "[]" "\<lambda>_. False"] demo_answer
  by (simp add: demo_request_def demo_end_def)

theorem sse_streams_bounded_witness:
  "\<exists>s. sse_run ([Arrive, Arrive, Arrive, Arrive, Arrive, Arrive] @ map Decide [0, 1, 2, 3, 4, 5]) sse_start = Some s
    \<and> unat (sse_count s) = 5 \<and> length (filter (\<lambda>c. c = Streaming) (connections s)) \<le> 5"
proof -
  let ?es = "[Arrive, Arrive, Arrive, Arrive, Arrive, Arrive] @ map Decide [0, 1, 2, 3, 4, 5]"
  have "sse_run ?es sse_start = Some \<lparr>sse_count = 5,
      connections = [Streaming, Streaming, Streaming, Streaming, Streaming, Ended]\<rparr>"
    by (simp add: sse_start_def MAX_SSE_CONNECTIONS_def nth_opt_def word_le_nat_alt)
  with sse_streams_bounded [OF this] show ?thesis by simp
qed

end
