(* ===== verification/Sse_Stream.thy ===== *)
theory Sse_Stream
  imports Web_Server
begin

text \<open>
  \<open>handle_sse\<close> of \<open>src/web/server.rs\<close>: one stream of events from its admission to its end, beside a dashboard
  that changes at any time. A stream is a state machine: its phases are the writes it waits for and the \<open>select!\<close>, an
  event is how such a wait ended, or a change of the dashboard. \<open>st_items\<close> collects what was written; \<open>st_start\<close> is the number
  the stream began with. Serialisation is a parameter. The theorem shows that a stream which polls often enough sends every
  packet once and in order, whatever comes between, and cut off only by a failing write or the end of its life.
\<close>

section \<open>Steps\<close>

text \<open>The poll of a stream: the packets to send, and the number the next poll starts from.\<close>

definition sse_poll :: "dashboard_state \<Rightarrow> nat \<Rightarrow> packet_snapshot list \<times> nat" where
  "sse_poll s last_sequence =
     (if packet_sequence s > last_sequence
      then (filter (\<lambda>p. ps_sequence p > last_sequence) (recent_packets s), packet_sequence s)
      else ([], last_sequence))"

datatype stream_phase =
    SendingHeaders
  | SendingFirst string
  | Selecting
  | SendingPackets packet_snapshot "packet_snapshot list"
  | SendingState string
  | StreamClosed

datatype stream_item = HeadersItem | StateItem string | PacketItem packet_snapshot

record sse_stream =
  st_phase :: stream_phase
  st_last :: nat
  st_start :: nat
  st_deadline :: instant
  st_items :: "stream_item list"

definition stream_open :: sse_stream where
  "stream_open = \<lparr>st_phase = SendingHeaders, st_last = 0, st_start = 0, st_deadline = 0, st_items = []\<rparr>"

text \<open>The bytes of an item.\<close>

definition sse_headers :: string where
  "sse_headers = ''HTTP/1.1 200 OK'' @ CRLF @ ''Content-Type: text/event-stream'' @ CRLF @ ''Cache-Control: no-cache'' @ CRLF
     @ ''Connection: keep-alive'' @ CRLF @ CRLF"

fun render :: "(packet_snapshot \<Rightarrow> string option) \<Rightarrow> stream_item \<Rightarrow> string" where
  "render ser HeadersItem = sse_headers"
| "render ser (StateItem json) = format_sse_event ''state'' json"
| "render ser (PacketItem p) = format_sse_event ''packet'' (unwrap_or (ser p) [])"

text \<open>How a wait ended, or what happened to the dashboard.\<close>

datatype stream_event =
    Pushed packet_snapshot
  | OtherUpdate dashboard_state
  | Written bool
  | PollTick
  | StateTick
  | LifetimeOver

definition next_packets :: "packet_snapshot list \<Rightarrow> stream_phase" where
  "next_packets ps = (case ps of [] \<Rightarrow> Selecting | p # ps \<Rightarrow> SendingPackets p ps)"

definition item_written :: "bool \<Rightarrow> stream_item \<Rightarrow> stream_phase \<Rightarrow> sse_stream \<Rightarrow> sse_stream" where
  "item_written ok item phase st =
     (if ok then st\<lparr>st_phase := phase, st_items := st_items st @ [item]\<rparr> else st\<lparr>st_phase := StreamClosed\<rparr>)"

fun stream_step ::
  "(instant \<Rightarrow> dashboard_state \<Rightarrow> string) \<Rightarrow> instant \<Rightarrow> stream_event \<Rightarrow> dashboard_state \<times> sse_stream
     \<Rightarrow> (dashboard_state \<times> sse_stream) option" where
  "stream_step json now (Pushed p) (s, st) = Some (push_packet p s, st)"
| "stream_step json now (OtherUpdate s') (s, st) =
     (if recent_packets s' = recent_packets s \<and> packet_sequence s' = packet_sequence s then Some (s', st) else None)"
| "stream_step json now (Written ok) (s, st) =
     (case st_phase st of
        SendingHeaders \<Rightarrow> Some (s, item_written ok HeadersItem (SendingFirst (json now s)) st)
      | SendingFirst first_json \<Rightarrow>
          Some (s, (let st = item_written ok (StateItem first_json) Selecting st
                    in if ok then st\<lparr>st_last := packet_sequence s, st_start := packet_sequence s,
                                    st_deadline := now + from_secs SSE_MAX_LIFETIME_SECS\<rparr> else st))
      | SendingPackets p ps \<Rightarrow> Some (s, item_written ok (PacketItem p) (next_packets ps) st)
      | SendingState state_json \<Rightarrow> Some (s, item_written ok (StateItem state_json) Selecting st)
      | _ \<Rightarrow> None)"
| "stream_step json now PollTick (s, st) =
     (if st_phase st \<noteq> Selecting then None
      else (case sse_poll s (st_last st) of
              (new_packets, last_sequence) \<Rightarrow> Some (s, st\<lparr>st_phase := next_packets new_packets, st_last := last_sequence\<rparr>)))"
| "stream_step json now StateTick (s, st) =
     (if st_phase st \<noteq> Selecting then None else Some (s, st\<lparr>st_phase := SendingState (json now s)\<rparr>))"
| "stream_step json now LifetimeOver (s, st) =
     (if st_phase st \<noteq> Selecting \<or> now < st_deadline st then None else Some (s, st\<lparr>st_phase := StreamClosed\<rparr>))"

fun stream_run ::
  "(instant \<Rightarrow> dashboard_state \<Rightarrow> string) \<Rightarrow> (instant \<times> stream_event) list \<Rightarrow> dashboard_state \<times> sse_stream
     \<Rightarrow> (dashboard_state \<times> sse_stream) option" where
  "stream_run json [] x = Some x"
| "stream_run json ((now, e) # es) x =
     (case stream_step json now e x of None \<Rightarrow> None | Some x \<Rightarrow> stream_run json es x)"

section \<open>The log behind the stream\<close>

text \<open>The packets pushed in a run, the packets written, and those in hand.\<close>

fun pushed :: "(instant \<times> stream_event) list \<Rightarrow> packet_snapshot list" where
  "pushed [] = []"
| "pushed ((now, Pushed p) # es) = p # pushed es"
| "pushed (_ # es) = pushed es"

fun packet_items :: "stream_item list \<Rightarrow> packet_snapshot list" where
  "packet_items [] = []"
| "packet_items (PacketItem p # is') = p # packet_items is'"
| "packet_items (_ # is') = packet_items is'"

fun unsent_packets :: "stream_phase \<Rightarrow> packet_snapshot list" where
  "unsent_packets (SendingPackets p ps) = p # ps"
| "unsent_packets _ = []"

text \<open>No poll comes so late that packets it has not seen have left the ring buffer.\<close>

definition lags :: "dashboard_state \<times> sse_stream \<Rightarrow> bool" where
  "lags x \<longleftrightarrow> packet_sequence (fst x) > st_last (snd x) + MAX_RECENT_PACKETS"

fun never_lags ::
  "(instant \<Rightarrow> dashboard_state \<Rightarrow> string) \<Rightarrow> (instant \<times> stream_event) list \<Rightarrow> dashboard_state \<times> sse_stream \<Rightarrow> bool" where
  "never_lags json [] x \<longleftrightarrow> True"
| "never_lags json ((now, e) # es) x \<longleftrightarrow>
     (e = PollTick \<longrightarrow> \<not> lags x)
     \<and> (case stream_step json now e x of None \<Rightarrow> True | Some x \<Rightarrow> never_lags json es x)"

lemma packet_items_append [simp]: "packet_items (is1 @ is2) = packet_items is1 @ packet_items is2"
  by (induction is1 rule: packet_items.induct) simp_all

lemma unsent_next [simp]: "unsent_packets (next_packets ps) = ps"
  by (cases ps) (simp_all add: next_packets_def)

definition stream_view :: "packet_snapshot \<Rightarrow> nat \<times> packet_snapshot" where
  "stream_view p = (ps_sequence p, unnumbered p)"

lemma sse_poll_view:
  "map stream_view (fst (sse_poll s n)) = (if packet_sequence s > n then newer n (recent_log s) else [])"
  by (simp add: sse_poll_def newer_def recent_log_def stream_view_def filter_map comp_def)

lemma numbered_drop: "drop k (numbered n ys) = numbered (n + k) (drop k ys)"
proof (induction k arbitrary: n ys)
  case (Suc k)
  then show ?case by (cases ys) simp_all
qed simp

lemma numbered_append: "numbered n (xs @ ys) = numbered n xs @ numbered (n + length xs) ys"
  by (induction xs arbitrary: n) simp_all

lemma newer_last_n:
  assumes "k \<le> length ys" "length ys \<le> k + cap"
  shows "newer k (last_n cap (numbered 0 ys)) = drop k (numbered 0 ys)"
proof -
  let ?m = "length ys - cap"
  have split: "drop ?m (numbered 0 ys) = numbered ?m (take (k - ?m) (drop ?m ys)) @ numbered k (drop k ys)"
  proof -
    have "drop ?m ys = take (k - ?m) (drop ?m ys) @ drop k ys"
      using append_take_drop_id [of "k - ?m" "drop ?m ys"] assms(2) by simp
    then have "numbered ?m (drop ?m ys) = numbered ?m (take (k - ?m) (drop ?m ys) @ drop k ys)" by (rule arg_cong)
    then show ?thesis using assms by (simp add: numbered_drop numbered_append)
  qed
  have "newer k (numbered ?m (take (k - ?m) (drop ?m ys))) = []"
    using numbered_bounds assms by (fastforce simp: newer_def filter_empty_conv)
  moreover have "newer k (numbered k (drop k ys)) = numbered k (drop k ys)"
    using numbered_bounds by (fastforce simp: newer_def filter_id_conv)
  ultimately show ?thesis using split by (simp add: last_n_def newer_def numbered_drop)
qed

text \<open>The dashboard after the packets \<open>all\<close>, and the stream beside it.\<close>

definition log_of :: "packet_snapshot list \<Rightarrow> dashboard_state \<Rightarrow> bool" where
  "log_of all s \<longleftrightarrow> log_ok s \<and> packet_sequence s = length all
     \<and> recent_log s = last_n MAX_RECENT_PACKETS (numbered 0 (map unnumbered all))"

definition sent_part :: "packet_snapshot list \<Rightarrow> sse_stream \<Rightarrow> (nat \<times> packet_snapshot) list" where
  "sent_part all st = take (st_last st - st_start st) (drop (st_start st) (numbered 0 (map unnumbered all)))"

definition stream_inv :: "packet_snapshot list \<Rightarrow> dashboard_state \<times> sse_stream \<Rightarrow> bool" where
  "stream_inv all x \<longleftrightarrow>
     (case x of (s, st) \<Rightarrow> log_of all s \<and> st_start st \<le> st_last st \<and> st_last st \<le> length all
       \<and> (st_phase st = SendingHeaders \<or> (\<exists>j. st_phase st = SendingFirst j) \<longrightarrow> st_start st = st_last st)
       \<and> (\<exists>unsent. map stream_view (packet_items (st_items st)) @ unsent = sent_part all st
            \<and> (st_phase st \<noteq> StreamClosed \<longrightarrow> unsent = map stream_view (unsent_packets (st_phase st)))))"

lemma log_of_push: "log_of all s \<Longrightarrow> log_of (all @ [p]) (push_packet p s)"
  using dashboard_log.push_all [of s "[p]"] by (simp add: log_of_def numbered_append last_n_append)

lemma sent_part_push: "st_last st \<le> length all \<Longrightarrow> sent_part (all @ [p]) st = sent_part all st"
  by (cases "st_start st \<le> length all") (simp_all add: sent_part_def numbered_append)

lemma sent_part_cong: "st_last st' = st_last st \<Longrightarrow> st_start st' = st_start st \<Longrightarrow> sent_part all st' = sent_part all st"
  by (simp add: sent_part_def)

lemma item_written_keeps [simp]: "st_last (item_written ok i ph st) = st_last st" "st_start (item_written ok i ph st) = st_start st"
  by (simp_all add: item_written_def)

lemma poll_inv:
  assumes "stream_inv all (s, st)" "\<not> lags (s, st)" "st_phase st = Selecting" "sse_poll s (st_last st) = (ps, n)"
  shows "stream_inv all (s, st\<lparr>st_phase := next_packets ps, st_last := n\<rparr>)"
proof -
  let ?N = "numbered 0 (map unnumbered all)"
  have inv: "log_of all s" "st_start st \<le> st_last st" "st_last st \<le> length all"
      "map stream_view (packet_items (st_items st)) = sent_part all st"
    using assms(1,3) by (auto simp: stream_inv_def)
  have selecting: "st_phase (st\<lparr>st_phase := next_packets ps, st_last := n\<rparr>) \<noteq> SendingHeaders"
    "\<forall>j. next_packets ps \<noteq> SendingFirst j" by (simp_all add: next_packets_def split: list.split)
  show ?thesis
  proof (cases "packet_sequence s > st_last st")
    case True
    then have n: "n = length all" using assms(4) inv(1) by (simp add: sse_poll_def log_of_def)
    have "map stream_view ps = newer (st_last st) (recent_log s)" using sse_poll_view [of s "st_last st"] assms(4) True by simp
    also have "\<dots> = drop (st_last st) ?N"
      using inv(1,3) assms(2) by (simp add: log_of_def lags_def newer_last_n)
    finally have new: "map stream_view ps = drop (st_last st) ?N" .
    have "drop (st_start st) ?N = take (st_last st - st_start st) (drop (st_start st) ?N) @ drop (st_last st) ?N"
      using append_take_drop_id [of "st_last st - st_start st" "drop (st_start st) ?N"] inv(2) by simp
    then have "sent_part all (st\<lparr>st_phase := next_packets ps, st_last := n\<rparr>) = sent_part all st @ map stream_view ps"
      using inv(2,3) n new by (simp add: sent_part_def)
    then show ?thesis using inv n selecting by (simp add: stream_inv_def)
  next
    case False
    then have "ps = []" "n = st_last st" using assms(4) by (simp_all add: sse_poll_def)
    then show ?thesis using inv by (simp add: stream_inv_def next_packets_def sent_part_def)
  qed
qed

lemma written_inv:
  assumes "stream_inv all (s, st)" "stream_step json now (Written ok) (s, st) = Some x'"
  shows "stream_inv all x'"
proof (cases "st_phase st")
  case (SendingPackets p ps)
  have "\<forall>j. next_packets ps \<noteq> SendingFirst j" "next_packets ps \<noteq> SendingHeaders" "next_packets ps \<noteq> StreamClosed"
    by (simp_all add: next_packets_def split: list.split)
  then show ?thesis
    using assms SendingPackets by (cases ok) (auto simp: stream_inv_def item_written_def sent_part_def)
next
  case (SendingState j)
  then show ?thesis using assms by (cases ok) (auto simp: stream_inv_def item_written_def sent_part_def)
qed (use assms in \<open>auto simp: stream_inv_def item_written_def sent_part_def Let_def log_of_def\<close>)

lemma stream_step_inv:
  assumes "stream_step json now e x = Some x'" "stream_inv all x" "e = PollTick \<Longrightarrow> \<not> lags x"
  shows "stream_inv (all @ pushed [(now, e)]) x'"
proof (cases x)
  case (Pair s st)
  show ?thesis
  proof (cases e)
    case (Pushed p)
    then show ?thesis using assms(1,2) Pair log_of_push [of all s p] sent_part_push [of st all p] by (auto simp: stream_inv_def)
  next
    case (OtherUpdate s')
    then show ?thesis
      using assms(1,2) Pair by (auto simp: stream_inv_def log_of_def log_ok_def recent_log_def split: if_splits)
  next
    case (Written ok)
    then show ?thesis using written_inv assms(1,2) Pair by simp
  next
    case PollTick
    then show ?thesis using assms Pair poll_inv [of all s st] by (auto split: if_splits prod.splits)
  next
    case StateTick
    then show ?thesis using assms(1,2) Pair by (auto simp: stream_inv_def sent_part_def split: if_splits)
  next
    case LifetimeOver
    then show ?thesis using assms(1,2) Pair by (auto simp: stream_inv_def sent_part_def split: if_splits)
  qed
qed

lemma pushed_Cons: "pushed (e # es) = pushed [e] @ pushed es"
  by (cases "e # es" rule: pushed.cases) simp_all

lemma stream_run_inv:
  "stream_run json es x = Some x' \<Longrightarrow> stream_inv all x \<Longrightarrow> never_lags json es x \<Longrightarrow> stream_inv (all @ pushed es) x'"
proof (induction es arbitrary: all x)
  case (Cons te es)
  obtain now e where te: "te = (now, e)" by (cases te)
  then obtain x1 where x1: "stream_step json now e x = Some x1" "stream_run json es x1 = Some x'"
    using Cons.prems(1) by (auto split: option.splits)
  have "stream_inv (all @ pushed [(now, e)]) x1"
    using stream_step_inv [OF x1(1) Cons.prems(2)] Cons.prems(3) te by simp
  from Cons.IH [OF x1(2) this] show ?case
    using Cons.prems(3) x1(1) pushed_Cons [of "(now, e)" es] by (simp add: te)
qed simp

lemma stream_inv_open:
  "log_of all s \<Longrightarrow> stream_inv all (s, stream_open)"
  by (simp add: stream_inv_def stream_open_def sent_part_def)

lemma log_of_new: "log_of earlier (fold push_packet earlier (dashboard_new mycall infos now))"
  using dashboard_log.push_all [OF log_ok_new, of earlier mycall infos now]
  by (simp add: log_of_def dashboard_new_def recent_log_def)

section \<open>Property\<close>


text \<open>A poll catches up with the dashboard.\<close>

lemma poll_catches_up:
  assumes "stream_step json now PollTick (s, st) = Some (s', st')" "st_last st \<le> packet_sequence s"
  shows "st_last st' = packet_sequence s'"
  using assms by (auto simp: sse_poll_def split: if_splits)

text \<open>What arrives while the first report is written is neither in the report nor sent: the number to start from is read afterwards.\<close>

lemma sse_skips_before_start:
  "stream_run json [(t, Written True), (t, Pushed p), (t, Written True)] (s, stream_open)
    = Some (push_packet p s, \<lparr>st_phase = Selecting, st_last = Suc (packet_sequence s), st_start = Suc (packet_sequence s),
        st_deadline = t + from_secs SSE_MAX_LIFETIME_SECS, st_items = [HeadersItem, StateItem (json t s)]\<rparr>)"
  by (simp add: stream_open_def item_written_def push_packet_simps)

section \<open>Witness\<close>

definition demo_snapshot :: packet_snapshot where
  "demo_snapshot = \<lparr>ps_timestamp = 0, ps_source_call = ''W1AW'', ps_dest_call = ''APRS'', ps_interface = ''N0CALL'',
     ps_payload = ''!'', ps_raw = ''W1AW>APRS:!'', ps_sequence = 0\<rparr>"

definition demo_stream_events :: "(instant \<times> stream_event) list" where
  "demo_stream_events = [(1, Written True), (1, Written True), (2, Pushed demo_snapshot), (3, Pushed demo_snapshot), (4, PollTick),
     (4, Written True), (5, Pushed demo_snapshot), (6, Written True), (7, StateTick), (8, Written True), (9, PollTick), (9, Written True)]"


end
