(* ===== verification/Main_System.thy ===== *)
theory Main_System
  imports Aprsis Beacon Logging Tcp_Kiss Web_Server Router
begin

text \<open>
  \<open>src/main.rs\<close>: what the daemon starts for a configuration, and the tasks that connect the parts: the Rx-iGate, the
  consumer of the dashboard, the beacon timer and the rotation of the traffic statistics. Command line parsing (the crate
  \<open>clap\<close>), the runtime and signals are not modelled. A task is a step per packet or tick; whether a send into
  the channel of the APRS-IS client is accepted is an argument. A panic (\<^const>\<open>None\<close>) ends the daemon: the release
  profile aborts. The lemmas follow a packet from the radio through the iGate to the line on the server
  connection, and show which packets make the tasks panic.
\<close>

section \<open>Start\<close>

definition ROUTER_CHANNEL_SIZE :: nat where "ROUTER_CHANNEL_SIZE = 256"
definition CONSUMER_CHANNEL_SIZE :: nat where "CONSUMER_CHANNEL_SIZE = 128"
definition CMD_CHANNEL_SIZE :: nat where "CMD_CHANNEL_SIZE = 32"
definition APRSIS_WRITE_CHANNEL_SIZE :: nat where "APRSIS_WRITE_CHANNEL_SIZE = 64"
definition PID_FILE_PATH :: string where "PID_FILE_PATH = ''/var/run/vaprs.pid''"

record cli =
  cli_config :: string
  cli_debug :: u8
  cli_verbose :: bool
  cli_erlang :: bool
  cli_foreground :: bool
  cli_log_aprsis :: bool

definition foreground :: "cli \<Rightarrow> bool" where
  "foreground c \<longleftrightarrow> cli_foreground c \<or> cli_debug c > 0 \<or> cli_verbose c \<or> cli_erlang c"

datatype permission_warning = WorldWritable u32 | GroupWritable u32

text \<open>The warnings for the mode of the configuration file, \<^const>\<open>None\<close> where it cannot be read.\<close>

definition check_config_permissions :: "u32 option \<Rightarrow> permission_warning list" where
  "check_config_permissions mode =
     (case mode of
        None \<Rightarrow> []
      | Some mode \<Rightarrow>
          (if and mode 0x002 \<noteq> 0 then [WorldWritable (and mode 0x1FF)] else [])
          @ (if and mode 0x010 \<noteq> 0 then [GroupWritable (and mode 0x1FF)] else []))"

text \<open>The process: what \<open>main\<close> does with the file system and the runtime, in order, and its exit status. The environment says which files exist, their
  modes, what they hold and what \<open>toml\<close> makes of it, whether a new file can be created and written, and whether the runtime starts.\<close>

record environment =
  env_exists :: "string \<Rightarrow> bool"
  env_mode :: "string \<Rightarrow> u32 option"
  env_read :: "string \<Rightarrow> string + string"
  env_from_str :: "string \<Rightarrow> string + config"
  env_create_new :: "string \<Rightarrow> bool"
  env_runtime :: bool
  env_pid :: nat

datatype main_action =
    ConfigNotFound string
  | Warned "permission_warning list"
  | LoadFailed string
  | LoggingStarted "log_setup option \<times> log_writer list"
  | PidFileWritten string string
  | PidFileFailed string
  | RuntimeFailed
  | Served config bool bool
  | PidFileRemoved string

definition write_pid_file :: "environment \<Rightarrow> string \<Rightarrow> main_action \<times> bool" where
  "write_pid_file env path =
     (if env_create_new env path then (PidFileWritten path (show_nat (env_pid env) @ [CHR 0x0A]), True)
      else (PidFileFailed path, False))"

definition main_run :: "environment \<Rightarrow> cli \<Rightarrow> main_action list \<times> nat" where
  "main_run env c =
     (if \<not> env_exists env (cli_config c) then ([ConfigNotFound (cli_config c)], 1)
      else (let warned = Warned (check_config_permissions (env_mode env (cli_config c)))
        in case config_load (env_read env) (env_from_str env) (cli_config c) of
             Inl e \<Rightarrow> ([warned, LoadFailed e], 1)
           | Inr cfg \<Rightarrow>
               (let started = [warned, LoggingStarted (init_logging cfg (cli_debug c) (foreground c) None)];
                    (pid_actions, pid_file_created) =
                      (if \<not> foreground c
                       then (case write_pid_file env PID_FILE_PATH of (a, ok) \<Rightarrow> ([a], ok))
                       else ([], False))
                in if \<not> env_runtime env then (started @ pid_actions @ [RuntimeFailed], 1)
                   else (started @ pid_actions @ [Served cfg (cli_erlang c) (cli_log_aprsis c)]
                           @ (if pid_file_created then [PidFileRemoved PID_FILE_PATH] else []), 0))))"

text \<open>A run that ends regularly removes the PID file if it has written it and never one it has not. But a
  PID file of another instance does not keep the daemon from serving, and if the runtime fails the file stays behind.\<close>

lemma pid_file_of_own_run:
  "main_run env c = (actions, 0) \<Longrightarrow>
     PidFileRemoved PID_FILE_PATH \<in> set actions \<longleftrightarrow> (\<exists>content. PidFileWritten PID_FILE_PATH content \<in> set actions)"
  by (auto simp: main_run_def write_pid_file_def Let_def split: if_splits sum.splits)

lemma second_instance_serves:
  assumes "env_exists env (cli_config c)" "config_load (env_read env) (env_from_str env) (cli_config c) = Inr cfg" "env_runtime env"
    and "\<not> foreground c" "\<not> env_create_new env PID_FILE_PATH"
  shows "Served cfg (cli_erlang c) (cli_log_aprsis c) \<in> set (fst (main_run env c))"
  using assms by (simp add: main_run_def write_pid_file_def Let_def)

lemma pid_file_left_behind:
  assumes "env_exists env (cli_config c)" "config_load (env_read env) (env_from_str env) (cli_config c) = Inr cfg" "\<not> env_runtime env"
    and "\<not> foreground c" "env_create_new env PID_FILE_PATH"
  shows "\<exists>content. PidFileWritten PID_FILE_PATH content \<in> set (fst (main_run env c))
    \<and> PidFileRemoved PID_FILE_PATH \<notin> set (fst (main_run env c))"
  using assms by (simp add: main_run_def write_pid_file_def Let_def)

definition interface_call :: "config \<Rightarrow> interface_config \<Rightarrow> string" where
  "interface_call cfg ic = unwrap_or (ic_callsign ic) (cfg_mycall cfg)"

definition interface_name :: "config \<Rightarrow> nat \<Rightarrow> interface_config \<Rightarrow> string" where
  "interface_name cfg idx ic = interface_call cfg ic @ ''_'' @ show_nat idx"

definition interface_detail :: "interface_config \<Rightarrow> string" where
  "interface_detail ic =
     (case ic_type ic of
        Serial \<Rightarrow> unwrap_or (ic_device ic) ''unknown'' @ '' @ '' @ show_nat (unat (unwrap_or (ic_speed ic) 9600))
      | Tcp \<Rightarrow> unwrap_or (ic_host ic) ''unknown'' @ '':'' @ show_nat (unat (unwrap_or (ic_port ic) 0))
      | _ \<Rightarrow> [])"

definition interface_infos :: "config \<Rightarrow> interface_info list" where
  "interface_infos cfg =
     map (\<lambda>(idx, ic). \<lparr>ii_name = interface_name cfg idx ic, ii_detail = interface_detail ic\<rparr>)
         (enumerate 0 (cfg_interfaces cfg))"

datatype spawned = SpawnedSerial serial_interface | SpawnedTcp tcp_interface

definition spawn_interface :: "config \<Rightarrow> interface_config \<Rightarrow> spawned option" where
  "spawn_interface cfg ic =
     (let callsign = interface_call cfg ic; proto = unwrap_or (ic_protocol ic) ProtoKiss
      in case ic_type ic of
           Serial \<Rightarrow>
             (case ic_device ic of
                None \<Rightarrow> None
              | Some device \<Rightarrow>
                  Some (SpawnedSerial (serial_new callsign device (unwrap_or (ic_speed ic) 9600) proto
                          (ic_tx_ok ic) (ic_igate_group ic))))
         | Tcp \<Rightarrow>
             (case ic_host ic of
                None \<Rightarrow> None
              | Some host \<Rightarrow>
                  (case ic_port ic of
                     None \<Rightarrow> None
                   | Some port \<Rightarrow>
                       Some (SpawnedTcp (tcp_new callsign host port proto (ic_tx_ok ic) (ic_igate_group ic)))))
         | _ \<Rightarrow> None)"

fun spawned_metadata :: "spawned \<Rightarrow> interface_metadata" where
  "spawned_metadata (SpawnedSerial si) = si_metadata si"
| "spawned_metadata (SpawnedTcp ti) = ti_metadata ti"

record system =
  sys_monitor :: erlang_monitor
  sys_spawned :: "spawned list"
  sys_consumers :: "string list"
  sys_client :: "aprsis_client option"
  sys_dashboard :: "dashboard_state option"

text \<open>The start of \<open>async_main\<close>. Every interface gets a channel of the traffic monitor under its name, also one that is not started.\<close>

definition async_start :: "instant \<Rightarrow> bool \<Rightarrow> config \<Rightarrow> system" where
  "async_start now log_aprsis cfg =
     (let monitor = foldl (\<lambda>m (idx, ic). add_channel m (interface_name cfg idx ic) now) monitor_new
                      (enumerate 0 (cfg_interfaces cfg));
          monitor = (if cfg_aprsis cfg \<noteq> None then add_channel monitor ''APRSIS'' now else monitor)
      in \<lparr>sys_monitor = monitor,
          sys_spawned = List.map_filter (spawn_interface cfg) (cfg_interfaces cfg),
          sys_consumers = ''igate'' # (if cfg_web cfg \<noteq> None then [''dashboard''] else []),
          sys_client = map_option (\<lambda>ac. client_new (cfg_mycall cfg) ac log_aprsis) (cfg_aprsis cfg),
          sys_dashboard = map_option (\<lambda>_. dashboard_new (cfg_mycall cfg) (interface_infos cfg) now) (cfg_web cfg)\<rparr>)"

section \<open>The Rx-iGate task\<close>

record igate_task =
  ig_monitor :: erlang_monitor
  ig_dashboard :: "dashboard_state option"
  ig_sent :: "string list"
  ig_running :: bool

definition igate_step :: "string \<Rightarrow> instant \<Rightarrow> bool \<Rightarrow> packet \<Rightarrow> igate_task \<Rightarrow> igate_task may_panic" where
  "igate_step gate_call now accepted p t =
     (let t = t\<lparr>ig_monitor := monitor_update (ig_monitor t) (source_interface p)
                               (\<lambda>ch. record_rx ch (of_nat (length (tnc2 p))))\<rparr>
      in if source_interface p = ''APRSIS'' then Some t
         else do {
           result \<leftarrow> gate_to_aprsis p gate_call now;
           let t = t\<lparr>ig_dashboard := map_option (record_igate_result (source_call p) result) (ig_dashboard t)\<rparr>;
           Some (case result of
                   Gated gated_line \<Rightarrow>
                     if accepted then t\<lparr>ig_sent := ig_sent t @ [gated_line]\<rparr> else t\<lparr>ig_running := False\<rparr>
                 | _ \<Rightarrow> t)
         })"

text \<open>The loop over the packets its channel delivers; it is left when a send fails.\<close>

fun igate_run :: "string \<Rightarrow> (instant \<times> bool \<times> packet) list \<Rightarrow> igate_task \<Rightarrow> igate_task may_panic" where
  "igate_run gate_call [] t = Some t"
| "igate_run gate_call ((now, accepted, p) # ps) t =
     (if ig_running t
      then (case igate_step gate_call now accepted p t of
              None \<Rightarrow> None | Some t \<Rightarrow> igate_run gate_call ps t)
      else Some t)"

section \<open>The dashboard task\<close>

definition dashboard_step :: "instant \<Rightarrow> nat \<Rightarrow> packet \<Rightarrow> dashboard_state \<Rightarrow> dashboard_state may_panic" where
  "dashboard_step now now_epoch p s = do {
     pl \<leftarrow> payload p;
     let snap = \<lparr>ps_timestamp = now_epoch, ps_source_call = source_call p, ps_dest_call = dest_call p,
                 ps_interface = source_interface p, ps_payload = pl, ps_raw = tnc2 p, ps_sequence = 0\<rparr>;
     pos \<leftarrow> extract_position (tnc2 p);
     let s = push_packet snap s;
     Some (record_station now (source_call p) (source_interface p) pos s)
   }"

section \<open>The timers\<close>

text \<open>A tick of the beacon task: the lines sent, and whether the task goes on. \<open>accepts\<close> says which of its sends are
  accepted.\<close>

fun send_beacons :: "(nat \<Rightarrow> bool) \<Rightarrow> nat \<Rightarrow> fired list \<Rightarrow> string list \<times> bool" where
  "send_beacons accepts i [] = ([], True)"
| "send_beacons accepts i ((t, mode, transmitter) # fs) =
     (case mode of
        Radio \<Rightarrow> send_beacons accepts i fs
      | _ \<Rightarrow>
          if accepts i then (case send_beacons accepts (Suc i) fs of (ls, ok) \<Rightarrow> (t # ls, ok))
          else ([], False))"

definition beacon_tick ::
  "(string \<Rightarrow> string option) \<Rightarrow> (string \<Rightarrow> shell_child option) \<Rightarrow> (u64 \<Rightarrow> u64) \<Rightarrow> (nat \<Rightarrow> bool) \<Rightarrow> instant
     \<Rightarrow> beacon_scheduler \<Rightarrow> (string list \<times> bool \<times> beacon_scheduler) may_panic" where
  "beacon_tick fs sh hash accepts now s = do {
     (fired, s) \<leftarrow> poll fs sh hash now s;
     let (ls, ok) = send_beacons accepts 0 fired;
     Some (ls, ok, s)
   }"

datatype erlang_tick = RotateTick | SnapshotTick

definition erlang_timer ::
  "erlang_tick \<Rightarrow> instant \<Rightarrow> erlang_monitor \<Rightarrow> dashboard_state option \<Rightarrow> erlang_monitor \<times> dashboard_state option" where
  "erlang_timer tick now m ds =
     (let m = (case tick of RotateTick \<Rightarrow> rotate_all m now | SnapshotTick \<Rightarrow> m)
      in (m, map_option (\<lambda>s. s\<lparr>db_erlang_stats := monitor_snapshot m\<rparr>) ds))"

section \<open>From the iGate to the server\<close>

text \<open>A line the task may have sent: gated from a packet that did not come from the server.\<close>

definition gated_from :: "string \<Rightarrow> (instant \<times> bool \<times> packet) list \<Rightarrow> string \<Rightarrow> bool" where
  "gated_from gate_call ps l \<longleftrightarrow>
     (\<exists>now a p. (now, a, p) \<in> set ps \<and> source_interface p \<noteq> ''APRSIS''
        \<and> gate_to_aprsis p gate_call now = Some (Gated l))"

lemma igate_step_sent:
  assumes "igate_step gate_call now a p t = Some t'" "l \<in> set (ig_sent t')"
  shows "l \<in> set (ig_sent t) \<or> gated_from gate_call [(now, a, p)] l"
proof (cases "source_interface p = ''APRSIS''")
  case True
  then show ?thesis using assms by (auto simp: igate_step_def)
next
  case False
  then obtain r where r: "gate_to_aprsis p gate_call now = Some r"
    using assms(1) by (auto simp: igate_step_def bind_eq_Some_conv)
  show ?thesis
    using assms False r by (cases r) (auto simp: igate_step_def gated_from_def Let_def split: if_splits)
qed

lemma igate_run_sent:
  "igate_run gate_call ps t = Some t' \<Longrightarrow> l \<in> set (ig_sent t') \<Longrightarrow> l \<in> set (ig_sent t) \<or> gated_from gate_call ps l"
proof (induction gate_call ps t rule: igate_run.induct)
  case (2 gate_call now a p ps t)
  show ?case
  proof (cases "ig_running t")
    case True
    with 2(2) obtain t1 where step: "igate_step gate_call now a p t = Some t1" and rest: "igate_run gate_call ps t1 = Some t'"
      by (auto split: option.splits)
    have "l \<in> set (ig_sent t1) \<or> gated_from gate_call ps l" by (rule 2(1) [OF True step rest 2(3)])
    moreover have "gated_from gate_call ps l \<Longrightarrow> gated_from gate_call ((now, a, p) # ps) l"
      "gated_from gate_call [(now, a, p)] l \<Longrightarrow> gated_from gate_call ((now, a, p) # ps) l"
      by (auto simp: gated_from_def)
    ultimately show ?thesis using igate_step_sent [OF step] by blast
  next
    case False
    then show ?thesis using 2(2,3) by simp
  qed
qed simp

text \<open>A step on a packet that may be gated or not, but is no third-party frame, and whose line is accepted.\<close>

lemma igate_step_direct:
  assumes "source_interface p \<noteq> ''APRSIS''" "addresses p = Some a" "payload p = Some q" "\<not> starts_with q ''}''"
  shows "\<exists>t'. igate_step gate_call now True p t = Some t' \<and> ig_running t' = ig_running t
    \<and> ig_sent t' = ig_sent t @ (if gateable p a q
        then [sanitize_line a @ '',qAR,'' @ gate_call @ '':'' @ sanitize_line q] else [])"
proof -
  obtain r where r: "gate_to_aprsis p gate_call now = Some r"
    "\<forall>l. r = Gated l \<longleftrightarrow> gateable p a q \<and> l = sanitize_line a @ '',qAR,'' @ gate_call @ '':'' @ sanitize_line q"
    using gate_direct [OF assms(2-4), of gate_call 0 now] unfolding gate_to_aprsis_def by blast
  show ?thesis
  proof (cases "gateable p a q")
    case True
    then have "r = Gated (sanitize_line a @ '',qAR,'' @ gate_call @ '':'' @ sanitize_line q)" using r(2) by blast
    then show ?thesis using True assms(1) r(1) by (simp add: igate_step_def Let_def)
  next
    case False
    then have not_gated: "r \<noteq> Gated l" for l using r(2) by blast
    show ?thesis
    proof (cases r)
      case (Gated l)
      then show ?thesis using not_gated by blast
    qed (use False assms(1) r(1) in \<open>simp_all add: igate_step_def Let_def\<close>)
  qed
qed

text \<open>Every line the iGate task hands to the APRS-IS client was gated from a packet that did not come from
  the server itself, and the client writes it to the server unchanged, as one line.\<close>

theorem igate_line_reaches_server:
  assumes "igate_run gate_call ps \<lparr>ig_monitor = m, ig_dashboard = d, ig_sent = [], ig_running = True\<rparr> = Some t"
    and "line_free gate_call" and "l \<in> set (ig_sent t)"
  shows "framed l = l @ CRLF \<and> line_free l \<and> gated_from gate_call ps l"
proof -
  have from_ps: "gated_from gate_call ps l" using igate_run_sent [OF assms(1,3)] by simp
  then obtain q addrs pl where "l = sanitize_line addrs @ '',qAR,'' @ gate_call @ '':'' @ sanitize_line pl"
    unfolding gated_from_def gate_to_aprsis_def using gate_inner_gated by blast
  then have "line_free l" using gated_line_free [OF assms(2)] by simp
  then show ?thesis using from_ps by (simp add: framed_eq aprsis_san.san_id)
qed

section \<open>Panics\<close>

lemma shape_addr_len: "tnc2_shape l n \<Longrightarrow> n \<le> length l"
  by (auto simp: tnc2_shape_def)

lemma extract_position_ascii: "all_ascii l \<Longrightarrow> no_panic (extract_position l)"
proof -
  assume l: "all_ascii l"
  have "no_panic (parse_aprs pl)" if "nth_opt (str_split (\<lambda>c. c = CHR '':'') l) 1 = Some pl" for pl
  proof -
    have "pl \<in> set (str_split (\<lambda>c. c = CHR '':'') l)" using that by (auto simp: nth_opt_def split: if_splits)
    then have "all_ascii pl" using l str_split_subset by (fastforce simp: all_ascii_def)
    then show ?thesis by (rule no_panic_parse_aprs)
  qed
  then show ?thesis unfolding extract_position_def by (intro total_intros)
qed

lemma ascii_packet_total:
  assumes "tnc2_addr_len p \<le> length (tnc2 p)" "all_ascii (tnc2 p)"
  shows "igate_step gate_call now a p t \<noteq> None" "dashboard_step now epoch p s \<noteq> None"
proof -
  have "no_panic (igate_step gate_call now a p t)"
    unfolding igate_step_def Let_def gate_to_aprsis_def
    by (intro total_intros gate_inner_ascii assms)
  moreover have "no_panic (dashboard_step now epoch p s)"
    unfolding dashboard_step_def
    by (intro total_intros payload_ascii(1) assms(2) extract_position_ascii)
  ultimately show "igate_step gate_call now a p t \<noteq> None" "dashboard_step now epoch p s \<noteq> None"
    by (simp_all add: no_panic_def)
qed

lemma frame_addr_len:
  assumes "process_kiss_frame now frame callsign grp = Some p"
  shows "tnc2_addr_len p \<le> length (tnc2 p)"
proof -
  obtain f where "ax25_to_tnc2 (frame_data frame) = Inr f" "tnc2 p = frame_tnc2 f" "tnc2_addr_len p = frame_tnc2_addr_len f"
    using assms by (auto simp: process_kiss_frame_def split: if_splits sum.splits)
  then show ?thesis using shape_addr_len [OF ax25_to_tnc2_shape] by simp
qed

text \<open>A frame whose text is ASCII makes neither the iGate task nor the dashboard task panic.\<close>

theorem ascii_frames_never_panic:
  assumes "process_kiss_frame now frame callsign grp = Some p" "all_ascii (tnc2 p)"
  shows "igate_step gate_call now' a p t \<noteq> None \<and> dashboard_step now' epoch p s \<noteq> None"
  using ascii_packet_total [OF frame_addr_len [OF assms(1)] assms(2)] by blast

text \<open>A frame with the payload bytes of a right brace and an e with acute accent, which the decoder turns into two
  bytes of UTF-8; and one with a position whose eighth character is not ASCII.\<close>

definition brace_frame :: "u8 list" where
  "brace_frame = address_field ''APRS'' 0x60 @ address_field ''W1AW'' 0x61 @ [0x03, 0xF0, 0x7D, 0xE9]"

definition position_frame :: "u8 list" where
  "position_frame = address_field ''APRS'' 0x60 @ address_field ''W1AW'' 0x61 @ [0x03, 0xF0, 0x21]
     @ as_bytes ''4903.50'' @ [0xE9] @ as_bytes ''/07201.75W-''"

lemma brace_frame_decodes:
  "ax25_to_tnc2 brace_frame = Inr \<lparr>frame_tnc2 = ''W1AW>APRS:}'' @ [CHR 0xC3, CHR 0xA9], frame_tnc2_addr_len = 9,
     frame_ax25_addr_len = 14, frame_is_aprs = True, frame_ui_pid = 240\<rparr>"
  by code_simp

lemma position_frame_decodes:
  "ax25_to_tnc2 position_frame = Inr \<lparr>frame_tnc2 = ''W1AW>APRS:!4903.50'' @ [CHR 0xC3, CHR 0xA9] @ ''/07201.75W-'',
     frame_tnc2_addr_len = 9, frame_ax25_addr_len = 14, frame_is_aprs = True, frame_ui_pid = 240\<rparr>"
  by code_simp

definition frame_packet :: "u8 list \<Rightarrow> string \<Rightarrow> instant \<Rightarrow> packet" where
  "frame_packet frame l now = \<lparr>tnc2 = l, tnc2_addr_len = 9, ax25 = Some frame, ax25_addr_len = 14,
     source_interface = ''N0CALL'', is_aprs = True, ui_pid = 240, received_at = now, igate_group = 1\<rparr>"

lemma brace_gate_panics:
  "gate_to_aprsis (frame_packet brace_frame (''W1AW>APRS:}'' @ [CHR 0xC3, CHR 0xA9]) now) gate_call now' = None"
proof -
  let ?p = "frame_packet brace_frame (''W1AW>APRS:}'' @ [CHR 0xC3, CHR 0xA9]) now"
  have "payload ?p = Some (''}'' @ [CHR 0xC3, CHR 0xA9])"
    by (simp add: payload_def frame_packet_def str_from_def is_char_boundary_def is_cont_def)
  moreover have "payload (packet_new now' [CHR 0xC3, CHR 0xA9] i b) = None" for i b
    by (simp add: no_colon_payload is_cont_def)
  ultimately show ?thesis
    by (simp add: gate_to_aprsis_def gate_to_aprsis_inner.simps strip_prefix_def starts_with_def MAX_THIRD_PARTY_DEPTH_def)
qed

lemma position_panics: "extract_position (''W1AW>APRS:!4903.50'' @ [CHR 0xC3, CHR 0xA9] @ ''/07201.75W-'') = None"
  by code_simp

text \<open>But a station on the radio can end the daemon: there is a frame that every interface accepts and that makes
  the iGate task panic, whatever its state, and one that makes the dashboard task panic.\<close>

theorem radio_frames_end_the_daemon:
  "(\<exists>p. process_kiss_frame now \<lparr>cmd_byte = 0, frame_data = brace_frame\<rparr> ''N0CALL'' 1 = Some p
      \<and> (\<forall>gate_call now' a t. igate_step gate_call now' a p t = None))
   \<and> (\<exists>p. process_kiss_frame now \<lparr>cmd_byte = 0, frame_data = position_frame\<rparr> ''N0CALL'' 1 = Some p
      \<and> (\<forall>now' epoch s. dashboard_step now' epoch p s = None))"
proof
  let ?p = "frame_packet brace_frame (''W1AW>APRS:}'' @ [CHR 0xC3, CHR 0xA9]) now"
  have "process_kiss_frame now \<lparr>cmd_byte = 0, frame_data = brace_frame\<rparr> ''N0CALL'' 1 = Some ?p"
    by (simp add: process_kiss_frame_def cmd_def brace_frame_decodes frame_packet_def)
  moreover have "igate_step gate_call now' a ?p t = None" for gate_call now' a t
    using brace_gate_panics [of now gate_call now'] by (simp add: igate_step_def frame_packet_def)
  ultimately show "\<exists>p. process_kiss_frame now \<lparr>cmd_byte = 0, frame_data = brace_frame\<rparr> ''N0CALL'' 1 = Some p
      \<and> (\<forall>gate_call now' a t. igate_step gate_call now' a p t = None)" by blast
  let ?q = "frame_packet position_frame (''W1AW>APRS:!4903.50'' @ [CHR 0xC3, CHR 0xA9] @ ''/07201.75W-'') now"
  have "process_kiss_frame now \<lparr>cmd_byte = 0, frame_data = position_frame\<rparr> ''N0CALL'' 1 = Some ?q"
    by (simp add: process_kiss_frame_def cmd_def position_frame_decodes frame_packet_def)
  moreover have "extract_position (tnc2 ?q) = None" using position_panics by (simp add: frame_packet_def)
  then have "dashboard_step now' epoch ?q s = None" for now' epoch s
    by (cases "payload ?q") (simp_all add: dashboard_step_def)
  ultimately show "\<exists>p. process_kiss_frame now \<lparr>cmd_byte = 0, frame_data = position_frame\<rparr> ''N0CALL'' 1 = Some p
      \<and> (\<forall>now' epoch s. dashboard_step now' epoch p s = None)" by blast
qed

section \<open>Traffic of the radio is not counted\<close>

lemma igate_step_monitor:
  assumes "igate_step gate_call now a p t = Some t'"
  shows "ig_monitor t' = monitor_update (ig_monitor t) (source_interface p)
           (\<lambda>ch. record_rx ch (of_nat (length (tnc2 p))))"
proof (cases "source_interface p = ''APRSIS''")
  case True
  then show ?thesis using assms by (auto simp: igate_step_def Let_def)
next
  case False
  then obtain r where r: "gate_to_aprsis p gate_call now = Some r"
    using assms by (auto simp: igate_step_def Let_def bind_eq_Some_conv)
  show ?thesis
    using assms False r by (cases r) (auto simp: igate_step_def Let_def split: if_splits)
qed

lemma monitor_update_absent: "\<forall>c\<in>set m. ch_name c \<noteq> name \<Longrightarrow> monitor_update m name f = m"
  by (induction m name f rule: monitor_update.induct) auto

lemma spawned_call:
  "spawn_interface cfg ic = Some sp \<Longrightarrow> md_callsign (spawned_metadata sp) = interface_call cfg ic"
  by (auto simp: spawn_interface_def serial_new_def tcp_new_def Let_def
      split: interface_type.splits option.splits)

lemma monitor_names:
  "map ch_name (foldl (\<lambda>m (idx, ic). add_channel m (interface_name cfg idx ic) now) m ics)
    = map ch_name m @ map (\<lambda>(idx, ic). interface_name cfg idx ic) ics"
  by (induction ics arbitrary: m) (auto simp: add_channel_def channel_new_def)

lemma start_names:
  "map ch_name (sys_monitor (async_start now log_aprsis cfg))
    = map (\<lambda>(idx, ic). interface_name cfg idx ic) (enumerate 0 (cfg_interfaces cfg))
      @ (if cfg_aprsis cfg \<noteq> None then [''APRSIS''] else [])"
proof -
  let ?m = "foldl (\<lambda>m (idx, ic). add_channel m (interface_name cfg idx ic) now) monitor_new (enumerate 0 (cfg_interfaces cfg))"
  have "map ch_name ?m = map (\<lambda>(idx, ic). interface_name cfg idx ic) (enumerate 0 (cfg_interfaces cfg))"
    unfolding monitor_names by (simp add: monitor_new_def)
  moreover have "map ch_name (add_channel m n now) = map ch_name m @ [n]" for m n
    by (simp add: add_channel_def channel_new_def)
  ultimately show ?thesis by (simp add: async_start_def Let_def)
qed

text \<open>The packets of a started interface carry its call sign, but the channel of the traffic monitor carries a number
  after it: unless a call sign has an underscore or is APRSIS, the iGate task never finds a channel for them and counts nothing.\<close>

theorem radio_traffic_not_counted:
  assumes "sp \<in> set (sys_spawned (async_start now0 log_aprsis cfg))"
    and "source_interface p = md_callsign (spawned_metadata sp)"
    and "map ch_name (ig_monitor t) = map ch_name (sys_monitor (async_start now0 log_aprsis cfg))"
    and "\<forall>ic\<in>set (cfg_interfaces cfg). CHR ''_'' \<notin> set (interface_call cfg ic) \<and> interface_call cfg ic \<noteq> ''APRSIS''"
    and "igate_step gate_call now a p t = Some t'"
  shows "ig_monitor t' = ig_monitor t"
proof -
  obtain ic where ic: "ic \<in> set (cfg_interfaces cfg)" "spawn_interface cfg ic = Some sp"
    using assms(1) by (auto simp: async_start_def List.map_filter_def Let_def)
  have src: "source_interface p = interface_call cfg ic" using assms(2) spawned_call [OF ic(2)] by simp
  have "source_interface p \<notin> set (map ch_name (sys_monitor (async_start now0 log_aprsis cfg)))"
  proof
    assume "source_interface p \<in> set (map ch_name (sys_monitor (async_start now0 log_aprsis cfg)))"
    then have "source_interface p = ''APRSIS'' \<or> (\<exists>idx ic'. source_interface p = interface_name cfg idx ic')"
      unfolding start_names by (auto split: if_splits)
    then have "CHR ''_'' \<in> set (source_interface p) \<or> source_interface p = ''APRSIS''"
      by (auto simp: interface_name_def)
    then show False using assms(4) ic(1) src by auto
  qed
  then have "\<forall>c\<in>set (ig_monitor t). ch_name c \<noteq> source_interface p" unfolding assms(3) [symmetric] by force
  then have "monitor_update (ig_monitor t) (source_interface p) f = ig_monitor t" for f
    by (rule monitor_update_absent)
  then show ?thesis using igate_step_monitor [OF assms(5)] by simp
qed

section \<open>Witnesses\<close>

definition demo_task :: igate_task where
  "demo_task = \<lparr>ig_monitor = [], ig_dashboard = None, ig_sent = [], ig_running = True\<rparr>"

definition radio_packet :: packet where
  "radio_packet = packet_new 0 ''W1AW>APRS:!hello'' ''N0CALL'' True"

lemma radio_packet_gated: "gate_to_aprsis radio_packet ''GATE'' 5 = Some (Gated ''W1AW>APRS,qAR,GATE:!hello'')"
  by code_simp

lemma radio_packet_source: "source_interface radio_packet = ''N0CALL''"
  by (simp add: radio_packet_def)

lemma demo_step:
  "igate_step ''GATE'' 5 True radio_packet demo_task = Some (demo_task\<lparr>ig_sent := [''W1AW>APRS,qAR,GATE:!hello'']\<rparr>)"
  by (simp add: igate_step_def Let_def radio_packet_gated radio_packet_source demo_task_def)

theorem igate_line_reaches_server_witness:
  "igate_run ''GATE'' [(5, True, radio_packet)] demo_task = Some (demo_task\<lparr>ig_sent := [''W1AW>APRS,qAR,GATE:!hello'']\<rparr>)
    \<and> framed ''W1AW>APRS,qAR,GATE:!hello'' = ''W1AW>APRS,qAR,GATE:!hello'' @ CRLF"
proof -
  have run: "igate_run ''GATE'' [(5, True, radio_packet)] demo_task = Some (demo_task\<lparr>ig_sent := [''W1AW>APRS,qAR,GATE:!hello'']\<rparr>)"
    by (simp add: demo_step) (simp add: demo_task_def)
  have "line_free ''GATE''" by code_simp
  from igate_line_reaches_server [OF run [unfolded demo_task_def] this] run show ?thesis by (simp add: demo_task_def)
qed

theorem ascii_frames_never_panic_witness:
  "\<exists>p. process_kiss_frame 3 \<lparr>cmd_byte = 0, frame_data = demo_frame\<rparr> ''N0CALL'' 1 = Some p
    \<and> igate_step ''GATE'' 5 True p demo_task \<noteq> None \<and> dashboard_step 5 0 p (dashboard_new ''N0CALL'' [] 0) \<noteq> None"
proof -
  have "all_ascii (tnc2 (demo_received\<lparr>received_at := 3\<rparr>))"
    by (simp add: demo_received_def all_ascii_def is_ascii_char_def)
  from ascii_frames_never_panic [OF demo_process this] demo_process show ?thesis by blast
qed

definition demo_config :: config where
  "demo_config = \<lparr>cfg_mycall = ''N0CALL'', cfg_location = None, cfg_aprsis = None, cfg_logging = None, cfg_web = None,
     cfg_interfaces = [\<lparr>ic_type = Serial, ic_device = Some ''/dev/ttyS0'', ic_speed = None, ic_protocol = None,
       ic_callsign = None, ic_host = None, ic_port = None, ic_tx_ok = True, ic_telem_to_is = True, ic_igate_group = 1\<rparr>],
     cfg_beacons = [], cfg_digipeaters = [], cfg_telemetry = []\<rparr>"

theorem radio_traffic_not_counted_witness:
  "map ch_name (sys_monitor (async_start 0 False demo_config)) = [''N0CALL_0'']
    \<and> (\<exists>t. igate_step ''GATE'' 5 True radio_packet (demo_task\<lparr>ig_monitor := sys_monitor (async_start 0 False demo_config)\<rparr>) = Some t
        \<and> ig_monitor t = sys_monitor (async_start 0 False demo_config))"
proof -
  let ?sys = "async_start 0 False demo_config"
  let ?t = "demo_task\<lparr>ig_monitor := sys_monitor ?sys\<rparr>"
  let ?sp = "SpawnedSerial (serial_new ''N0CALL'' ''/dev/ttyS0'' 9600 ProtoKiss True 1)"
  have sp: "?sp \<in> set (sys_spawned ?sys)"
    by (simp add: async_start_def demo_config_def spawn_interface_def interface_call_def List.map_filter_def)
  have call: "source_interface radio_packet = md_callsign (spawned_metadata ?sp)"
    by (simp add: radio_packet_def serial_new_def)
  have no: "\<forall>ic\<in>set (cfg_interfaces demo_config). CHR ''_'' \<notin> set (interface_call demo_config ic)
      \<and> interface_call demo_config ic \<noteq> ''APRSIS''"
    by (simp add: demo_config_def interface_call_def)
  obtain t where t: "igate_step ''GATE'' 5 True radio_packet ?t = Some t"
    by (simp add: igate_step_def Let_def radio_packet_gated radio_packet_source)
  have "map ch_name (sys_monitor ?sys) = [''N0CALL_0'']"
    unfolding start_names by (simp add: demo_config_def interface_name_def interface_call_def show_nat.simps)
  then show ?thesis using radio_traffic_not_counted [OF sp call _ no t] t by simp
qed

end
