(* ===== verification/Shutdown.thy ===== *)
theory Shutdown
  imports Main_System
begin

text \<open>
  The end of \<open>async_main\<close> in \<open>src/main.rs\<close>: how the tasks end after the signal, as a step relation over who is still
  running and who holds a sender of the two channels between them. A receiver is told the end when no sender is left.
  The write channel of the APRS-IS client has senders in the main task, the iGate task and the beacon task; the channel of the
  router has one in every interface and one in the client. That the shutdown
  commands find room in the channels of the interfaces is assumed; that a task which takes one ends is shown by
  \<open>kiss_loop_shutdown_is_last\<close> and \<open>tcp_shutdown_is_last\<close>. The theorem shows that the client is not told: a
  shutdown with an APRS-IS client waits for its full ten seconds.
\<close>

section \<open>Who is running\<close>

definition SHUTDOWN_TIMEOUT :: duration where "SHUTDOWN_TIMEOUT = from_secs 10"

datatype shutdown_phase = Serving | WaitsForClient instant | WaitsForRouter instant | Complete

record tasks =
  tk_phase :: shutdown_phase
  tk_main_sender :: bool
  tk_client :: bool
  tk_igate :: bool
  tk_beacon :: bool
  tk_interfaces :: nat
  tk_router :: bool

text \<open>After the start: the client runs if it is configured, and returns at once if it has no server.\<close>

definition tasks_start :: "system \<Rightarrow> tasks" where
  "tasks_start sys = \<lparr>tk_phase = Serving, tk_main_sender = True,
     tk_client = (case sys_client sys of None \<Rightarrow> False | Some c \<Rightarrow> cl_servers c \<noteq> []),
     tk_igate = True, tk_beacon = True, tk_interfaces = length (sys_spawned sys), tk_router = True\<rparr>"

text \<open>Senders of the write channel, and of the channel of the router.\<close>

definition write_senders :: "tasks \<Rightarrow> bool" where
  "write_senders s \<longleftrightarrow> tk_main_sender s \<or> tk_igate s \<or> tk_beacon s"

definition packet_senders :: "tasks \<Rightarrow> bool" where
  "packet_senders s \<longleftrightarrow> tk_client s \<or> tk_interfaces s > 0"

inductive tasks_step :: "bool \<Rightarrow> instant \<Rightarrow> tasks \<Rightarrow> tasks \<Rightarrow> bool" for has_client :: bool and now :: instant where
  Signal: "tk_phase s = Serving
     \<Longrightarrow> tasks_step has_client now s (s\<lparr>tk_phase := WaitsForClient now, tk_main_sender := False\<rparr>)"
| ClientOver: "tk_phase s = WaitsForClient t \<Longrightarrow> \<not> has_client \<or> \<not> tk_client s \<or> t + SHUTDOWN_TIMEOUT \<le> now
     \<Longrightarrow> tasks_step has_client now s (s\<lparr>tk_phase := WaitsForRouter now, tk_igate := False, tk_beacon := False\<rparr>)"
| RouterOver: "tk_phase s = WaitsForRouter t \<Longrightarrow> \<not> tk_router s \<or> t + SHUTDOWN_TIMEOUT \<le> now
     \<Longrightarrow> tasks_step has_client now s (s\<lparr>tk_phase := Complete\<rparr>)"
| InterfaceEnds: "tk_interfaces s > 0 \<Longrightarrow> tasks_step has_client now s (s\<lparr>tk_interfaces := tk_interfaces s - 1\<rparr>)"
| ClientTold: "tk_client s \<Longrightarrow> \<not> write_senders s \<Longrightarrow> tasks_step has_client now s (s\<lparr>tk_client := False\<rparr>)"
| ClientRefused: "tk_client s \<Longrightarrow> \<not> tk_router s \<Longrightarrow> tasks_step has_client now s (s\<lparr>tk_client := False\<rparr>)"
| IgateTold: "tk_igate s \<Longrightarrow> \<not> tk_router s \<Longrightarrow> tasks_step has_client now s (s\<lparr>tk_igate := False\<rparr>)"
| IgateRefused: "tk_igate s \<Longrightarrow> \<not> tk_client s \<Longrightarrow> tasks_step has_client now s (s\<lparr>tk_igate := False\<rparr>)"
| BeaconRefused: "tk_beacon s \<Longrightarrow> \<not> tk_client s \<Longrightarrow> tasks_step has_client now s (s\<lparr>tk_beacon := False\<rparr>)"
| RouterTold: "tk_router s \<Longrightarrow> \<not> packet_senders s \<Longrightarrow> tasks_step has_client now s (s\<lparr>tk_router := False\<rparr>)"

inductive_cases tasks_stepE: "tasks_step has_client now s s'"

text \<open>Runs with the times of their steps, the latest last.\<close>

inductive tasks_reach :: "system \<Rightarrow> instant \<Rightarrow> tasks \<Rightarrow> bool" for sys :: system where
  Begin: "tasks_reach sys t (tasks_start sys)"
| Step: "tasks_reach sys t s \<Longrightarrow> t \<le> now \<Longrightarrow> tasks_step (sys_client sys \<noteq> None) now s s' \<Longrightarrow> tasks_reach sys now s'"

section \<open>Nobody tells the client\<close>

definition all_wait :: "tasks \<Rightarrow> bool" where
  "all_wait s \<longleftrightarrow> tk_client s \<and> tk_router s \<and> tk_igate s \<and> tk_beacon s"

definition before_abort :: "tasks \<Rightarrow> bool" where
  "before_abort s \<longleftrightarrow> (case tk_phase s of Serving \<Rightarrow> True | WaitsForClient t \<Rightarrow> True | _ \<Rightarrow> False)"

lemma step_all_wait:
  assumes "tasks_step has_client now s s'" "before_abort s \<Longrightarrow> all_wait s" "before_abort s'"
  shows "all_wait s'"
  using assms
  by (induction rule: tasks_step.induct)
     (auto simp: all_wait_def before_abort_def write_senders_def packet_senders_def)

lemma reach_all_wait:
  assumes "tasks_reach sys t s" "sys_client sys = Some c" "cl_servers c \<noteq> []"
  shows "before_abort s \<longrightarrow> all_wait s"
  using assms
proof (induction rule: tasks_reach.induct)
  case (Begin t)
  then show ?case by (simp add: tasks_start_def all_wait_def)
next
  case (Step t s now s')
  then show ?case using step_all_wait by blast
qed

text \<open>The phase began when the signal came.\<close>

lemma reach_phase_time:
  "tasks_reach sys now s \<Longrightarrow> tk_phase s = WaitsForClient t \<or> tk_phase s = WaitsForRouter t \<Longrightarrow> t \<le> now"
proof (induction arbitrary: t rule: tasks_reach.induct)
  case (Begin t)
  then show ?case by (simp add: tasks_start_def)
next
  case (Step t0 s now s')
  from Step.hyps(3) show ?case
    using Step.IH Step.prems Step.hyps(2) by cases (auto intro: order_trans)
qed

section \<open>Property\<close>

text \<open>C39: with an APRS-IS client that has a server, dropping the sender of the main task does not stop the client: the iGate and the beacon task
  hold senders until they are aborted, and they are aborted only after the wait for the client. So every shutdown waits for the client
  the full ten seconds, the client still running when the tasks are aborted.\<close>

theorem shutdown_waits_for_client:
  assumes "tasks_reach sys t s" "sys_client sys = Some c" "cl_servers c \<noteq> []"
    and "tk_phase s = WaitsForClient t0" "tasks_step True now s s'" "tk_phase s' \<noteq> WaitsForClient t0"
  shows "t0 + SHUTDOWN_TIMEOUT \<le> now \<and> tk_client s' \<and> write_senders s \<and> \<not> write_senders s'"
proof -
  have wait: "all_wait s" using reach_all_wait [OF assms(1-3)] assms(4) by (simp add: before_abort_def)
  have "\<not> tk_main_sender s \<or> tk_phase s = Serving" if "tasks_reach sys t s" for t s
    using that
  proof (induction rule: tasks_reach.induct)
    case (Begin t)
    then show ?case by (simp add: tasks_start_def)
  next
    case (Step t s now s')
    from Step.hyps(3) show ?case using Step.IH by cases auto
  qed
  then have "\<not> tk_main_sender s" using assms(1,4) by fastforce
  with assms(5,6,4) wait show ?thesis
    by (auto simp: all_wait_def write_senders_def elim!: tasks_stepE)
qed

text \<open>And then it goes on: ten seconds after the signal, and ten seconds after that, the phase can be left.\<close>

lemma shutdown_goes_on:
  "tk_phase s = WaitsForClient t \<Longrightarrow> \<exists>s'. tasks_step has_client (t + SHUTDOWN_TIMEOUT) s s' \<and> tk_phase s' = WaitsForRouter (t + SHUTDOWN_TIMEOUT)"
  "tk_phase s = WaitsForRouter t \<Longrightarrow> \<exists>s'. tasks_step has_client (t + SHUTDOWN_TIMEOUT) s s' \<and> tk_phase s' = Complete"
  using tasks_step.ClientOver [of s t has_client "t + SHUTDOWN_TIMEOUT"] tasks_step.RouterOver [of s t "t + SHUTDOWN_TIMEOUT"]
  by fastforce+

section \<open>Witness\<close>

definition demo_system :: system where
  "demo_system = async_start 0 False (demo_config\<lparr>cfg_aprsis := Some
     \<lparr>ac_passcode = 0, ac_servers = [''noam.aprs2.net:14580''], ac_filter = None, ac_heartbeat_timeout = None\<rparr>\<rparr>)"

theorem shutdown_waits_for_client_witness:
  "\<exists>s s'. tasks_reach demo_system 5 s \<and> tasks_step True (5 + SHUTDOWN_TIMEOUT) s s' \<and> tk_phase s' = WaitsForRouter (5 + SHUTDOWN_TIMEOUT)
    \<and> tk_client s'"
proof -
  obtain c where c: "sys_client demo_system = Some c" "cl_servers c \<noteq> []"
    by (simp add: demo_system_def async_start_def Let_def demo_config_def client_new_def)
  let ?s = "tasks_start demo_system"
  let ?s1 = "?s\<lparr>tk_phase := WaitsForClient 5, tk_main_sender := False\<rparr>"
  let ?s2 = "?s1\<lparr>tk_phase := WaitsForRouter (5 + SHUTDOWN_TIMEOUT), tk_igate := False, tk_beacon := False\<rparr>"
  have "tk_phase ?s = Serving" by (simp add: tasks_start_def)
  then have "tasks_step (sys_client demo_system \<noteq> None) 5 ?s ?s1" by (rule tasks_step.Signal)
  then have reach: "tasks_reach demo_system 5 ?s1" by (rule tasks_reach.Step [OF tasks_reach.Begin order_refl])
  have over: "tasks_step True (5 + SHUTDOWN_TIMEOUT) ?s1 ?s2" by (rule tasks_step.ClientOver [where t = 5]) simp_all
  have "tk_client ?s2" using shutdown_waits_for_client [OF reach c _ over, of 5] by simp
  then show ?thesis using reach over by (intro exI [of _ ?s1] exI [of _ ?s2]) simp
qed

end
