(* ===== verification/Daemon.thy ===== *)
theory Daemon
  imports Shutdown
begin

text \<open>
  The tasks of \<open>async_main\<close> in \<open>src/main.rs\<close> running together: the interfaces, the router, the iGate and the
  dashboard tasks, the APRS-IS client, the beacon timer and the timer of the statistics, from the start until the tasks are
  aborted after the signal to stop. The web server only reads the state of the dashboard and has no part in this. One state holds them all with the channels between them, and a step is one task going on to where it waits again, in
  any order; what a task does is its definition in the theory of its file. A send that waits for room is a state of its
  own: the packets an interface has decoded and not yet handed over, the line the iGate task holds, the beacons
  that are due. The channels of packets (the crate \<open>tokio\<close>) and the serial ports are a parameter; the times of the steps,
  the files and commands of the beacons and the hash behind their jitter may differ from step to step. \<open>dm_sent\<close>, \<open>dm_seen\<close>
  and \<open>dm_lost\<close> are history variables: the lines put on the queue of the client, the packets the iGate task
  has taken, and those the router could not give to it.
\<close>

section \<open>What is outside\<close>

record ('ch, 'cc) outside =
  os_channel :: "nat \<Rightarrow> 'ch"
  os_try_send :: "'ch \<Rightarrow> packet \<Rightarrow> 'ch \<times> send_result"
  os_recv :: "'ch \<Rightarrow> (packet \<times> 'ch) option"
  os_close :: "'ch \<Rightarrow> 'ch"
  os_command_channel :: "nat \<Rightarrow> 'cc"
  os_command_send :: "'cc \<Rightarrow> interface_command \<Rightarrow> 'cc \<times> bool"
  os_command_recv :: "'cc \<Rightarrow> (interface_command \<times> 'cc) option"
  os_serial :: "string \<Rightarrow> u32 \<Rightarrow> bool"

text \<open>What is relied on: a channel is a queue. A new one is empty, a packet is appended if it is accepted and nothing
  changes if it is not, the oldest packet is received if there is one, and what is in it is gone when its receiver is.\<close>

definition queue_laws :: "('ch, 'cc) outside \<Rightarrow> ('ch \<Rightarrow> packet list) \<Rightarrow> bool" where
  "queue_laws out contents \<longleftrightarrow>
     (\<forall>n. contents (os_channel out n) = [])
     \<and> (\<forall>ch p ch' answer. os_try_send out ch p = (ch', answer)
          \<longrightarrow> contents ch' = contents ch @ (if answer = SendOk then [p] else []))
     \<and> (\<forall>ch p ch'. os_recv out ch = Some (p, ch') \<longrightarrow> contents ch = p # contents ch')
     \<and> (\<forall>ch. os_recv out ch = None \<longrightarrow> contents ch = [])
     \<and> (\<forall>ch. contents (os_close out ch) = [])"

text \<open>The same for the channels of the commands, whose sends wait and are answered by whether the receiver is still there.\<close>

definition command_laws :: "('ch, 'cc) outside \<Rightarrow> ('cc \<Rightarrow> interface_command list) \<Rightarrow> bool" where
  "command_laws out commands \<longleftrightarrow>
     (\<forall>n. commands (os_command_channel out n) = [])
     \<and> (\<forall>ch c ch' ok. os_command_send out ch c = (ch', ok) \<longrightarrow> commands ch' = commands ch @ (if ok then [c] else []))
     \<and> (\<forall>ch c ch'. os_command_recv out ch = Some (c, ch') \<longrightarrow> commands ch = c # commands ch')"

section \<open>The interfaces\<close>

text \<open>The task of an interface, where a serial port may not have opened.\<close>

datatype radio_task = SerialTask serial_interface "kiss_loop option" | TcpTask tcp_interface tcp_state

fun radio_start :: "('ch, 'cc) outside \<Rightarrow> instant \<Rightarrow> spawned \<Rightarrow> radio_task" where
  "radio_start out now (SpawnedSerial si) = SerialTask si (serial_run (os_serial out) now si)"
| "radio_start out now (SpawnedTcp ti) = TcpTask ti tcp_start"

fun radio_metadata :: "radio_task \<Rightarrow> interface_metadata" where
  "radio_metadata (SerialTask si k) = si_metadata si"
| "radio_metadata (TcpTask ti s) = ti_metadata ti"

text \<open>The loops it has run, and the packets they have decoded.\<close>

fun radio_loops :: "radio_task \<Rightarrow> kiss_loop list" where
  "radio_loops (SerialTask si k) = (case k of None \<Rightarrow> [] | Some k \<Rightarrow> [k])"
| "radio_loops (TcpTask ti s) = tc_done s @ (case tc_phase s of InLoop k \<Rightarrow> [k] | _ \<Rightarrow> [])"

definition radio_heard :: "radio_task \<Rightarrow> packet list" where
  "radio_heard r = concat (map kl_packets (radio_loops r))"

text \<open>The channel of the commands after an event, \<^const>\<open>None\<close> where the event cannot happen: a command is the next of
  the channel, the registry outlives the interfaces, and so does the router, which accepts every packet sooner or later.\<close>

definition take_command ::
  "('cc \<Rightarrow> (interface_command \<times> 'cc) option) \<Rightarrow> interface_command \<Rightarrow> 'cc \<Rightarrow> 'cc option" where
  "take_command recv c ch = (case recv ch of None \<Rightarrow> None | Some (c', ch') \<Rightarrow> if c' = c then Some ch' else None)"

fun loop_commands :: "('cc \<Rightarrow> (interface_command \<times> 'cc) option) \<Rightarrow> kiss_event \<Rightarrow> 'cc \<Rightarrow> 'cc option" where
  "loop_commands recv (ReadBytes bytes answers) ch = (if \<forall>i. answers i then Some ch else None)"
| "loop_commands recv (Command c ok) ch = take_command recv c ch"
| "loop_commands recv CommandsClosed ch = None"
| "loop_commands recv e ch = Some ch"

fun tcp_commands :: "('cc \<Rightarrow> (interface_command \<times> 'cc) option) \<Rightarrow> tcp_event \<Rightarrow> 'cc \<Rightarrow> 'cc option" where
  "tcp_commands recv (Got c) ch = take_command recv c ch"
| "tcp_commands recv NothingQueued ch = (if recv ch = None then Some ch else None)"
| "tcp_commands recv Disconnected ch = None"
| "tcp_commands recv (LoopEvent e) ch = loop_commands recv e ch"
| "tcp_commands recv e ch = Some ch"

inductive radio_step ::
  "('ch, 'cc) outside \<Rightarrow> instant \<Rightarrow> radio_task \<Rightarrow> 'cc \<Rightarrow> radio_task \<Rightarrow> 'cc \<Rightarrow> bool"
  for out :: "('ch, 'cc) outside" and now :: instant
where
  SerialRound: "kiss_loop_step (si_metadata si) (si_protocol si) (si_watchdog si) now e k = Some k'
     \<Longrightarrow> loop_commands (os_command_recv out) e ch = Some ch'
     \<Longrightarrow> radio_step out now (SerialTask si (Some k)) ch (SerialTask si (Some k')) ch'"
| TcpRound: "tcp_step ti now e s s' \<Longrightarrow> tcp_commands (os_command_recv out) e ch = Some ch'
     \<Longrightarrow> radio_step out now (TcpTask ti s) ch (TcpTask ti s') ch'"

text \<open>An interface with the packets it has decoded but not handed over.\<close>

record radio =
  rd_task :: radio_task
  rd_outbox :: "packet list"

section \<open>The daemon\<close>

text \<open>A line for the server and where it came from: a packet gated at a time, or a beacon.\<close>

datatype sent_line = FromRadio instant packet string | FromBeacon string

fun line_text :: "sent_line \<Rightarrow> string" where
  "line_text (FromRadio t p l) = l"
| "line_text (FromBeacon l) = l"

fun radio_line :: "sent_line \<Rightarrow> (instant \<times> packet \<times> string) option" where
  "radio_line (FromRadio t p l) = Some (t, p, l)"
| "radio_line (FromBeacon l) = None"

record ('ch, 'cc) daemon =
  dm_radios :: "radio list"
  dm_registry :: "'cc registry"
  dm_signalled :: bool
  dm_source :: 'ch
  dm_router :: "'ch router"
  dm_igate :: igate_task
  dm_held :: "(instant \<times> packet \<times> string) option"
  dm_client :: "(aprsis_client \<times> aprsis_state) option"
  dm_scheduler :: beacon_scheduler
  dm_beaconing :: bool
  dm_due :: "string list"
  dm_sent :: "sent_line list"
  dm_seen :: "(instant \<times> packet) list"
  dm_lost :: "packet list"

definition daemon_start ::
  "('ch, 'cc) outside \<Rightarrow> instant \<Rightarrow> (u64 \<Rightarrow> u64) \<Rightarrow> (nat \<Rightarrow> instant) \<Rightarrow> cli \<Rightarrow> config \<Rightarrow> ('ch, 'cc) daemon may_panic" where
  "daemon_start out now hash clock cl cfg = do {
     scheduler \<leftarrow> scheduler_from_config hash clock cfg;
     let sys = async_start now (cli_log_aprsis cl) cfg;
     Some \<lparr>dm_radios = map (\<lambda>sp. \<lparr>rd_task = radio_start out now sp, rd_outbox = []\<rparr>) (sys_spawned sys),
           dm_registry = foldl (\<lambda>r sp. register_handle r
             (handle_new (spawned_metadata sp) (os_command_channel out CMD_CHANNEL_SIZE))) registry_new (sys_spawned sys),
           dm_signalled = False,
           dm_source = os_channel out ROUTER_CHANNEL_SIZE,
           dm_router = foldl (\<lambda>r name. add_consumer (os_channel out) r name CONSUMER_CHANNEL_SIZE) router_new (sys_consumers sys),
           dm_igate = \<lparr>ig_monitor = sys_monitor sys, ig_dashboard = sys_dashboard sys, ig_sent = [], ig_running = True\<rparr>,
           dm_held = None,
           dm_client = map_option (\<lambda>c. (c, aprsis_start c)) (sys_client sys),
           dm_scheduler = scheduler, dm_beaconing = True, dm_due = [],
           dm_sent = [], dm_seen = [], dm_lost = []\<rparr>
   }"

text \<open>A consumer and its channel.\<close>

definition consumer_channel :: "nat \<Rightarrow> ('ch, 'cc) daemon \<Rightarrow> 'ch" where
  "consumer_channel i s = con_tx (dm_router s ! i)"

definition set_channel :: "nat \<Rightarrow> 'ch \<Rightarrow> ('ch, 'cc) daemon \<Rightarrow> ('ch, 'cc) daemon" where
  "set_channel i ch s = s\<lparr>dm_router := (dm_router s)[i := (dm_router s ! i)\<lparr>con_tx := ch\<rparr>]\<rparr>"

text \<open>The receiver of the write channel is gone where no client was started and once it has stopped.\<close>

definition client_gone :: "('ch, 'cc) daemon \<Rightarrow> bool" where
  "client_gone s \<longleftrightarrow> (case dm_client s of None \<Rightarrow> True | Some (c, a) \<Rightarrow> as_phase a = Stopped)"

text \<open>A line put on the queue of the client, if it has room.\<close>

definition put_line :: "instant \<Rightarrow> sent_line \<Rightarrow> ('ch, 'cc) daemon \<Rightarrow> ('ch, 'cc) daemon option" where
  "put_line now l s =
     (case dm_client s of
        None \<Rightarrow> None
      | Some (c, a) \<Rightarrow>
          if as_phase a = Stopped \<or> \<not> length (queue a) < APRSIS_WRITE_CHANNEL_SIZE then None
          else (case aprsis_step c now (Enqueue (line_text l)) a of
                  None \<Rightarrow> None
                | Some a' \<Rightarrow> Some (s\<lparr>dm_client := Some (c, a'), dm_sent := dm_sent s @ [l]\<rparr>)))"

text \<open>The packet in a line of the server that is complete, and the answer of the client's send into the router.\<close>

definition line_packet :: "instant \<Rightarrow> string \<Rightarrow> packet option" where
  "line_packet now data =
     (if data = [] \<or> \<not> utf8_valid data then None
      else (let line = trim_end data
        in if line = [] \<or> starts_with line ''#'' then None else Some (packet_new now line ''APRSIS'' True)))"

fun client_answer :: "send_result \<Rightarrow> aprsis_answer" where
  "client_answer SendOk = Delivered"
| "client_answer SendFull = QueueFull"
| "client_answer SendClosed = ReceiverGone"

fun client_event :: "aprsis_event \<Rightarrow> bool" where
  "client_event (Enqueue d) = False"
| "client_event CloseQueue = False"
| "client_event (ReadDone data answer) = False"
| "client_event _ = True"

text \<open>The client after a step, with the connection shown on the dashboard.\<close>

definition client_after :: "aprsis_client \<Rightarrow> aprsis_state \<Rightarrow> ('ch, 'cc) daemon \<Rightarrow> ('ch, 'cc) daemon" where
  "client_after c a s =
     s\<lparr>dm_client := Some (c, a),
       dm_igate := (dm_igate s)\<lparr>ig_dashboard := map_option
         (\<lambda>d. d\<lparr>db_aprsis_connected := dash_connected a, db_aprsis_server := dash_server a\<rparr>) (ig_dashboard (dm_igate s))\<rparr>\<rparr>"

inductive daemon_step :: "('ch, 'cc) outside \<Rightarrow> cli \<Rightarrow> config \<Rightarrow> ('ch, 'cc) daemon \<Rightarrow> ('ch, 'cc) daemon \<Rightarrow> bool"
  for out :: "('ch, 'cc) outside" and cl :: cli and cfg :: config
where
  RadioStep:
    "i < length (dm_radios s) \<Longrightarrow> dm_radios s ! i = \<lparr>rd_task = r, rd_outbox = []\<rparr>
     \<Longrightarrow> radio_step out now r (ih_cmd_tx (dm_registry s ! i)) r' ch
     \<Longrightarrow> daemon_step out cl cfg s (s\<lparr>dm_radios := (dm_radios s)[i :=
             \<lparr>rd_task = r', rd_outbox = drop (length (radio_heard r)) (radio_heard r')\<rparr>],
           dm_registry := (dm_registry s)[i := (dm_registry s ! i)\<lparr>ih_cmd_tx := ch\<rparr>]\<rparr>)"
| RadioSends:
    "i < length (dm_radios s) \<Longrightarrow> dm_radios s ! i = \<lparr>rd_task = r, rd_outbox = p # ps\<rparr>
     \<Longrightarrow> os_try_send out (dm_source s) p = (ch, SendOk)
     \<Longrightarrow> daemon_step out cl cfg s
           (s\<lparr>dm_radios := (dm_radios s)[i := \<lparr>rd_task = r, rd_outbox = ps\<rparr>], dm_source := ch\<rparr>)"
| RouterStep:
    "os_recv out (dm_source s) = Some (p, ch)
     \<Longrightarrow> daemon_step out cl cfg s
           (s\<lparr>dm_source := ch, dm_router := fst (fan_out (os_try_send out) (dm_router s) p),
              dm_lost := dm_lost s
                @ (if snd (os_try_send out (consumer_channel 0 s) p) = SendOk then [] else [p])\<rparr>)"
| IgateTakes:
    "ig_running (dm_igate s) \<Longrightarrow> dm_held s = None \<Longrightarrow> os_recv out (consumer_channel 0 s) = Some (p, ch)
     \<Longrightarrow> igate_step (cfg_mycall cfg) now True p (dm_igate s) = Some t
     \<Longrightarrow> daemon_step out cl cfg s
           ((set_channel 0 ch s)\<lparr>dm_igate := t,
              dm_held := (if ig_sent t = ig_sent (dm_igate s) then None else Some (now, p, last (ig_sent t))),
              dm_seen := dm_seen s @ [(now, p)]\<rparr>)"
| IgateSends:
    "dm_held s = Some (t, p, l) \<Longrightarrow> put_line now (FromRadio t p l) s = Some s'
     \<Longrightarrow> daemon_step out cl cfg s (s'\<lparr>dm_held := None\<rparr>)"
| IgateRefused:
    "dm_held s = Some (t, p, l) \<Longrightarrow> client_gone s
     \<Longrightarrow> daemon_step out cl cfg s
           ((set_channel 0 (os_close out (consumer_channel 0 s)) s)\<lparr>dm_held := None,
              dm_igate := (dm_igate s)\<lparr>ig_sent := butlast (ig_sent (dm_igate s)), ig_running := False\<rparr>\<rparr>)"
| DashboardStep:
    "1 < length (dm_router s) \<Longrightarrow> os_recv out (consumer_channel 1 s) = Some (p, ch)
     \<Longrightarrow> ig_dashboard (dm_igate s) = Some d \<Longrightarrow> dashboard_step now epoch p d = Some d'
     \<Longrightarrow> daemon_step out cl cfg s
           ((set_channel 1 ch s)\<lparr>dm_igate := (dm_igate s)\<lparr>ig_dashboard := Some d'\<rparr>\<rparr>)"
| ClientActs:
    "dm_client s = Some (c, a) \<Longrightarrow> client_event e \<Longrightarrow> aprsis_step c now e a = Some a'
     \<Longrightarrow> daemon_step out cl cfg s (client_after c a' s)"
| ClientReads:
    "dm_client s = Some (c, a) \<Longrightarrow> line_packet now (line_buf a @ data) = None
     \<Longrightarrow> aprsis_step c now (ReadDone data answer) a = Some a'
     \<Longrightarrow> daemon_step out cl cfg s (client_after c a' s)"
| ClientReceives:
    "dm_client s = Some (c, a) \<Longrightarrow> line_packet now (line_buf a @ data) = Some p
     \<Longrightarrow> os_try_send out (dm_source s) p = (ch, answer)
     \<Longrightarrow> aprsis_step c now (ReadDone data (client_answer answer)) a = Some a'
     \<Longrightarrow> daemon_step out cl cfg s ((client_after c a' s)\<lparr>dm_source := ch\<rparr>)"
| BeaconTick:
    "dm_beaconing s \<Longrightarrow> dm_due s = []
     \<Longrightarrow> beacon_tick fs sh hash (\<lambda>i. True) now (dm_scheduler s) = Some (ls, ok, scheduler)
     \<Longrightarrow> daemon_step out cl cfg s (s\<lparr>dm_scheduler := scheduler, dm_due := ls\<rparr>)"
| BeaconSends:
    "dm_due s = l # ls \<Longrightarrow> put_line now (FromBeacon l) s = Some s'
     \<Longrightarrow> daemon_step out cl cfg s (s'\<lparr>dm_due := ls\<rparr>)"
| BeaconRefused:
    "dm_due s \<noteq> [] \<Longrightarrow> client_gone s \<Longrightarrow> daemon_step out cl cfg s (s\<lparr>dm_due := [], dm_beaconing := False\<rparr>)"
| StatisticsTick:
    "cli_erlang cl \<Longrightarrow> erlang_timer tick now (ig_monitor (dm_igate s)) (ig_dashboard (dm_igate s)) = (m, d)
     \<Longrightarrow> daemon_step out cl cfg s (s\<lparr>dm_igate := (dm_igate s)\<lparr>ig_monitor := m, ig_dashboard := d\<rparr>\<rparr>)"

| Signals:
    "\<not> dm_signalled s
     \<Longrightarrow> daemon_step out cl cfg s
           (s\<lparr>dm_signalled := True, dm_registry := shutdown_all (os_command_send out) (dm_registry s)\<rparr>)"

inductive daemon_reach :: "('ch, 'cc) outside \<Rightarrow> cli \<Rightarrow> config \<Rightarrow> ('ch, 'cc) daemon \<Rightarrow> bool"
  for out :: "('ch, 'cc) outside" and cl :: cli and cfg :: config
where
  Starts: "daemon_start out now hash clock cl cfg = Some s \<Longrightarrow> daemon_reach out cl cfg s"
| Goes: "daemon_reach out cl cfg s \<Longrightarrow> daemon_step out cl cfg s s' \<Longrightarrow> daemon_reach out cl cfg s'"

text \<open>A packet on which the iGate or the dashboard task panics, which ends the process.\<close>

inductive daemon_aborts :: "('ch, 'cc) outside \<Rightarrow> config \<Rightarrow> ('ch, 'cc) daemon \<Rightarrow> packet \<Rightarrow> bool"
  for out :: "('ch, 'cc) outside" and cfg :: config
where
  IgatePanics:
    "ig_running (dm_igate s) \<Longrightarrow> dm_held s = None \<Longrightarrow> os_recv out (consumer_channel 0 s) = Some (p, ch)
     \<Longrightarrow> igate_step (cfg_mycall cfg) now True p (dm_igate s) = None \<Longrightarrow> daemon_aborts out cfg s p"
| DashboardPanics:
    "1 < length (dm_router s) \<Longrightarrow> os_recv out (consumer_channel 1 s) = Some (p, ch)
     \<Longrightarrow> ig_dashboard (dm_igate s) = Some d \<Longrightarrow> dashboard_step now epoch p d = None \<Longrightarrow> daemon_aborts out cfg s p"

section \<open>What the interfaces hear\<close>

text \<open>A packet decoded from a frame by the interface with this metadata.\<close>

definition decoded_by :: "interface_metadata \<Rightarrow> packet \<Rightarrow> bool" where
  "decoded_by md p \<longleftrightarrow> (\<exists>t f. process_kiss_frame t f (md_callsign md) (md_igate_group md) = Some p)"

lemma deliver_decoded:
  "\<exists>ps. kl_packets (deliver md now a i fs k) = kl_packets k @ ps \<and> (\<forall>p\<in>set ps. decoded_by md p)"
proof (induction md now a i fs k rule: deliver.induct)
  case (2 md now a i f fs k)
  show ?case
  proof (cases "process_kiss_frame now f (md_callsign md) (md_igate_group md)")
    case None
    then show ?thesis using 2(1) by simp
  next
    case (Some p)
    then have p: "decoded_by md p" unfolding decoded_by_def by blast
    show ?thesis
    proof (cases "a i")
      case True
      from 2(2) [OF Some] True obtain ps where
        "kl_packets (deliver md now a (Suc i) fs (k\<lparr>kl_packets := kl_packets k @ [p]\<rparr>)) = kl_packets k @ [p] @ ps"
        "\<forall>q\<in>set ps. decoded_by md q" by auto
      then show ?thesis using Some True p by (intro exI [of _ "p # ps"]) simp
    next
      case False
      then show ?thesis using Some by simp
    qed
  qed
qed simp

lemma kiss_loop_step_decoded:
  assumes "kiss_loop_step md proto w now e k = Some k'"
  shows "\<exists>ps. kl_packets k' = kl_packets k @ ps \<and> (\<forall>p\<in>set ps. decoded_by md p)"
proof (cases "\<exists>bytes a. e = ReadBytes bytes a")
  case True
  then obtain bytes a where e: "e = ReadBytes bytes a" by blast
  obtain d fs where df: "feed (kl_decoder k) bytes = (d, fs)" by (cases "feed (kl_decoder k) bytes")
  show ?thesis
  proof (cases "bytes = []")
    case True
    then show ?thesis using assms e by (auto split: if_splits)
  next
    case False
    then have "k' = deliver md now a 0 fs (k\<lparr>kl_last_data := now, kl_warned := False, kl_decoder := d\<rparr>)"
      using assms e df by (auto split: if_splits)
    then show ?thesis
      using deliver_decoded [of md now a 0 fs "k\<lparr>kl_last_data := now, kl_warned := False, kl_decoder := d\<rparr>"] by simp
  qed
next
  case False
  then show ?thesis using kiss_loop_step_other [OF assms] by auto
qed

lemma radio_heard_simps [simp]:
  "radio_heard (SerialTask si None) = []" "radio_heard (SerialTask si (Some k)) = kl_packets k"
  "radio_heard (TcpTask ti s) = concat (map kl_packets (tc_done s)) @ (case tc_phase s of InLoop k \<Rightarrow> kl_packets k | _ \<Rightarrow> [])"
  by (simp_all add: radio_heard_def split: tcp_phase.split)

lemma tcp_step_heard:
  assumes "tcp_step ti now e s s'"
  shows "\<exists>ps. radio_heard (TcpTask ti s') = radio_heard (TcpTask ti s) @ ps \<and> (\<forall>p\<in>set ps. decoded_by (ti_metadata ti) p)"
  using assms
proof (induction rule: tcp_step.induct)
  case (LoopGoesOn s k e k')
  from kiss_loop_step_decoded [OF this(2)] this(1) show ?case by auto
next
  case (LoopStops s k e k' r)
  from kiss_loop_step_decoded [OF this(2)] this(1) show ?case by auto
next
  case (LoopLost s k e k' r)
  from kiss_loop_step_decoded [OF this(2)] this(1) show ?case by auto
qed (auto simp: waited_def kiss_loop_start_def split: tcp_phase.splits)

lemma radio_step_heard:
  assumes "radio_step out now r ch r' ch'"
  shows "radio_metadata r' = radio_metadata r
    \<and> (\<exists>ps. radio_heard r' = radio_heard r @ ps \<and> (\<forall>p\<in>set ps. decoded_by (radio_metadata r) p))"
  using assms
proof (induction rule: radio_step.induct)
  case (SerialRound si e k k' ch ch')
  from kiss_loop_step_decoded [OF this(1)] show ?case by auto
next
  case (TcpRound ti e s s' ch ch')
  from tcp_step_heard [OF this(1)] show ?case by auto
qed

text \<open>Nothing is written where no command in the channel is one to transmit.\<close>

definition no_transmit :: "interface_command list \<Rightarrow> bool" where
  "no_transmit cs \<longleftrightarrow> (\<forall>c\<in>set cs. c = Shutdown)"

lemma take_command_rest:
  assumes "command_laws out commands" "take_command (os_command_recv out) c ch = Some ch'"
  shows "commands ch = c # commands ch'"
  using assms by (auto simp: take_command_def command_laws_def split: option.splits if_splits)

lemma loop_commands_rest:
  assumes "command_laws out commands" "loop_commands (os_command_recv out) e ch = Some ch'" "no_transmit (commands ch)"
  shows "no_transmit (commands ch')" "\<forall>p ok. e \<noteq> Command (Transmit p) ok"
  using assms take_command_rest [OF assms(1)]
  by (cases e; fastforce simp: no_transmit_def split: if_splits)+

lemma tcp_commands_rest:
  assumes "command_laws out commands" "tcp_commands (os_command_recv out) e ch = Some ch'" "no_transmit (commands ch)"
  shows "no_transmit (commands ch')" "\<forall>p ok. e \<noteq> LoopEvent (Command (Transmit p) ok)"
  using assms take_command_rest [OF assms(1)] loop_commands_rest [OF assms(1)]
  by (cases e; fastforce simp: no_transmit_def split: if_splits)+

lemma kiss_loop_step_silent:
  assumes "kiss_loop_step md proto w now e k = Some k'" "\<forall>p ok. e \<noteq> Command (Transmit p) ok"
  shows "kl_written k' = kl_written k"
proof -
  have "frames_to_send proto [(now, e)] = []"
    using assms(2) by (cases "(proto, [(now, e)])" rule: frames_to_send.cases) auto
  then show ?thesis using kiss_loop_step_written [OF assms(1), of "[]"] by (simp split: if_splits)
qed

lemma radio_step_silent:
  assumes laws: "command_laws out commands"
    and "radio_step out now r ch r' ch'" "\<forall>k\<in>set (radio_loops r). kl_written k = []" "no_transmit (commands ch)"
  shows "(\<forall>k\<in>set (radio_loops r'). kl_written k = []) \<and> no_transmit (commands ch')"
  using assms(2-4)
proof (induction rule: radio_step.induct)
  case (SerialRound si e k k' ch ch')
  note rest = loop_commands_rest [OF laws SerialRound(2,4)]
  then show ?case using kiss_loop_step_silent [OF SerialRound(1)] SerialRound(3) by simp
next
  case (TcpRound ti e s s' ch ch')
  note rest = tcp_commands_rest [OF laws TcpRound(2,4)]
  have "\<forall>k\<in>set (radio_loops (TcpTask ti s')). kl_written k = []"
    using TcpRound(1) rest(2) TcpRound(3)
  proof (induction rule: tcp_step.induct)
    case (LoopGoesOn s k e k')
    then have "kl_written k' = []" using kiss_loop_step_silent [OF LoopGoesOn(2)] by auto
    then show ?case using LoopGoesOn by auto
  next
    case (LoopStops s k e k' r)
    then have "kl_written k' = []" using kiss_loop_step_silent [OF LoopStops(2)] by auto
    then show ?case using LoopStops by auto
  next
    case (LoopLost s k e k' r)
    then have "kl_written k' = []" using kiss_loop_step_silent [OF LoopLost(2)] by auto
    then show ?case using LoopLost by auto
  qed (auto simp: waited_def kiss_loop_start_def split: tcp_phase.splits)
  then show ?case using rest(1) by simp
qed

section \<open>What the tasks do\<close>

text \<open>The client: what it delivers, and what a step leaves alone.\<close>

lemma handle_line_delivered:
  "delivered (handle_line c now data answer a) = delivered a
    @ (case line_packet now data of None \<Rightarrow> [] | Some p \<Rightarrow> if answer = Delivered then [p] else [])"
  by (auto simp: handle_line_def line_packet_def disconnected_def next_round_def Let_def split: aprsis_answer.split)

lemma client_event_delivered:
  "client_event e \<Longrightarrow> aprsis_step c now e a = Some a' \<Longrightarrow> delivered a' = delivered a"
  by (cases e) (auto simp: queue_steps split: if_splits aprsis_phase.splits)

lemma read_done_delivered:
  "aprsis_step c now (ReadDone data answer) a = Some a' \<Longrightarrow> delivered a' = delivered a
    @ (case line_packet now (line_buf a @ data) of None \<Rightarrow> [] | Some p \<Rightarrow> if answer = Delivered then [p] else [])"
  by (auto simp: handle_line_delivered split: if_splits)

lemma line_packet_source: "line_packet now data = Some p \<Longrightarrow> \<exists>l. p = packet_new now l ''APRSIS'' True"
  by (auto simp: line_packet_def Let_def split: if_splits)

lemma aprsis_step_tail:
  assumes "aprsis_step c now e a = Some a'" "suffix (sent_here a) (written a)"
  shows "suffix (sent_here a') (written a')"
proof -
  have line: "sent_here (handle_line c now d an a) = sent_here a" "written (handle_line c now d an a) = written a" for d an
    by (simp_all add: handle_line_def disconnected_def next_round_def Let_def split: aprsis_answer.split)
  have more: "suffix (sent_here a @ [d]) (written a @ [d])" for d using assms(2) by (auto simp: suffix_def)
  show ?thesis
    using assms more
    by (cases e) (auto simp: line queue_steps split: if_splits aprsis_phase.splits)
qed

lemma client_stays: "client_event e \<Longrightarrow> (case e of Enqueue d \<Rightarrow> [d] | _ \<Rightarrow> []) = []"
  by (cases e) simp_all

text \<open>The iGate task: the line for a packet, if there is one.\<close>

definition gated_line :: "string \<Rightarrow> instant \<Rightarrow> packet \<Rightarrow> string option" where
  "gated_line gate_call now p =
     (if source_interface p = ''APRSIS'' then None
      else (case gate_to_aprsis p gate_call now of Some (Gated l) \<Rightarrow> Some l | _ \<Rightarrow> None))"

lemma gated_line_Some:
  "gated_line gate_call now p = Some l \<longleftrightarrow>
     source_interface p \<noteq> ''APRSIS'' \<and> gate_to_aprsis p gate_call now = Some (Gated l)"
  by (auto simp: gated_line_def split: option.splits gate_result.splits)

lemma igate_step_line:
  assumes "igate_step gate_call now True p t = Some t'"
  shows "ig_running t' = ig_running t \<and> ig_sent t' = ig_sent t @
    (case gated_line gate_call now p of None \<Rightarrow> [] | Some l \<Rightarrow> [l])"
proof (cases "source_interface p = ''APRSIS''")
  case True
  then show ?thesis using assms by (auto simp: igate_step_def gated_line_def)
next
  case False
  then obtain r where r: "gate_to_aprsis p gate_call now = Some r"
    using assms by (auto simp: igate_step_def bind_eq_Some_conv)
  show ?thesis
    using assms False r by (cases r) (auto simp: igate_step_def gated_line_def Let_def)
qed

text \<open>A refused line leaves the task as the step does when it is told so at once.\<close>

lemma igate_refused:
  assumes "igate_step gate_call now True p t = Some t'" "gated_line gate_call now p = Some l"
  shows "igate_step gate_call now False p t = Some (t'\<lparr>ig_sent := butlast (ig_sent t'), ig_running := False\<rparr>)"
  using assms by (auto simp: gated_line_Some igate_step_def Let_def)

definition gated_entry :: "string \<Rightarrow> instant \<times> packet \<Rightarrow> (instant \<times> packet \<times> string) option" where
  "gated_entry gate_call tp = (case tp of (now, p) \<Rightarrow> map_option (\<lambda>l. (now, p, l)) (gated_line gate_call now p))"

text \<open>What a line put on the queue changes.\<close>

lemma put_lineD:
  assumes "put_line now l s = Some s'"
  shows "\<exists>c a a'. dm_client s = Some (c, a) \<and> aprsis_step c now (Enqueue (line_text l)) a = Some a' \<and> as_phase a \<noteq> Stopped
    \<and> s' = s\<lparr>dm_client := Some (c, a'), dm_sent := dm_sent s @ [l]\<rparr>"
  using assms unfolding put_line_def by (auto split: option.splits prod.splits if_splits)

end
