(* ===== verification/Daemon_Invariants.thy ===== *)
theory Daemon_Invariants
  imports Daemon "HOL-Library.Multiset"
begin

text \<open>
  What holds in every reachable state of the daemon of the theory \<open>Daemon\<close>, whatever the order of its steps. Each
  invariant has a predicate and a lemma that every step keeps it: the queue of the client and the lines sent
  (\<open>client_inv\<close>), where the packets are (\<open>flow_inv\<close>, an equation of multisets, and \<open>origin_inv\<close>), what the
  iGate task makes of them (\<open>gate_inv\<close>), what the interfaces decode and write (\<open>decoded_inv\<close>, \<open>silent_inv\<close>),
  and the beacons (\<open>beacon_inv\<close>).
\<close>

section \<open>Invariants\<close>

text \<open>The queue of the client stays open, the lines sent are those the client has taken or will take, and what it wrote on this connection is the end of what it
  wrote.\<close>

lemma aprsis_step_closed:
  assumes "aprsis_step c now e a = Some a'" "e \<noteq> CloseQueue"
  shows "queue_closed a' = queue_closed a"
proof -
  have "queue_closed (handle_line c now d an a) = queue_closed a" for d an
    by (simp add: handle_line_def disconnected_def next_round_def Let_def split: aprsis_answer.split)
  then show ?thesis
    using assms by (cases e) (auto simp: queue_steps split: if_splits aprsis_phase.splits)
qed

definition client_inv :: "('ch, 'cc) daemon \<Rightarrow> bool" where
  "client_inv s \<longleftrightarrow> (\<forall>c a. dm_client s = Some (c, a) \<longrightarrow>
     aprsis_inv c a \<and> \<not> queue_closed a \<and> suffix (sent_here a) (written a) \<and> map line_text (dm_sent s) = taken a @ queue a
     \<and> (\<forall>p\<in>set (delivered a). \<exists>t l. p = packet_new t l ''APRSIS'' True))"

lemma client_inv_eq:
  "dm_client s' = dm_client s \<Longrightarrow> dm_sent s' = dm_sent s \<Longrightarrow> client_inv s' = client_inv s"
  by (simp add: client_inv_def)

lemma client_inv_step:
  assumes "client_inv s" "dm_client s = Some (c, a)" "aprsis_step c now e a = Some a'"
    and "e \<noteq> CloseQueue" "dm_client s' = Some (c, a')" "dm_sent s' = dm_sent s @ ls"
    and "map line_text ls = (case e of Enqueue d \<Rightarrow> [d] | _ \<Rightarrow> [])"
    and "\<exists>ps. delivered a' = delivered a @ ps \<and> (\<forall>p\<in>set ps. \<exists>t l. p = packet_new t l ''APRSIS'' True)"
  shows "client_inv s'"
proof -
  have "aprsis_inv c a" "\<not> queue_closed a" "suffix (sent_here a) (written a)" "map line_text (dm_sent s) = taken a @ queue a"
    "\<forall>p\<in>set (delivered a). \<exists>t l. p = packet_new t l ''APRSIS'' True"
    using assms(1,2) by (auto simp: client_inv_def)
  then show ?thesis
    using aprsis_step_inv [OF _ assms(3)] aprsis_step_tail [OF assms(3)] aprsis_step_queue [OF assms(3)] aprsis_step_closed [OF assms(3,4)]
      assms(5-8)
    by (auto simp: client_inv_def)
qed

lemma client_inv_put:
  assumes "client_inv s" "put_line now l s = Some s'"
  shows "client_inv s'"
proof -
  obtain c a a' where ca: "dm_client s = Some (c, a)" "aprsis_step c now (Enqueue (line_text l)) a = Some a'"
    "s' = s\<lparr>dm_client := Some (c, a'), dm_sent := dm_sent s @ [l]\<rparr>" using put_lineD [OF assms(2)] by blast
  have "delivered a' = delivered a" using ca(2) by (auto split: if_splits)
  then show ?thesis by (intro client_inv_step [OF assms(1) ca(1,2), of _ "[l]"]) (simp_all add: ca(3))
qed

lemma daemon_step_client:
  assumes "daemon_step out cl cfg s s'" "client_inv s"
  shows "client_inv s'"
  using assms
proof (induction rule: daemon_step.induct)
  case (IgateSends s t p l now s')
  then show ?case using client_inv_put client_inv_eq [of "s'\<lparr>dm_held := None\<rparr>" s'] by simp
next
  case (BeaconSends s l ls now s')
  then show ?case using client_inv_put client_inv_eq [of "s'\<lparr>dm_due := ls\<rparr>" s'] by simp
next
  case (ClientActs s c a e now a')
  show ?case
    by (rule client_inv_step [OF ClientActs(4,1,3), of _ "[]"])
       (use ClientActs(2) client_stays [OF ClientActs(2)] client_event_delivered [OF ClientActs(2,3)] in
         \<open>auto simp: client_after_def\<close>)
next
  case (ClientReads s c a now data answer a')
  show ?case
    by (rule client_inv_step [OF ClientReads(4,1,3), of _ "[]"])
       (use read_done_delivered [OF ClientReads(3)] ClientReads(2) in \<open>simp_all add: client_after_def\<close>)
next
  case (ClientReceives s c a now data p ch answer a')
  show ?case
    by (rule client_inv_step [OF ClientReceives(5,1,4), of _ "[]"])
       (use read_done_delivered [OF ClientReceives(4)] ClientReceives(2) line_packet_source [OF ClientReceives(2)] in
         \<open>auto simp: client_after_def\<close>)
qed (simp_all add: client_inv_def set_channel_def)

text \<open>The packets known: heard by the interfaces, and received from the server. Those that have not reached the iGate
  task are in the hands of an interface, in the channel of the router, or in the channel of the task.\<close>

definition daemon_heard :: "('ch, 'cc) daemon \<Rightarrow> packet list" where
  "daemon_heard s = concat (map (\<lambda>r. radio_heard (rd_task r)) (dm_radios s))"

definition server_heard :: "('ch, 'cc) daemon \<Rightarrow> packet list" where
  "server_heard s = (case dm_client s of None \<Rightarrow> [] | Some (c, a) \<Rightarrow> delivered a)"

definition known_packets :: "('ch, 'cc) daemon \<Rightarrow> packet multiset" where
  "known_packets s = mset (daemon_heard s) + mset (server_heard s)"

definition in_outboxes :: "('ch, 'cc) daemon \<Rightarrow> packet list" where
  "in_outboxes s = concat (map rd_outbox (dm_radios s))"

definition on_the_way :: "('ch \<Rightarrow> packet list) \<Rightarrow> ('ch, 'cc) daemon \<Rightarrow> packet multiset" where
  "on_the_way contents s =
     mset (in_outboxes s) + mset (contents (dm_source s)) + mset (contents (consumer_channel 0 s))"

definition flow_inv :: "('ch \<Rightarrow> packet list) \<Rightarrow> ('ch, 'cc) daemon \<Rightarrow> bool" where
  "flow_inv contents s \<longleftrightarrow>
     dm_router s \<noteq> []
     \<and> (dm_held s \<noteq> None \<longrightarrow> ig_running (dm_igate s))
     \<and> mset (map snd (dm_seen s)) \<subseteq># known_packets s
     \<and> (ig_running (dm_igate s) \<longrightarrow>
          known_packets s = on_the_way contents s + mset (map snd (dm_seen s)) + mset (dm_lost s))"

lemma mset_concat_update:
  "i < length xs \<Longrightarrow> mset (concat (map f (xs[i := y]))) + mset (f (xs ! i)) = mset (concat (map f xs)) + mset (f y)"
  by (induction xs arbitrary: i) (auto simp: nth_Cons' add_ac split: nat.splits)

lemma flow_inv_same:
  assumes "flow_inv contents s"
    and "dm_radios s' = dm_radios s" "server_heard s' = server_heard s" "dm_source s' = dm_source s"
    and "dm_router s' = dm_router s" "ig_running (dm_igate s') = ig_running (dm_igate s)"
    and "dm_held s' = dm_held s \<or> dm_held s' = None" "dm_seen s' = dm_seen s" "dm_lost s' = dm_lost s"
  shows "flow_inv contents s'"
  using assms
  by (auto simp: flow_inv_def known_packets_def on_the_way_def daemon_heard_def in_outboxes_def consumer_channel_def)

lemma put_line_same:
  assumes "put_line now l s = Some s'"
  shows "dm_radios s' = dm_radios s" "server_heard s' = server_heard s" "dm_source s' = dm_source s"
    "dm_router s' = dm_router s" "dm_igate s' = dm_igate s" "dm_held s' = dm_held s"
    "dm_seen s' = dm_seen s" "dm_lost s' = dm_lost s" "dm_sent s' = dm_sent s @ [l]"
  using put_lineD [OF assms] by (auto simp: server_heard_def split: if_splits)

lemma client_after_server: "server_heard (client_after c a s) = delivered a"
  by (simp add: server_heard_def client_after_def)

lemma client_after_same [simp]:
  "dm_radios (client_after c a s) = dm_radios s" "dm_source (client_after c a s) = dm_source s"
  "dm_router (client_after c a s) = dm_router s" "ig_running (dm_igate (client_after c a s)) = ig_running (dm_igate s)"
  "dm_held (client_after c a s) = dm_held s" "dm_seen (client_after c a s) = dm_seen s"
  "dm_lost (client_after c a s) = dm_lost s" "dm_sent (client_after c a s) = dm_sent s"
  by (simp_all add: client_after_def)

text \<open>Packets that become known and on the way at once.\<close>

lemma flow_inv_more:
  assumes "flow_inv contents s"
    and "known_packets s' = known_packets s + m" "on_the_way contents s' = on_the_way contents s + m"
    and "dm_router s' \<noteq> []" "ig_running (dm_igate s') = ig_running (dm_igate s)"
    and "dm_held s' = dm_held s" "dm_seen s' = dm_seen s" "dm_lost s' = dm_lost s"
  shows "flow_inv contents s'"
  using assms subset_mset.add_increasing2 [of m "mset (map snd (dm_seen s))" "known_packets s"]
  by (auto simp: flow_inv_def)

text \<open>What a step of an interface changes: the packets it has decoded are known and in its hands; a packet sent is no longer
  in its hands.\<close>

lemma radio_step_sums:
  assumes "i < length (dm_radios s)" "dm_radios s ! i = \<lparr>rd_task = r, rd_outbox = []\<rparr>" "radio_step out now r cmds r' cmds'"
    and s': "s' = s\<lparr>dm_radios := (dm_radios s)[i :=
      \<lparr>rd_task = r', rd_outbox = drop (length (radio_heard r)) (radio_heard r')\<rparr>], dm_registry := reg\<rparr>"
  shows "\<exists>ps. known_packets s' = known_packets s + mset ps \<and> on_the_way contents s' = on_the_way contents s + mset ps"
proof -
  obtain ps where ps: "radio_heard r' = radio_heard r @ ps" using radio_step_heard [OF assms(3)] by blast
  let ?r = "\<lparr>rd_task = r', rd_outbox = ps\<rparr>"
  have "mset (concat (map (\<lambda>r. radio_heard (rd_task r)) ((dm_radios s)[i := ?r]))) = mset (daemon_heard s) + mset ps"
    using mset_concat_update [OF assms(1), of "\<lambda>r. radio_heard (rd_task r)" ?r] ps assms(2) by (simp add: daemon_heard_def)
  moreover have "mset (concat (map rd_outbox ((dm_radios s)[i := ?r]))) = mset (in_outboxes s) + mset ps"
    using mset_concat_update [OF assms(1), of rd_outbox ?r] assms(2) by (simp add: in_outboxes_def)
  moreover have "s' = s\<lparr>dm_radios := (dm_radios s)[i := ?r], dm_registry := reg\<rparr>" by (simp add: s' ps)
  ultimately show ?thesis
    by (intro exI [of _ ps])
       (simp add: known_packets_def daemon_heard_def in_outboxes_def on_the_way_def server_heard_def consumer_channel_def)
qed

lemma radio_sends_sums:
  assumes "i < length (dm_radios s)" "dm_radios s ! i = \<lparr>rd_task = r, rd_outbox = p # ps\<rparr>"
    and "contents ch = contents (dm_source s) @ [p]"
    and s': "s' = s\<lparr>dm_radios := (dm_radios s)[i := \<lparr>rd_task = r, rd_outbox = ps\<rparr>], dm_source := ch\<rparr>"
  shows "known_packets s' = known_packets s" "on_the_way contents s' = on_the_way contents s"
proof -
  let ?r = "\<lparr>rd_task = r, rd_outbox = ps\<rparr>"
  have "mset (concat (map (\<lambda>r. radio_heard (rd_task r)) ((dm_radios s)[i := ?r]))) = mset (daemon_heard s)"
    using mset_concat_update [OF assms(1), of "\<lambda>r. radio_heard (rd_task r)" ?r] assms(2) by (simp add: daemon_heard_def)
  moreover have "add_mset p (mset (concat (map rd_outbox ((dm_radios s)[i := ?r])))) = mset (in_outboxes s)"
    using mset_concat_update [OF assms(1), of rd_outbox ?r] assms(2) by (simp add: in_outboxes_def)
  ultimately show "known_packets s' = known_packets s" "on_the_way contents s' = on_the_way contents s"
    using assms(3)
    by (simp_all add: s' known_packets_def daemon_heard_def in_outboxes_def on_the_way_def server_heard_def consumer_channel_def)
qed

lemma channel_fan_out:
  assumes "i < length (dm_router s)" "dm_router s' = fst (fan_out send (dm_router s) p)"
  shows "consumer_channel i s' = fst (send (consumer_channel i s) p)"
  using assms by (simp add: consumer_channel_def fan_out_map)

lemma channel_set [simp]:
  "i < length (dm_router s) \<Longrightarrow> consumer_channel i (set_channel i ch s) = ch"
  "i \<noteq> j \<Longrightarrow> consumer_channel i (set_channel j ch s) = consumer_channel i s"
  by (simp_all add: consumer_channel_def set_channel_def)

lemma set_channel_same [simp]:
  "dm_radios (set_channel i ch s) = dm_radios s" "dm_source (set_channel i ch s) = dm_source s"
  "length (dm_router (set_channel i ch s)) = length (dm_router s)" "dm_igate (set_channel i ch s) = dm_igate s"
  "dm_held (set_channel i ch s) = dm_held s" "dm_client (set_channel i ch s) = dm_client s"
  "dm_seen (set_channel i ch s) = dm_seen s" "dm_lost (set_channel i ch s) = dm_lost s" "dm_sent (set_channel i ch s) = dm_sent s"
  by (simp_all add: set_channel_def)

lemma queue_sent: "queue_laws out contents \<Longrightarrow> os_try_send out ch p = (ch', answer)
    \<Longrightarrow> contents ch' = contents ch @ (if answer = SendOk then [p] else [])"
  and queue_received: "queue_laws out contents \<Longrightarrow> os_recv out ch = Some (p, ch') \<Longrightarrow> contents ch = p # contents ch'"
  and queue_new: "queue_laws out contents \<Longrightarrow> contents (os_channel out n) = []"
  and queue_closed: "queue_laws out contents \<Longrightarrow> contents (os_close out ch) = []"
  unfolding queue_laws_def by blast+

lemma router_step_sums:
  assumes laws: "queue_laws out contents" and router: "dm_router s \<noteq> []" and recv: "os_recv out (dm_source s) = Some (p, ch)"
    and s': "s' = s\<lparr>dm_source := ch, dm_router := fst (fan_out (os_try_send out) (dm_router s) p), dm_lost := dm_lost s
      @ (if snd (os_try_send out (consumer_channel 0 s) p) = SendOk then [] else [p])\<rparr>"
  shows "on_the_way contents s' + mset (dm_lost s') = on_the_way contents s + mset (dm_lost s)"
proof -
  have "consumer_channel 0 s' = fst (os_try_send out (consumer_channel 0 s) p)"
    using router by (intro channel_fan_out) (simp_all add: s')
  then have "contents (consumer_channel 0 s') = contents (consumer_channel 0 s)
    @ (if snd (os_try_send out (consumer_channel 0 s) p) = SendOk then [p] else [])"
    using queue_sent [OF laws, of "consumer_channel 0 s" p] by (metis prod.collapse)
  then show ?thesis
    using queue_received [OF laws recv] by (simp add: on_the_way_def in_outboxes_def s')
qed

lemma channel_0_takes:
  assumes laws: "queue_laws out contents" and router: "dm_router s \<noteq> []" and recv: "os_recv out (consumer_channel 0 s) = Some (p, ch)"
    and "dm_radios s' = dm_radios s" "dm_source s' = dm_source s" "dm_router s' = dm_router (set_channel 0 ch s)"
  shows "on_the_way contents s = add_mset p (on_the_way contents s')"
proof -
  have "consumer_channel 0 s' = ch" using router assms(6) by (simp add: consumer_channel_def set_channel_def)
  then show ?thesis
    using queue_received [OF laws recv] assms(4,5) by (simp add: on_the_way_def in_outboxes_def)
qed

lemma way_same:
  assumes "dm_radios s' = dm_radios s" "dm_source s' = dm_source s" "consumer_channel 0 s' = consumer_channel 0 s"
  shows "on_the_way contents s' = on_the_way contents s"
  using assms by (simp add: on_the_way_def in_outboxes_def)

lemma router_step_flow:
  assumes laws: "queue_laws out contents" and inv: "flow_inv contents s" and recv: "os_recv out (dm_source s) = Some (p, ch)"
  shows "flow_inv contents (s\<lparr>dm_source := ch, dm_router := fst (fan_out (os_try_send out) (dm_router s) p),
    dm_lost := dm_lost s @ (if snd (os_try_send out (consumer_channel 0 s) p) = SendOk then [] else [p])\<rparr>)"
    (is "flow_inv contents ?s")
proof -
  have router: "dm_router s \<noteq> []" using inv by (simp add: flow_inv_def)
  have "on_the_way contents ?s + mset (dm_lost ?s) = on_the_way contents s + mset (dm_lost s)"
    by (rule router_step_sums [OF laws router recv refl])
  moreover have "known_packets ?s = known_packets s"
    by (simp add: known_packets_def daemon_heard_def server_heard_def)
  moreover have "dm_router ?s \<noteq> []" using router by (simp add: fan_out_map)
  ultimately show ?thesis using inv by (auto simp: flow_inv_def ac_simps)
qed

lemma igate_takes_flow:
  assumes laws: "queue_laws out contents" and inv: "flow_inv contents s" and recv: "os_recv out (consumer_channel 0 s) = Some (p, ch)"
    and run: "ig_running (dm_igate s)" "ig_running t"
  shows "flow_inv contents ((set_channel 0 ch s)\<lparr>dm_igate := t, dm_held := h, dm_seen := dm_seen s @ [(now, p)]\<rparr>)"
    (is "flow_inv contents ?s")
proof -
  have router: "dm_router s \<noteq> []" using inv by (simp add: flow_inv_def)
  have "on_the_way contents s = add_mset p (on_the_way contents ?s)"
    by (rule channel_0_takes [OF laws router recv]) simp_all
  moreover have "known_packets ?s = known_packets s"
    by (simp add: known_packets_def daemon_heard_def server_heard_def)
  moreover have "known_packets s = on_the_way contents s + mset (map snd (dm_seen s)) + mset (dm_lost s)"
    using inv run by (simp add: flow_inv_def)
  ultimately have known: "known_packets ?s = on_the_way contents ?s + mset (map snd (dm_seen ?s)) + mset (dm_lost ?s)"
    by (simp add: ac_simps)
  then have "mset (map snd (dm_seen ?s)) \<subseteq># known_packets ?s" by (simp add: mset_subset_eq_add_left ac_simps)
  moreover have "dm_router ?s \<noteq> []" using router by (simp add: set_channel_def)
  ultimately show ?thesis using known run by (simp add: flow_inv_def)
qed

lemma daemon_step_flow:
  assumes laws: "queue_laws out contents" and "daemon_step out cl cfg s s'" "flow_inv contents s"
  shows "flow_inv contents s'"
  using assms(2,3)
proof (induction rule: daemon_step.induct)
  case (RadioStep i s r now r' ch)
  let ?s = "s\<lparr>dm_radios := (dm_radios s)[i := \<lparr>rd_task = r', rd_outbox = drop (length (radio_heard r)) (radio_heard r')\<rparr>],
    dm_registry := (dm_registry s)[i := (dm_registry s ! i)\<lparr>ih_cmd_tx := ch\<rparr>]\<rparr>"
  from radio_step_sums [OF RadioStep(1-3) refl, of "dm_registry ?s" contents] obtain ps where
    "known_packets ?s = known_packets s + mset ps" "on_the_way contents ?s = on_the_way contents s + mset ps" by auto
  from flow_inv_more [OF RadioStep(4) this] RadioStep(4) show ?case by (simp add: flow_inv_def)
next
  case (RadioSends i s r p ps ch)
  have "contents ch = contents (dm_source s) @ [p]" using queue_sent [OF laws RadioSends(3)] by simp
  note sums = radio_sends_sums [OF RadioSends(1,2) this refl]
  have "dm_router s \<noteq> []" using RadioSends(4) by (simp add: flow_inv_def)
  then show ?case by (intro flow_inv_more [OF RadioSends(4), of _ "{#}"]) (simp_all only: sums add_0_right, simp_all)
next
  case (RouterStep s p ch)
  show ?case by (rule router_step_flow [OF laws RouterStep(2,1)])
next
  case (IgateTakes s p ch now t)
  have "ig_running t" using igate_step_line [OF IgateTakes(4)] IgateTakes(1) by simp
  then show ?case by (rule igate_takes_flow [OF laws IgateTakes(5,3,1)])
next
  case (IgateSends s t p l now s')
  have "flow_inv contents s'"
    by (rule flow_inv_same [OF IgateSends(3)]) (use put_line_same [OF IgateSends(2)] in simp_all)
  then show ?case by (rule flow_inv_same) (simp_all add: server_heard_def)
next
  case (IgateRefused s t p l)
  then show ?case by (auto simp: flow_inv_def known_packets_def daemon_heard_def server_heard_def set_channel_def)
next
  case (DashboardStep s p ch d now epoch d')
  let ?s = "(set_channel 1 ch s)\<lparr>dm_igate := (dm_igate s)\<lparr>ig_dashboard := Some d'\<rparr>\<rparr>"
  have "consumer_channel 0 ?s = consumer_channel 0 s" by (simp add: consumer_channel_def set_channel_def)
  then have "on_the_way contents ?s = on_the_way contents s" by (simp add: on_the_way_def in_outboxes_def)
  moreover have "known_packets ?s = known_packets s" by (simp add: known_packets_def daemon_heard_def server_heard_def)
  moreover have "dm_router ?s \<noteq> []" using DashboardStep(1) by (auto simp: set_channel_def)
  ultimately show ?case using DashboardStep(5) by (simp add: flow_inv_def)
next
  case (ClientActs s c a e now a')
  show ?case
    by (rule flow_inv_same [OF ClientActs(4)])
       (use client_event_delivered [OF ClientActs(2,3)] ClientActs(1) in \<open>simp_all add: client_after_server server_heard_def [of s]\<close>)
next
  case (ClientReads s c a now data answer a')
  show ?case
    by (rule flow_inv_same [OF ClientReads(4)])
       (use read_done_delivered [OF ClientReads(3)] ClientReads(1,2) in \<open>simp_all add: client_after_server server_heard_def [of s]\<close>)
next
  case (ClientReceives s c a now data p ch answer a')
  let ?s = "(client_after c a' s)\<lparr>dm_source := ch\<rparr>"
  let ?m = "if answer = SendOk then {#p#} else {#}"
  have "client_answer answer = Delivered \<longleftrightarrow> answer = SendOk" by (cases answer) simp_all
  then have "server_heard ?s = server_heard s @ (if answer = SendOk then [p] else [])"
    using read_done_delivered [OF ClientReceives(4)] ClientReceives(1,2)
    by (simp add: server_heard_def client_after_def)
  then have known: "known_packets ?s = known_packets s + ?m" by (simp add: known_packets_def daemon_heard_def)
  have way: "on_the_way contents ?s = on_the_way contents s + ?m"
    using queue_sent [OF laws ClientReceives(3)] by (simp add: on_the_way_def in_outboxes_def consumer_channel_def)
  have "dm_router s \<noteq> []" using ClientReceives(5) by (simp add: flow_inv_def)
  then show ?case by (intro flow_inv_more [OF ClientReceives(5) known way]) simp_all
next
  case (BeaconTick s fs sh hash now ls ok scheduler)
  show ?case by (rule flow_inv_same [OF BeaconTick(4)]) (simp_all add: server_heard_def)
next
  case (BeaconSends s l ls now s')
  have "flow_inv contents s'"
    by (rule flow_inv_same [OF BeaconSends(3)]) (use put_line_same [OF BeaconSends(2)] in simp_all)
  then show ?case by (rule flow_inv_same) (simp_all add: server_heard_def)
next
  case (BeaconRefused s)
  show ?case by (rule flow_inv_same [OF BeaconRefused(3)]) (simp_all add: server_heard_def)
next
  case (StatisticsTick tick now s m d)
  show ?case by (rule flow_inv_same [OF StatisticsTick(3)]) (simp_all add: server_heard_def)
next
  case (Signals s)
  show ?case by (rule flow_inv_same [OF Signals(2)]) (simp_all add: server_heard_def)
qed

text \<open>The iGate task: the lines sent for packets are the lines gated from the packets seen, in order, up to the one held.\<close>

definition gate_inv :: "string \<Rightarrow> ('ch, 'cc) daemon \<Rightarrow> bool" where
  "gate_inv gate_call s \<longleftrightarrow>
     (\<exists>rest. List.map_filter (gated_entry gate_call) (dm_seen s) = List.map_filter radio_line (dm_sent s) @ rest
        \<and> (ig_running (dm_igate s) \<longrightarrow> rest = (case dm_held s of None \<Rightarrow> [] | Some e \<Rightarrow> [e]))
        \<and> (dm_held s \<noteq> None \<longrightarrow> ig_running (dm_igate s)))"

lemma map_filter_snoc: "List.map_filter f (xs @ [x]) = List.map_filter f xs @ (case f x of None \<Rightarrow> [] | Some y \<Rightarrow> [y])"
  by (simp add: List.map_filter_def split: option.split)

lemma gate_inv_same:
  assumes "gate_inv gate_call s" "dm_seen s' = dm_seen s"
    and "List.map_filter radio_line (dm_sent s') = List.map_filter radio_line (dm_sent s)"
    and "ig_running (dm_igate s') = ig_running (dm_igate s)" "dm_held s' = dm_held s"
  shows "gate_inv gate_call s'"
  using assms by (simp add: gate_inv_def)

lemma igate_takes_gate:
  assumes "gate_inv gate_call s" "ig_running (dm_igate s)" "dm_held s = None"
    and "igate_step gate_call now True p (dm_igate s) = Some t"
    and "dm_seen s' = dm_seen s @ [(now, p)]" "dm_sent s' = dm_sent s" "dm_igate s' = t"
    and "dm_held s' = (if ig_sent t = ig_sent (dm_igate s) then None else Some (now, p, last (ig_sent t)))"
  shows "gate_inv gate_call s'"
proof -
  have "List.map_filter (gated_entry gate_call) (dm_seen s) = List.map_filter radio_line (dm_sent s)"
    using assms(1-3) by (simp add: gate_inv_def)
  moreover have "ig_running t" "dm_held s' = gated_entry gate_call (now, p)"
    using igate_step_line [OF assms(4)] assms(2,8) by (auto simp: gated_entry_def split: option.splits)
  ultimately show ?thesis using assms(5-7) by (simp add: gate_inv_def map_filter_snoc)
qed

lemma daemon_step_gate:
  assumes "daemon_step out cl cfg s s'" "gate_inv (cfg_mycall cfg) s"
  shows "gate_inv (cfg_mycall cfg) s'"
  using assms
proof (induction rule: daemon_step.induct)
  case (IgateTakes s p ch now t)
  show ?case by (rule igate_takes_gate [OF IgateTakes(5,1,2,4)]) simp_all
next
  case (IgateSends s t p l now s')
  then show ?case
    using put_line_same [OF IgateSends(2)] by (auto simp: gate_inv_def map_filter_snoc)
next
  case (IgateRefused s t p l)
  then show ?case by (auto simp: gate_inv_def)
next
  case (ClientActs s c a e now a')
  show ?case by (rule gate_inv_same [OF ClientActs(4)]) simp_all
next
  case (ClientReads s c a now data answer a')
  show ?case by (rule gate_inv_same [OF ClientReads(4)]) simp_all
next
  case (ClientReceives s c a now data p ch answer a')
  show ?case by (rule gate_inv_same [OF ClientReceives(5)]) simp_all
next
  case (BeaconSends s l ls now s')
  show ?case
    by (rule gate_inv_same [OF BeaconSends(3)]) (use put_line_same [OF BeaconSends(2)] in \<open>simp_all add: map_filter_snoc\<close>)
qed (simp_all add: gate_inv_def)

text \<open>Where packets come from: those of an interface were decoded by it, and no channel holds one that is not known.\<close>

definition decoded_inv :: "('ch, 'cc) daemon \<Rightarrow> bool" where
  "decoded_inv s \<longleftrightarrow> (\<forall>r\<in>set (dm_radios s). \<forall>p\<in>set (radio_heard (rd_task r)). decoded_by (radio_metadata (rd_task r)) p)"

lemma daemon_step_decoded:
  assumes "daemon_step out cl cfg s s'" "decoded_inv s"
  shows "decoded_inv s'"
  using assms
proof (induction rule: daemon_step.induct)
  case (RadioStep i s r now r' ch)
  have "\<forall>p\<in>set (radio_heard r). decoded_by (radio_metadata r) p"
    using RadioStep(1,2,4) nth_mem unfolding decoded_inv_def by fastforce
  then have "\<forall>p\<in>set (radio_heard r'). decoded_by (radio_metadata r') p"
    using radio_step_heard [OF RadioStep(3)] by auto
  then show ?case
    using RadioStep(4) set_update_subset_insert [of "dm_radios s" i] by (fastforce simp: decoded_inv_def)
next
  case (RadioSends i s r p ps ch)
  have "\<forall>p\<in>set (radio_heard r). decoded_by (radio_metadata r) p"
    using RadioSends(1,2,4) nth_mem unfolding decoded_inv_def by fastforce
  then show ?case
    using RadioSends(4) set_update_subset_insert [of "dm_radios s" i] by (fastforce simp: decoded_inv_def)
next
  case (IgateSends s t p l now s')
  then show ?case using put_line_same [OF IgateSends(2)] by (simp add: decoded_inv_def)
next
  case (BeaconSends s l ls now s')
  then show ?case using put_line_same [OF BeaconSends(2)] by (simp add: decoded_inv_def)
qed (simp_all add: decoded_inv_def)

definition silent_inv :: "('cc \<Rightarrow> interface_command list) \<Rightarrow> ('ch, 'cc) daemon \<Rightarrow> bool" where
  "silent_inv commands s \<longleftrightarrow>
     length (dm_registry s) = length (dm_radios s)
     \<and> (\<forall>r\<in>set (dm_radios s). \<forall>k\<in>set (radio_loops (rd_task r)). kl_written k = [])
     \<and> (\<forall>h\<in>set (dm_registry s). no_transmit (commands (ih_cmd_tx h)))"

lemma silent_inv_same:
  "silent_inv commands s \<Longrightarrow> dm_radios s' = dm_radios s \<Longrightarrow> dm_registry s' = dm_registry s \<Longrightarrow> silent_inv commands s'"
  by (simp add: silent_inv_def)

lemma in_update: "x \<in> set (xs[i := y]) \<Longrightarrow> x = y \<or> x \<in> set xs"
  using set_update_subset_insert [of xs i y] by blast

lemma daemon_step_silent:
  assumes laws: "command_laws out commands" and "daemon_step out cl cfg s s'" "silent_inv commands s"
  shows "silent_inv commands s'"
  using assms(2,3)
proof (induction rule: daemon_step.induct)
  case (RadioStep i s r now r' ch)
  have "\<forall>k\<in>set (radio_loops r). kl_written k = []" "no_transmit (commands (ih_cmd_tx (dm_registry s ! i)))"
    using RadioStep(1,2,4) nth_mem [of i "dm_radios s"] by (auto simp: silent_inv_def)
  from radio_step_silent [OF laws RadioStep(3) this] RadioStep(4) show ?case
    by (auto simp: silent_inv_def dest!: in_update)
next
  case (RadioSends i s r p ps ch)
  have "\<forall>k\<in>set (radio_loops r). kl_written k = []"
    using RadioSends(1,2,4) nth_mem [of i "dm_radios s"] by (auto simp: silent_inv_def)
  then show ?case using RadioSends(4) by (auto simp: silent_inv_def dest!: in_update)
next
  case (IgateSends s t p l now s')
  then show ?case using put_lineD [OF IgateSends(2)] by (auto simp: silent_inv_def)
next
  case (BeaconSends s l ls now s')
  then show ?case using put_lineD [OF BeaconSends(2)] by (auto simp: silent_inv_def)
next
  case (Signals s)
  have "no_transmit (commands (fst (os_command_send out ch Shutdown)))" if "no_transmit (commands ch)" for ch
  proof -
    obtain ch' ok where send: "os_command_send out ch Shutdown = (ch', ok)" by fastforce
    then have "commands ch' = commands ch @ (if ok then [Shutdown] else [])" using laws by (simp add: command_laws_def)
    then show ?thesis using that send by (auto simp: no_transmit_def)
  qed
  then show ?case using Signals(2) by (auto simp: silent_inv_def shutdown_all_every)
qed (simp_all add: silent_inv_def set_channel_def client_after_def)

definition origin_inv :: "('ch \<Rightarrow> packet list) \<Rightarrow> ('ch, 'cc) daemon \<Rightarrow> bool" where
  "origin_inv contents s \<longleftrightarrow>
     set (in_outboxes s) \<subseteq> set_mset (known_packets s) \<and> set (contents (dm_source s)) \<subseteq> set_mset (known_packets s)
     \<and> (\<forall>i<length (dm_router s). set (contents (consumer_channel i s)) \<subseteq> set_mset (known_packets s))"

lemma origin_inv_mono:
  assumes "origin_inv contents s" "set_mset (known_packets s) \<subseteq> set_mset (known_packets s')"
    and "set (in_outboxes s') \<subseteq> set (in_outboxes s) \<union> set_mset (known_packets s')"
    and "set (contents (dm_source s')) \<subseteq> set (contents (dm_source s)) \<union> set_mset (known_packets s')"
    and "length (dm_router s') = length (dm_router s)"
    and "\<And>i. i < length (dm_router s) \<Longrightarrow>
      set (contents (consumer_channel i s')) \<subseteq> set (contents (consumer_channel i s)) \<union> set_mset (known_packets s')"
  shows "origin_inv contents s'"
  using assms(1-4,6) unfolding origin_inv_def assms(5) by blast

lemma known_same:
  assumes "dm_radios s' = dm_radios s" "server_heard s' = server_heard s"
  shows "known_packets s' = known_packets s" "in_outboxes s' = in_outboxes s"
  using assms by (simp_all add: known_packets_def daemon_heard_def in_outboxes_def)

lemma origin_inv_same:
  assumes "origin_inv contents s" "dm_radios s' = dm_radios s" "server_heard s' = server_heard s"
    and "dm_source s' = dm_source s" "dm_router s' = dm_router s"
  shows "origin_inv contents s'"
  using assms known_same [OF assms(2,3)] by (simp add: origin_inv_def consumer_channel_def)

lemma origin_inv_channel:
  assumes "origin_inv contents s" "dm_radios s' = dm_radios s" "server_heard s' = server_heard s" "dm_source s' = dm_source s"
    and "dm_router s' = dm_router (set_channel j ch s)" "set (contents ch) \<subseteq> set (contents (consumer_channel j s))"
  shows "origin_inv contents s'"
proof -
  have "set (contents (consumer_channel i s')) \<subseteq> set (contents (consumer_channel i s))" if "i < length (dm_router s)" for i
    using that assms(5,6) by (cases "i = j") (simp_all add: consumer_channel_def set_channel_def)
  then show ?thesis
    using assms known_same [OF assms(2,3)] by (intro origin_inv_mono [OF assms(1)]) (auto simp: set_channel_def)
qed

lemma update_concat:
  "i < length xs \<Longrightarrow> set (concat (map f (xs[i := y]))) \<subseteq> set (concat (map f xs)) \<union> set (f y)"
  using set_update_subset_insert [of xs i y] by fastforce

lemma in_concat: "i < length xs \<Longrightarrow> set (f (xs ! i)) \<subseteq> set (concat (map f xs))"
  by (auto dest: nth_mem)

lemma daemon_step_origin:
  assumes laws: "queue_laws out contents" and "daemon_step out cl cfg s s'" "origin_inv contents s"
  shows "origin_inv contents s'"
  using assms(2,3)
proof (induction rule: daemon_step.induct)
  case (RadioStep i s r now r' ch)
  obtain ps where ps: "radio_heard r' = radio_heard r @ ps" using radio_step_heard [OF RadioStep(3)] by blast
  let ?r = "\<lparr>rd_task = r', rd_outbox = ps\<rparr>"
  let ?s = "s\<lparr>dm_radios := (dm_radios s)[i := ?r], dm_registry := (dm_registry s)[i := (dm_registry s ! i)\<lparr>ih_cmd_tx := ch\<rparr>]\<rparr>"
  have heard: "mset (daemon_heard ?s) = mset (daemon_heard s) + mset ps"
    using mset_concat_update [OF RadioStep(1), of "\<lambda>r. radio_heard (rd_task r)" ?r] ps RadioStep(2) by (simp add: daemon_heard_def)
  then have "set_mset (known_packets ?s) = set_mset (known_packets s) \<union> set ps"
    by (auto simp: known_packets_def server_heard_def)
  moreover have "set (in_outboxes ?s) \<subseteq> set (in_outboxes s) \<union> set ps"
    using update_concat [OF RadioStep(1), of rd_outbox ?r] by (simp add: in_outboxes_def)
  ultimately have "origin_inv contents ?s"
    by (intro origin_inv_mono [OF RadioStep(4)]) (auto simp: consumer_channel_def)
  then show ?case by (simp add: ps)
next
  case (RadioSends i s r p ps ch)
  let ?r = "\<lparr>rd_task = r, rd_outbox = ps\<rparr>"
  let ?s = "s\<lparr>dm_radios := (dm_radios s)[i := ?r], dm_source := ch\<rparr>"
  have "mset (daemon_heard ?s) = mset (daemon_heard s)"
    using mset_concat_update [OF RadioSends(1), of "\<lambda>r. radio_heard (rd_task r)" ?r] RadioSends(2) by (simp add: daemon_heard_def)
  then have known: "known_packets ?s = known_packets s" by (simp add: known_packets_def server_heard_def)
  have out: "insert p (set ps) \<subseteq> set (in_outboxes s)"
    using in_concat [OF RadioSends(1), of rd_outbox] RadioSends(2) by (simp add: in_outboxes_def)
  then have p: "p \<in> set_mset (known_packets s)" using RadioSends(4) by (auto simp: origin_inv_def)
  have "set (in_outboxes ?s) \<subseteq> set (in_outboxes s)"
    using update_concat [OF RadioSends(1), of rd_outbox ?r] out by (auto simp: in_outboxes_def)
  then show ?case
    using queue_sent [OF laws RadioSends(3)] p known
    by (intro origin_inv_mono [OF RadioSends(4)]) (auto simp: consumer_channel_def)
next
  case (RouterStep s p ch)
  let ?s = "s\<lparr>dm_source := ch, dm_router := fst (fan_out (os_try_send out) (dm_router s) p),
    dm_lost := dm_lost s @ (if snd (os_try_send out (consumer_channel 0 s) p) = SendOk then [] else [p])\<rparr>"
  have known: "known_packets ?s = known_packets s" "in_outboxes ?s = in_outboxes s" by (rule known_same; simp add: server_heard_def)+
  have src: "contents (dm_source s) = p # contents ch" by (rule queue_received [OF laws RouterStep(1)])
  then have p: "p \<in> set_mset (known_packets s)" using RouterStep(2) by (auto simp: origin_inv_def)
  have "set (contents (consumer_channel i ?s)) \<subseteq> insert p (set (contents (consumer_channel i s)))" if "i < length (dm_router s)" for i
  proof -
    have "consumer_channel i ?s = fst (os_try_send out (consumer_channel i s) p)"
      by (rule channel_fan_out [OF that]) simp
    then show ?thesis
      using queue_sent [OF laws, of "consumer_channel i s" p "fst (os_try_send out (consumer_channel i s) p)"
        "snd (os_try_send out (consumer_channel i s) p)"] by auto
  qed
  then have ch: "set (contents (consumer_channel i ?s)) \<subseteq> set (contents (consumer_channel i s)) \<union> set_mset (known_packets ?s)"
    if "i < length (dm_router s)" for i
    using that p unfolding known(1) by blast
  have len: "length (dm_router ?s) = length (dm_router s)" by (simp add: fan_out_map)
  have more: "set_mset (known_packets s) \<subseteq> set_mset (known_packets ?s)"
    "set (in_outboxes ?s) \<subseteq> set (in_outboxes s) \<union> set_mset (known_packets ?s)"
    unfolding known by blast+
  have "set (contents (dm_source ?s)) \<subseteq> set (contents (dm_source s)) \<union> set_mset (known_packets ?s)" using src by auto
  then show ?case by (rule origin_inv_mono [OF RouterStep(2) more _ len ch])
next
  case (IgateTakes s p ch now t)
  show ?case
    by (rule origin_inv_channel [OF IgateTakes(5), of _ 0 ch])
       (use queue_received [OF laws IgateTakes(3)] in \<open>auto simp: server_heard_def\<close>)
next
  case (IgateSends s t p l now s')
  have "origin_inv contents s'"
    by (rule origin_inv_same [OF IgateSends(3)]) (use put_line_same [OF IgateSends(2)] in simp_all)
  then show ?case by (rule origin_inv_same) (simp_all add: server_heard_def)
next
  case (IgateRefused s t p l)
  show ?case
    by (rule origin_inv_channel [OF IgateRefused(3), of _ 0 "os_close out (consumer_channel 0 s)"])
       (use queue_closed [OF laws] in \<open>auto simp: server_heard_def\<close>)
next
  case (DashboardStep s p ch d now epoch d')
  show ?case
    by (rule origin_inv_channel [OF DashboardStep(5), of _ 1 ch])
       (use queue_received [OF laws DashboardStep(2)] in \<open>auto simp: server_heard_def\<close>)
next
  case (ClientActs s c a e now a')
  show ?case
    by (rule origin_inv_same [OF ClientActs(4)])
       (use client_event_delivered [OF ClientActs(2,3)] ClientActs(1) in \<open>simp_all add: client_after_server server_heard_def [of s]\<close>)
next
  case (ClientReads s c a now data answer a')
  show ?case
    by (rule origin_inv_same [OF ClientReads(4)])
       (use read_done_delivered [OF ClientReads(3)] ClientReads(1,2) in \<open>simp_all add: client_after_server server_heard_def [of s]\<close>)
next
  case (ClientReceives s c a now data p ch answer a')
  let ?s = "(client_after c a' s)\<lparr>dm_source := ch\<rparr>"
  have answer: "client_answer answer = Delivered \<longleftrightarrow> answer = SendOk" by (cases answer) simp_all
  then have "server_heard ?s = server_heard s @ (if answer = SendOk then [p] else [])"
    using read_done_delivered [OF ClientReceives(4)] ClientReceives(1,2)
    by (simp add: server_heard_def client_after_def)
  then have known: "set_mset (known_packets ?s) = set_mset (known_packets s) \<union> (if answer = SendOk then {p} else {})"
    by (auto simp: known_packets_def daemon_heard_def)
  show ?case
    using queue_sent [OF laws ClientReceives(3)] known
    by (intro origin_inv_mono [OF ClientReceives(5)]) (auto simp: in_outboxes_def consumer_channel_def)
next
  case (BeaconTick s fs sh hash now ls ok scheduler)
  show ?case by (rule origin_inv_same [OF BeaconTick(4)]) (simp_all add: server_heard_def)
next
  case (BeaconSends s l ls now s')
  have "origin_inv contents s'"
    by (rule origin_inv_same [OF BeaconSends(3)]) (use put_line_same [OF BeaconSends(2)] in simp_all)
  then show ?case by (rule origin_inv_same) (simp_all add: server_heard_def)
next
  case (BeaconRefused s)
  show ?case by (rule origin_inv_same [OF BeaconRefused(3)]) (simp_all add: server_heard_def)
next
  case (StatisticsTick tick now s m d)
  show ?case by (rule origin_inv_same [OF StatisticsTick(3)]) (simp_all add: server_heard_def)
next
  case (Signals s)
  show ?case by (rule origin_inv_same [OF Signals(2)]) (simp_all add: server_heard_def)
qed

text \<open>The beacons: every line due or sent is the text of one that the scheduler holds.\<close>

definition beacon_line :: "beacon_scheduler \<Rightarrow> string \<Rightarrow> bool" where
  "beacon_line sch l \<longleftrightarrow> (\<exists>b\<in>set (bs_beacons sch). \<exists>fs sh. bn_mode (sb_beacon b) \<noteq> Radio
     \<and> format_beacon_content fs sh (bn_content (sb_beacon b)) (sb_mycall b) (bn_via (sb_beacon b)) = Some (Some l))"

definition beacon_inv :: "('ch, 'cc) daemon \<Rightarrow> bool" where
  "beacon_inv s \<longleftrightarrow> (\<forall>l\<in>set (dm_due s). beacon_line (dm_scheduler s) l)
     \<and> (\<forall>l. FromBeacon l \<in> set (dm_sent s) \<longrightarrow> beacon_line (dm_scheduler s) l)"

lemma send_all_beacons: "fst (send_beacons (\<lambda>i. True) i fs) = map fst (filter (\<lambda>(t, mode, tr). mode \<noteq> Radio) fs)"
  by (induction "\<lambda>i::nat. True" i fs rule: send_beacons.induct) (auto split: beacon_mode.split prod.splits)

lemma poll_loop_fired:
  "poll_loop fs sh hash now counter bs = Some (rs, bs', counter') \<Longrightarrow> (t, mode, tr) \<in> set rs \<Longrightarrow>
     \<exists>b\<in>set bs. mode = bn_mode (sb_beacon b)
       \<and> format_beacon_content fs sh (bn_content (sb_beacon b)) (sb_mycall b) (bn_via (sb_beacon b)) = Some (Some t)"
proof (induction bs arbitrary: counter rs bs' counter')
  case (Cons b bs)
  show ?case
  proof (cases "now < next_fire b")
    case True
    with Cons.prems(1) obtain bs2 where "poll_loop fs sh hash now counter bs = Some (rs, bs2, counter')"
      by (auto simp: bind_eq_Some_conv)
    then show ?thesis using Cons.IH Cons.prems(2) by fastforce
  next
    case False
    with Cons.prems(1) obtain formatted rs2 bs2 where
      f: "format_beacon_content fs sh (bn_content (sb_beacon b)) (sb_mycall b) (bn_via (sb_beacon b)) = Some formatted"
      and rest: "poll_loop fs sh hash now (counter + 1) bs = Some (rs2, bs2, counter')"
      and rs: "rs = (case formatted of Some t \<Rightarrow> [(t, bn_mode (sb_beacon b), bn_transmitter (sb_beacon b))] | None \<Rightarrow> []) @ rs2"
      by (auto simp: bind_eq_Some_conv Let_def)
    then show ?thesis using Cons.IH [OF rest] Cons.prems(2) by (cases formatted) auto
  qed
qed simp

lemma polled_beacon_line:
  assumes "list_all2 (polled now) (bs_beacons sch) (bs_beacons sch')" "beacon_line sch l"
  shows "beacon_line sch' l"
proof -
  obtain i where i: "i < length (bs_beacons sch)" "\<exists>fs sh. bn_mode (sb_beacon (bs_beacons sch ! i)) \<noteq> Radio
     \<and> format_beacon_content fs sh (bn_content (sb_beacon (bs_beacons sch ! i))) (sb_mycall (bs_beacons sch ! i))
         (bn_via (sb_beacon (bs_beacons sch ! i))) = Some (Some l)"
    using assms(2) unfolding beacon_line_def by (metis in_set_conv_nth)
  have "polled now (bs_beacons sch ! i) (bs_beacons sch' ! i)" using list_all2_nthD [OF assms(1) i(1)] .
  then have "sb_beacon (bs_beacons sch' ! i) = sb_beacon (bs_beacons sch ! i)"
    "sb_mycall (bs_beacons sch' ! i) = sb_mycall (bs_beacons sch ! i)"
    by (auto simp: polled_def split: if_splits)
  moreover have "bs_beacons sch' ! i \<in> set (bs_beacons sch')"
    using i(1) list_all2_lengthD [OF assms(1)] by simp
  ultimately show ?thesis using i(2) unfolding beacon_line_def by metis
qed

lemma daemon_step_beacons:
  assumes "daemon_step out cl cfg s s'" "beacon_inv s"
  shows "beacon_inv s'"
  using assms
proof (induction rule: daemon_step.induct)
  case (IgateSends s t p l now s')
  then show ?case using put_lineD [OF IgateSends(2)] by (auto simp: beacon_inv_def)
next
  case (BeaconSends s l ls now s')
  then show ?case using put_lineD [OF BeaconSends(2)] by (auto simp: beacon_inv_def)
next
  case (BeaconTick s fs sh hash now ls ok scheduler)
  obtain fired where poll: "poll fs sh hash now (dm_scheduler s) = Some (fired, scheduler)"
    and ls: "ls = fst (send_beacons (\<lambda>i. True) 0 fired)"
  proof -
    from BeaconTick(3) obtain fired where "poll fs sh hash now (dm_scheduler s) = Some (fired, scheduler)"
      and "(ls, ok) = send_beacons (\<lambda>i. True) 0 fired"
      by (auto simp: beacon_tick_def Let_def bind_eq_Some_conv split: prod.splits) (metis surj_pair)
    then show thesis using that by (metis fst_conv)
  qed
  have kept: "beacon_line (dm_scheduler s) l \<Longrightarrow> beacon_line scheduler l" for l
    by (rule polled_beacon_line [OF poll_polled [OF poll]])
  have "beacon_line (dm_scheduler s) l" if mem: "l \<in> set ls" for l
  proof -
    obtain mode tr where l: "(l, mode, tr) \<in> set fired" "mode \<noteq> Radio"
      using mem by (auto simp: ls send_all_beacons)
    obtain bs counter where "poll_loop fs sh hash now (fire_counter (dm_scheduler s)) (bs_beacons (dm_scheduler s)) = Some (fired, bs, counter)"
      using poll by (auto simp: poll_def bind_eq_Some_conv)
    from poll_loop_fired [OF this l(1)] l(2) show ?thesis unfolding beacon_line_def by blast
  qed
  then show ?case using kept BeaconTick(4) by (simp add: beacon_inv_def)
qed (simp_all add: beacon_inv_def client_after_def set_channel_def)

section \<open>Reachable states\<close>

text \<open>The invariants together, for a channel that is a queue.\<close>

definition daemon_inv :: "('ch \<Rightarrow> packet list) \<Rightarrow> config \<Rightarrow> ('ch, 'cc) daemon \<Rightarrow> bool" where
  "daemon_inv contents cfg s \<longleftrightarrow> client_inv s \<and> flow_inv contents s \<and> gate_inv (cfg_mycall cfg) s
     \<and> decoded_inv s \<and> origin_inv contents s \<and> beacon_inv s"

lemma radio_start_empty:
  "radio_heard (radio_start out now sp) = []" "\<forall>k\<in>set (radio_loops (radio_start out now sp)). kl_written k = []"
  by (cases sp; simp add: serial_run_def kiss_loop_start_def tcp_start_def)+

lemma router_of_consumers:
  "foldl (\<lambda>r name. add_consumer channel r name n) r names = r @ map (\<lambda>name. \<lparr>con_name = name, con_tx = channel n\<rparr>) names"
  by (induction names arbitrary: r) (simp_all add: add_consumer_def)

lemma registry_of_spawned:
  "foldl (\<lambda>r sp. register_handle r (handle_new (spawned_metadata sp) ch)) r sps
    = r @ map (\<lambda>sp. \<lparr>ih_metadata = spawned_metadata sp, ih_cmd_tx = ch\<rparr>) sps"
  by (induction sps arbitrary: r) (simp_all add: register_handle_def handle_new_def)

lemma daemon_start_silent:
  assumes "command_laws out commands" "daemon_start out now hash clock cl cfg = Some s"
  shows "silent_inv commands s"
proof -
  obtain sps where "dm_radios s = map (\<lambda>sp. \<lparr>rd_task = radio_start out now sp, rd_outbox = []\<rparr>) sps"
    "dm_registry s = map (\<lambda>sp. \<lparr>ih_metadata = spawned_metadata sp, ih_cmd_tx = os_command_channel out CMD_CHANNEL_SIZE\<rparr>) sps"
    using assms(2) by (auto simp: daemon_start_def Let_def bind_eq_Some_conv registry_of_spawned registry_new_def)
  then show ?thesis
    using radio_start_empty(2) assms(1) by (auto simp: silent_inv_def no_transmit_def command_laws_def)
qed

lemma daemon_start_inv:
  assumes "queue_laws out contents" "daemon_start out now hash clock cl cfg = Some s"
  shows "daemon_inv contents cfg s"
proof -
  obtain scheduler registry where s: "s = \<lparr>dm_radios = map (\<lambda>sp. \<lparr>rd_task = radio_start out now sp, rd_outbox = []\<rparr>)
      (sys_spawned (async_start now (cli_log_aprsis cl) cfg)),
    dm_registry = registry, dm_signalled = False, dm_source = os_channel out ROUTER_CHANNEL_SIZE,
    dm_router = map (\<lambda>name. \<lparr>con_name = name, con_tx = os_channel out CONSUMER_CHANNEL_SIZE\<rparr>)
      (''igate'' # (if cfg_web cfg \<noteq> None then [''dashboard''] else [])),
    dm_igate = \<lparr>ig_monitor = sys_monitor (async_start now (cli_log_aprsis cl) cfg),
      ig_dashboard = sys_dashboard (async_start now (cli_log_aprsis cl) cfg), ig_sent = [], ig_running = True\<rparr>,
    dm_held = None, dm_client = map_option (\<lambda>c. (c, aprsis_start c)) (sys_client (async_start now (cli_log_aprsis cl) cfg)),
    dm_scheduler = scheduler, dm_beaconing = True, dm_due = [], dm_sent = [], dm_seen = [], dm_lost = []\<rparr>"
    using assms(2) by (auto simp: daemon_start_def Let_def bind_eq_Some_conv router_of_consumers router_new_def async_start_def)
  have heard: "daemon_heard s = []" "server_heard s = []"
    by (auto simp: s daemon_heard_def server_heard_def radio_start_empty aprsis_start_def split: option.split)
  then have known: "known_packets s = {#}" by (simp add: known_packets_def)
  have outboxes: "in_outboxes s = []" by (simp add: s in_outboxes_def)
  have source: "contents (dm_source s) = []" by (simp add: s queue_new [OF assms(1)])
  have channels: "contents (consumer_channel i s) = []" if "i < length (dm_router s)" for i
    using that queue_new [OF assms(1)] by (simp add: s consumer_channel_def nth_Cons' split: if_splits)
  have router: "dm_router s \<noteq> []" by (simp add: s)
  then have "on_the_way contents s = {#}" using channels [of 0] outboxes source by (simp add: on_the_way_def)
  then have "flow_inv contents s" using known router by (simp add: flow_inv_def s)
  moreover have "client_inv s" using aprsis_inv_start by (auto simp: client_inv_def s aprsis_start_def)
  moreover have "gate_inv (cfg_mycall cfg) s" by (simp add: gate_inv_def s List.map_filter_def)
  moreover have "decoded_inv s"
    by (auto simp: decoded_inv_def s radio_start_empty(1) simp del: radio_heard_simps)
  moreover have "origin_inv contents s" using outboxes source channels by (simp add: origin_inv_def)
  moreover have "beacon_inv s" by (simp add: beacon_inv_def s)
  ultimately show ?thesis by (simp add: daemon_inv_def)
qed

lemma daemon_reach_inv:
  assumes "queue_laws out contents" "daemon_reach out cl cfg s"
  shows "daemon_inv contents cfg s"
  using assms(2)
proof (induction rule: daemon_reach.induct)
  case (Starts now hash clock s)
  then show ?case by (rule daemon_start_inv [OF assms(1)])
next
  case (Goes s s')
  note step = Goes(2)
  from Goes(3) show ?case
    using daemon_step_client [OF step] daemon_step_flow [OF assms(1) step] daemon_step_gate [OF step] daemon_step_decoded [OF step]
      daemon_step_origin [OF assms(1) step] daemon_step_beacons [OF step]
    unfolding daemon_inv_def by simp
qed

end
