(* ===== verification/Daemon_Properties.thy ===== *)
theory Daemon_Properties
  imports Daemon_Invariants
begin

text \<open>
  What the daemon of the theory \<open>Daemon\<close> as a whole guarantees, from the invariants of its reachable states: what can be
  on the connection to the server, where every packet is, what can end the process, and that it never transmits. The witnesses run
  a daemon with one serial interface from its start to a line on the wire.
\<close>

section \<open>From the packets heard to the wire\<close>

lemma subseq_of_map: "subseq xs (map f ys) \<Longrightarrow> \<exists>zs. subseq zs ys \<and> xs = map f zs"
proof (induction ys arbitrary: xs)
  case (Cons y ys)
  show ?case
  proof (cases "subseq xs (map f ys)")
    case True
    then show ?thesis using Cons.IH subseq_Cons' by blast
  next
    case False
    then obtain xs' where xs: "xs = f y # xs'" "subseq xs' (map f ys)"
      using Cons.prems by (cases xs) (auto split: if_splits)
    then obtain zs where "subseq zs ys" "xs' = map f zs" using Cons.IH by blast
    then show ?thesis using xs(1) by (intro exI [of _ "y # zs"]) simp
  qed
qed (auto dest: list_emb_Nil2)

lemma subset_add: "A \<subseteq># B \<Longrightarrow> A \<subseteq># add_mset y B"
  by (metis add_mset_add_single mset_subset_eq_add_left subset_mset.order_trans)

lemma subseq_mset: "subseq xs ys \<Longrightarrow> mset xs \<subseteq># mset ys"
  by (induction rule: list_emb.induct) (simp_all add: subset_add)

lemma subseq_map_filter: "subseq xs ys \<Longrightarrow> subseq (List.map_filter f xs) (List.map_filter f ys)"
  unfolding List.map_filter_def by (intro subseq_map subseq_filter)

lemma gated_packets:
  "mset (map (\<lambda>(t, p, l). p) (List.map_filter (gated_entry gate_call) tps))
    \<subseteq># filter_mset (\<lambda>p. source_interface p \<noteq> ''APRSIS'') (mset (map snd tps))"
proof (induction tps)
  case (Cons tp tps)
  obtain t p where tp: "tp = (t, p)" by (cases tp)
  show ?case
  proof (cases "gated_line gate_call t p")
    case None
    then show ?thesis
      using Cons.IH by (simp add: tp gated_entry_def List.map_filter_def subset_add)
  next
    case (Some l)
    then have "source_interface p \<noteq> ''APRSIS''" by (simp add: gated_line_Some)
    then show ?thesis using Cons.IH Some by (simp add: tp gated_entry_def List.map_filter_def)
  qed
qed (simp add: List.map_filter_def)

lemma server_packets:
  assumes "client_inv s" "p \<in> set (server_heard s)"
  shows "\<exists>t l. p = packet_new t l ''APRSIS'' True"
  using assms unfolding server_heard_def client_inv_def by (cases "dm_client s") auto

lemma sent_packets:
  assumes "daemon_inv contents cfg s"
  shows "mset (map (\<lambda>(t, p, l). p) (List.map_filter radio_line (dm_sent s))) \<subseteq># mset (daemon_heard s)"
proof -
  let ?radio = "\<lambda>p. source_interface p \<noteq> ''APRSIS''"
  obtain rest where "List.map_filter (gated_entry (cfg_mycall cfg)) (dm_seen s) = List.map_filter radio_line (dm_sent s) @ rest"
    using assms by (auto simp: daemon_inv_def gate_inv_def)
  then have "mset (map (\<lambda>(t, p, l). p) (List.map_filter radio_line (dm_sent s)))
      \<subseteq># mset (map (\<lambda>(t, p, l). p) (List.map_filter (gated_entry (cfg_mycall cfg)) (dm_seen s)))" by simp
  also have "\<dots> \<subseteq># filter_mset ?radio (mset (map snd (dm_seen s)))" by (rule gated_packets)
  also have "\<dots> \<subseteq># filter_mset ?radio (known_packets s)"
    using assms by (intro multiset_filter_mono) (simp add: daemon_inv_def flow_inv_def)
  also have "filter_mset ?radio (mset (server_heard s)) = {#}"
    using assms server_packets by (fastforce simp: daemon_inv_def)
  then have "filter_mset ?radio (known_packets s) = filter_mset ?radio (mset (daemon_heard s))"
    by (simp add: known_packets_def)
  also have "\<dots> \<subseteq># mset (daemon_heard s)" by simp
  finally show ?thesis .
qed

lemma sent_gated:
  assumes "daemon_inv contents cfg s" "FromRadio t p l \<in> set (dm_sent s)"
  shows "gated_line (cfg_mycall cfg) t p = Some l"
proof -
  have "(t, p, l) \<in> set (List.map_filter radio_line (dm_sent s))"
    using assms(2) by (force simp: List.map_filter_def)
  then have "(t, p, l) \<in> set (List.map_filter (gated_entry (cfg_mycall cfg)) (dm_seen s))"
    using assms(1) by (auto simp: daemon_inv_def gate_inv_def)
  then show ?thesis by (auto simp: List.map_filter_def gated_entry_def)
qed

text \<open>C1: whatever the tasks do and in whatever order, what is on the connection to the server is the login line and lines
  that are each gated from a packet of an interface, never one the server itself sent, or the text of a configured
  beacon, every one framed as one line; and no packet is gated more often than it was heard.\<close>

theorem daemon_wire_safe:
  assumes "queue_laws out contents" "daemon_reach out cl cfg s" "dm_client s = Some (c, a)" "wire a \<noteq> []"
  shows "\<exists>log. wire a = login_line c # map (\<lambda>l. framed (line_text l)) log
    \<and> (\<forall>t p l. FromRadio t p l \<in> set log \<longrightarrow>
         source_interface p \<noteq> ''APRSIS'' \<and> gate_to_aprsis p (cfg_mycall cfg) t = Some (Gated l))
    \<and> mset (map (\<lambda>(t, p, l). p) (List.map_filter radio_line log)) \<subseteq># mset (daemon_heard s)
    \<and> (\<forall>l. FromBeacon l \<in> set log \<longrightarrow> beacon_line (dm_scheduler s) l)"
proof -
  note inv = daemon_reach_inv [OF assms(1,2)]
  then have a: "aprsis_inv c a" "suffix (sent_here a) (written a)" "map line_text (dm_sent s) = taken a @ queue a"
    using assms(3) by (auto simp: daemon_inv_def client_inv_def)
  have "subseq (written a) (taken a)"
    using a(1) subseq_drop_mid [of "written a" "in_hand (as_phase a) @ pending_writes a" "[]" "taken a"]
    by (simp add: aprsis_inv_def)
  then have "subseq (sent_here a) (map line_text (dm_sent s))"
    using a(2,3) by (metis subseq_order.trans suffix_imp_subseq prefix_imp_subseq prefixI)
  then obtain log where log: "subseq log (dm_sent s)" "sent_here a = map line_text log" using subseq_of_map by blast
  have "wire a = login_line c # map framed (sent_here a)" using a(1) assms(4) by (auto simp: aprsis_inv_def)
  then have "wire a = login_line c # map (\<lambda>l. framed (line_text l)) log" by (simp add: log(2))
  moreover have sub: "set log \<subseteq> set (dm_sent s)" using set_mset_mono [OF subseq_mset [OF log(1)]] by simp
  moreover have "mset (map (\<lambda>(t, p, l). p) (List.map_filter radio_line log))
      \<subseteq># mset (map (\<lambda>(t, p, l). p) (List.map_filter radio_line (dm_sent s)))"
    by (intro subseq_mset subseq_map subseq_map_filter log(1))
  ultimately show ?thesis
    using sent_packets [OF inv] sent_gated [OF inv] inv
    by (intro exI [of _ log]) (auto simp: gated_line_Some daemon_inv_def beacon_inv_def intro: subset_mset.order_trans)
qed

section \<open>No packet is lost unseen\<close>

text \<open>C4: while the iGate task runs, every packet that an interface decoded or the client received is at exactly one
  place, with its multiplicity: in the hands of an interface, in the channel of the router, in the channel of the
  task, among the packets it has taken, or among those the router could not give it; and of the packets taken, exactly those its rules allow
  have become lines, in order, the last of them perhaps still held.\<close>

theorem daemon_conserves_packets:
  assumes "queue_laws out contents" "daemon_reach out cl cfg s" "ig_running (dm_igate s)"
  shows "mset (daemon_heard s) + mset (server_heard s)
      = mset (in_outboxes s) + mset (contents (dm_source s)) + mset (contents (consumer_channel 0 s))
        + mset (map snd (dm_seen s)) + mset (dm_lost s)
    \<and> List.map_filter (gated_entry (cfg_mycall cfg)) (dm_seen s)
      = List.map_filter radio_line (dm_sent s) @ (case dm_held s of None \<Rightarrow> [] | Some e \<Rightarrow> [e])"
  using daemon_reach_inv [OF assms(1,2)] assms(3)
  by (auto simp: daemon_inv_def flow_inv_def gate_inv_def known_packets_def on_the_way_def)

section \<open>What ends the daemon, and what it never does\<close>

lemma new_addr_len: "tnc2_addr_len (packet_new now l i b) \<le> length (tnc2 (packet_new now l i b))"
proof (cases "CHR '':'' \<in> set l")
  case True
  then obtain a q where "l = a @ CHR '':'' # q" "CHR '':'' \<notin> set a" by (metis split_list_first)
  then show ?thesis by (simp add: addr_len_colon)
next
  case False
  then show ?thesis by (simp add: addr_len_no_colon)
qed

lemma known_addr_len:
  assumes "daemon_inv contents cfg s" "p \<in># known_packets s"
  shows "tnc2_addr_len p \<le> length (tnc2 p)"
proof (cases "p \<in> set (daemon_heard s)")
  case True
  then obtain r where "decoded_by (radio_metadata r) p"
    using assms(1) by (auto simp: daemon_inv_def decoded_inv_def daemon_heard_def)
  then show ?thesis using frame_addr_len by (auto simp: decoded_by_def)
next
  case False
  then have "p \<in> set (server_heard s)" using assms(2) by (simp add: known_packets_def)
  then show ?thesis using assms(1) server_packets new_addr_len by (metis daemon_inv_def)
qed

text \<open>C13: the iGate and the dashboard task panic on nothing but a packet whose text is not ASCII, which an interface
  decoded or the server sent.\<close>

theorem daemon_aborts_on_non_ascii:
  assumes "queue_laws out contents" "daemon_reach out cl cfg s" "daemon_aborts out cfg s p"
  shows "\<not> all_ascii (tnc2 p) \<and> (p \<in> set (daemon_heard s) \<or> p \<in> set (server_heard s))"
proof -
  note inv = daemon_reach_inv [OF assms(1,2)]
  have known: "p \<in># known_packets s" if "os_recv out (consumer_channel i s) = Some (p, ch)" "i < length (dm_router s)" for i ch
    using inv queue_received [OF assms(1) that(1)] that(2) by (auto simp: daemon_inv_def origin_inv_def)
  have router: "0 < length (dm_router s)" using inv by (simp add: daemon_inv_def flow_inv_def)
  from assms(3) show ?thesis
  proof (cases rule: daemon_aborts.cases)
    case (IgatePanics ch now)
    note p = known [OF IgatePanics(3) router]
    then have "\<not> all_ascii (tnc2 p)" using ascii_packet_total(1) [OF known_addr_len [OF inv p]] IgatePanics(4) by metis
    then show ?thesis using p by (simp add: known_packets_def)
  next
    case (DashboardPanics ch d now epoch)
    note p = known [OF DashboardPanics(2,1)]
    then have "\<not> all_ascii (tnc2 p)" using ascii_packet_total(2) [OF known_addr_len [OF inv p]] DashboardPanics(4) by metis
    then show ?thesis using p by (simp add: known_packets_def)
  qed
qed

text \<open>C15: nothing in the daemon transmits: whatever is configured and whatever happens, no byte is written to an interface.\<close>

theorem daemon_never_transmits:
  assumes "command_laws out commands" "daemon_reach out cl cfg s"
    and "r \<in> set (dm_radios s)" "k \<in> set (radio_loops (rd_task r))"
  shows "kl_written k = []"
proof -
  from assms(2) have "silent_inv commands s"
  proof (induction rule: daemon_reach.induct)
    case (Starts now hash clock s)
    then show ?case by (rule daemon_start_silent [OF assms(1)])
  next
    case (Goes s s')
    show ?case by (rule daemon_step_silent [OF assms(1) Goes(2,3)])
  qed
  then show ?thesis using assms(3,4) by (simp add: silent_inv_def)
qed

section \<open>Witnesses\<close>

text \<open>Channels as bounded lists, channels of commands as lists, and a daemon with one serial interface and two servers.\<close>

definition demo_outside :: "(nat \<times> packet list, interface_command list) outside" where
  "demo_outside = \<lparr>os_channel = (\<lambda>n. (n, [])), os_try_send = bounded_send,
     os_recv = (\<lambda>(n, ps). case ps of [] \<Rightarrow> None | p # ps \<Rightarrow> Some (p, n, ps)),
     os_close = (\<lambda>(n, ps). (0, [])), os_command_channel = (\<lambda>n. []), os_command_send = (\<lambda>cs c. (cs @ [c], True)),
     os_command_recv = (\<lambda>cs. case cs of [] \<Rightarrow> None | c # cs \<Rightarrow> Some (c, cs)), os_serial = (\<lambda>device speed. True)\<rparr>"

lemma demo_laws: "queue_laws demo_outside snd"
  by (auto simp: queue_laws_def demo_outside_def bounded_send_def split: list.splits)

lemma demo_command_laws: "command_laws demo_outside id"
  by (auto simp: command_laws_def demo_outside_def split: list.splits)

definition demo_daemon_config :: config where
  "demo_daemon_config = demo_config\<lparr>cfg_aprsis := Some \<lparr>ac_passcode = 13023, ac_servers = [''a:14580'', ''b:14580''],
     ac_filter = None, ac_heartbeat_timeout = None\<rparr>\<rparr>"

definition demo_cli :: cli where
  "demo_cli = \<lparr>cli_config = ''vaprs.toml'', cli_debug = 0, cli_verbose = False, cli_erlang = False,
     cli_foreground = True, cli_log_aprsis = False\<rparr>"

definition demo_serial :: serial_interface where
  "demo_serial = serial_new ''N0CALL'' ''/dev/ttyS0'' 9600 ProtoKiss True 1"

definition demo_server :: aprsis_client where
  "demo_server = client_new ''N0CALL'' \<lparr>ac_passcode = 13023, ac_servers = [''a:14580'', ''b:14580''],
     ac_filter = None, ac_heartbeat_timeout = None\<rparr> False"

text \<open>A state of it, by its parts.\<close>

definition demo_state ::
  "kiss_loop \<Rightarrow> packet list \<Rightarrow> packet list \<Rightarrow> packet list \<Rightarrow> igate_task \<Rightarrow> (instant \<times> packet \<times> string) option
     \<Rightarrow> aprsis_state \<Rightarrow> sent_line list \<Rightarrow> (instant \<times> packet) list \<Rightarrow> (nat \<times> packet list, interface_command list) daemon" where
  "demo_state k outbox source channel t held a sent seen =
     \<lparr>dm_radios = [\<lparr>rd_task = SerialTask demo_serial (Some k), rd_outbox = outbox\<rparr>],
      dm_registry = [\<lparr>ih_metadata = si_metadata demo_serial, ih_cmd_tx = []\<rparr>], dm_signalled = False, dm_source = (256, source),
      dm_router = [\<lparr>con_name = ''igate'', con_tx = (128, channel)\<rparr>], dm_igate = t, dm_held = held,
      dm_client = Some (demo_server, a), dm_scheduler = scheduler_new, dm_beaconing = True, dm_due = [],
      dm_sent = sent, dm_seen = seen, dm_lost = []\<rparr>"

abbreviation demo_reach :: "(nat \<times> packet list, interface_command list) daemon \<Rightarrow> bool" where
  "demo_reach \<equiv> daemon_reach demo_outside demo_cli demo_daemon_config"

abbreviation demo_igate :: igate_task where
  "demo_igate \<equiv> \<lparr>ig_monitor = sys_monitor (async_start 0 False demo_daemon_config), ig_dashboard = None,
     ig_sent = [], ig_running = True\<rparr>"

lemma demo_starts: "demo_reach (demo_state (kiss_loop_start 0) [] [] [] demo_igate None (aprsis_start demo_server) [] [])"
proof -
  have "daemon_start demo_outside 0 (\<lambda>_. 0) (\<lambda>_. 0) demo_cli demo_daemon_config
      = Some (demo_state (kiss_loop_start 0) [] [] [] demo_igate None (aprsis_start demo_server) [] [])"
    by (simp add: daemon_start_def scheduler_from_config_def demo_daemon_config_def demo_config_def demo_state_def demo_cli_def
        async_start_def Let_def spawn_interface_def interface_call_def List.map_filter_def demo_serial_def demo_server_def
        serial_run_def registry_of_spawned registry_new_def demo_outside_def ROUTER_CHANNEL_SIZE_def CONSUMER_CHANNEL_SIZE_def add_consumer_def router_new_def)
  then show ?thesis by (rule Starts)
qed

text \<open>A frame is read, handed over and given to the iGate task.\<close>

lemma demo_reads:
  assumes "process_kiss_frame 3 \<lparr>cmd_byte = 0, frame_data = d\<rparr> ''N0CALL'' 1 = Some p"
    and "length d < MAX_FRAME_LEN" "length (kiss_encode d 0 Plain) \<le> READ_BUF_SIZE" "kiss_encode d 0 Plain \<noteq> []"
  shows "\<exists>k. kl_packets k = [p]
    \<and> radio_step demo_outside 3 (SerialTask demo_serial (Some (kiss_loop_start 0))) [] (SerialTask demo_serial (Some k)) []"
proof -
  have "message_ok (d, 0, Plain)" using assms(2) by (auto simp: kiss_bytes Suc_le_eq)
  then have "snd (feed decoder_new (kiss_encode d 0 Plain)) = [\<lparr>cmd_byte = 0, frame_data = d\<rparr>]"
    using kiss_stream.messages [OF ready_new, of "[(d, 0, Plain)]"] by simp
  then obtain dec where "feed decoder_new (kiss_encode d 0 Plain) = (dec, [\<lparr>cmd_byte = 0, frame_data = d\<rparr>])"
    by (cases "feed decoder_new (kiss_encode d 0 Plain)") auto
  moreover obtain k where k: "k = (kiss_loop_start 0)\<lparr>kl_decoder := dec, kl_last_data := 3, kl_packets := [p]\<rparr>" by blast
  ultimately have "kiss_loop_step (si_metadata demo_serial) (si_protocol demo_serial) (si_watchdog demo_serial) 3
      (ReadBytes (kiss_encode d 0 Plain) (\<lambda>_. True)) (kiss_loop_start 0) = Some k"
    using assms(1,3,4) by (simp add: kiss_loop_start_def demo_serial_def serial_new_def)
  from SerialRound [OF this, of demo_outside "[]" "[]"]
  have "radio_step demo_outside 3 (SerialTask demo_serial (Some (kiss_loop_start 0))) [] (SerialTask demo_serial (Some k)) []"
    by simp
  moreover have "kl_packets k = [p]" by (simp add: k)
  ultimately show ?thesis by blast
qed

lemma demo_arrives:
  assumes "process_kiss_frame 3 \<lparr>cmd_byte = 0, frame_data = d\<rparr> ''N0CALL'' 1 = Some p"
    and "length d < MAX_FRAME_LEN" "length (kiss_encode d 0 Plain) \<le> READ_BUF_SIZE" "kiss_encode d 0 Plain \<noteq> []"
  shows "\<exists>k. kl_packets k = [p] \<and> demo_reach (demo_state k [] [] [p] demo_igate None (aprsis_start demo_server) [] [])"
proof -
  let ?S = "\<lambda>k outbox source channel. demo_state k outbox source channel demo_igate None (aprsis_start demo_server) [] []"
  obtain k where k: "kl_packets k = [p]"
    and step: "radio_step demo_outside 3 (SerialTask demo_serial (Some (kiss_loop_start 0))) [] (SerialTask demo_serial (Some k)) []"
    using demo_reads [OF assms] by blast
  have "daemon_step demo_outside demo_cli demo_daemon_config (?S (kiss_loop_start 0) [] [] []) (?S k [p] [] [])"
    using RadioStep [of 0 "?S (kiss_loop_start 0) [] [] []" "SerialTask demo_serial (Some (kiss_loop_start 0))" demo_outside 3
        "SerialTask demo_serial (Some k)" "[]"] step k
    by (simp add: demo_state_def kiss_loop_start_def)
  with demo_starts have "demo_reach (?S k [p] [] [])" by (rule Goes)
  moreover have "daemon_step demo_outside demo_cli demo_daemon_config (?S k [p] [] []) (?S k [] [p] [])"
    using RadioSends [of 0 "?S k [p] [] []" "SerialTask demo_serial (Some k)" p "[]" demo_outside "(256, [p])"]
    by (simp add: demo_state_def demo_outside_def bounded_send_def)
  ultimately have "demo_reach (?S k [] [p] [])" by (rule Goes)
  moreover have "daemon_step demo_outside demo_cli demo_daemon_config (?S k [] [p] []) (?S k [] [] [p])"
    using RouterStep [of demo_outside "?S k [] [p] []" p "(256, [])"]
    by (simp add: demo_state_def demo_outside_def bounded_send_def consumer_channel_def)
  ultimately have "demo_reach (?S k [] [] [p])" by (rule Goes)
  then show ?thesis using k by blast
qed

text \<open>The client goes on by itself.\<close>

lemma client_goes:
  assumes "daemon_reach out cl cfg s" "dm_client s = Some (c, a)" "aprsis_run c a es = Some a'"
    and "\<forall>(t, e)\<in>set es. client_event e"
  shows "\<exists>s'. daemon_reach out cl cfg s' \<and> dm_client s' = Some (c, a') \<and> dm_radios s' = dm_radios s
    \<and> dm_registry s' = dm_registry s \<and> dm_source s' = dm_source s \<and> dm_router s' = dm_router s \<and> dm_held s' = dm_held s
    \<and> ig_running (dm_igate s') = ig_running (dm_igate s)"
  using assms
proof (induction es arbitrary: s a)
  case (Cons te es)
  obtain t e where te: "te = (t, e)" by (cases te)
  then obtain a1 where a1: "aprsis_step c t e a = Some a1" "aprsis_run c a1 es = Some a'" "client_event e"
    using Cons.prems(3,4) by (auto split: option.splits)
  have "daemon_reach out cl cfg (client_after c a1 s)"
    by (rule Goes [OF Cons.prems(1) ClientActs [OF Cons.prems(2) a1(3,1)]])
  from Cons.IH [OF this _ a1(2)] Cons.prems(4) show ?case by (simp add: client_after_def)
qed auto

text \<open>The packet of the demonstration frame is gated and sent.\<close>

lemma demo_received_gated: "gate_to_aprsis demo_received ''N0CALL'' 5 = Some (Gated ''W1AW>APRS,qAR,N0CALL:!'')"
  by code_simp

lemma demo_frame_ok:
  "process_kiss_frame 3 \<lparr>cmd_byte = 0, frame_data = demo_frame\<rparr> ''N0CALL'' 1 = Some demo_received"
  "length demo_frame < MAX_FRAME_LEN" "length (kiss_encode demo_frame 0 Plain) \<le> READ_BUF_SIZE" "kiss_encode demo_frame 0 Plain \<noteq> []"
  unfolding demo_process demo_kiss_bytes
  by (simp_all add: demo_received_def demo_frame_bytes MAX_FRAME_LEN_def READ_BUF_SIZE_def)

lemmas demo_heard = demo_arrives [OF demo_frame_ok]

lemma demo_taken:
  "\<exists>k t. kl_packets k = [demo_received] \<and> ig_running t \<and> demo_reach (demo_state k [] [] [] t
     (Some (5, demo_received, ''W1AW>APRS,qAR,N0CALL:!'')) (aprsis_start demo_server) [] [(5, demo_received)])"
proof -
  obtain k where k: "kl_packets k = [demo_received]"
    "demo_reach (demo_state k [] [] [demo_received] demo_igate None (aprsis_start demo_server) [] [])" (is "demo_reach ?s")
    using demo_heard by blast
  have source: "source_interface demo_received \<noteq> ''APRSIS''" by (simp add: demo_received_def)
  then obtain t where t: "igate_step ''N0CALL'' 5 True demo_received demo_igate = Some t"
    using demo_received_gated by (simp add: igate_step_def Let_def)
  have line: "gated_line ''N0CALL'' 5 demo_received = Some ''W1AW>APRS,qAR,N0CALL:!''"
    using source demo_received_gated by (simp add: gated_line_Some)
  from igate_step_line [OF t] line have sent: "ig_running t" "ig_sent t = [''W1AW>APRS,qAR,N0CALL:!'']" by simp_all
  have "daemon_step demo_outside demo_cli demo_daemon_config ?s (demo_state k [] [] [] t
      (Some (5, demo_received, ''W1AW>APRS,qAR,N0CALL:!'')) (aprsis_start demo_server) [] [(5, demo_received)])"
    using IgateTakes [of ?s demo_outside demo_received "(128, [])" demo_daemon_config 5 t demo_cli] t sent
    by (simp add: demo_state_def demo_outside_def consumer_channel_def set_channel_def demo_daemon_config_def demo_config_def)
  with k sent(1) show ?thesis using Goes by blast
qed

theorem daemon_wire_safe_witness:
  "\<exists>s a log. demo_reach s \<and> dm_client s = Some (demo_server, a) \<and> daemon_heard s = [demo_received]
    \<and> wire a = [login_line demo_server, framed ''W1AW>APRS,qAR,N0CALL:!'']
    \<and> wire a = login_line demo_server # map (\<lambda>l. framed (line_text l)) log
    \<and> mset (map (\<lambda>(t, p, l). p) (List.map_filter radio_line log)) \<subseteq># {#demo_received#}"
proof -
  let ?l = "''W1AW>APRS,qAR,N0CALL:!''"
  obtain k t where k: "kl_packets k = [demo_received]" and reach: "demo_reach (demo_state k [] [] [] t
     (Some (5, demo_received, ?l)) (aprsis_start demo_server) [] [(5, demo_received)])" (is "demo_reach ?s")
    using demo_taken by blast
  let ?a = "(aprsis_start demo_server)\<lparr>queue := [?l]\<rparr>"
  let ?s1 = "demo_state k [] [] [] t None ?a [FromRadio 5 demo_received ?l] [(5, demo_received)]"
  have "put_line 6 (FromRadio 5 demo_received ?l) ?s = Some (?s1\<lparr>dm_held := Some (5, demo_received, ?l)\<rparr>)"
    by (simp add: put_line_def demo_state_def aprsis_start_def demo_server_def client_new_def Let_def APRSIS_WRITE_CHANNEL_SIZE_def)
  then have "daemon_step demo_outside demo_cli demo_daemon_config ?s ?s1"
    using IgateSends [of ?s 5 demo_received ?l 6 "?s1\<lparr>dm_held := Some (5, demo_received, ?l)\<rparr>"]
    by (simp add: demo_state_def)
  with reach have s1: "demo_reach ?s1" by (rule Goes)
  obtain a' where a': "aprsis_run demo_server ?a [(7, aprsis_event.ConnectOk), (8, WriteOk), (9, FlushOk), (10, TakesMessage), (11, WriteOk)] = Some a'"
    "wire a' = [login_line demo_server, framed ?l]"
    by (simp add: aprsis_start_def demo_server_def client_new_def Let_def flush_next_def next_round_def take_message_def
        wrote_def WRITE_BATCH_MAX_def)
  have "dm_client ?s1 = Some (demo_server, ?a)" by (simp add: demo_state_def)
  from client_goes [OF s1 this a'(1)] obtain s' where s': "demo_reach s'" "dm_client s' = Some (demo_server, a')"
    "daemon_heard s' = [demo_received]"
    by (auto simp: daemon_heard_def demo_state_def k)
  have "wire a' \<noteq> []" by (simp add: a'(2))
  from daemon_wire_safe [OF demo_laws s'(1,2) this] obtain log where
    "wire a' = login_line demo_server # map (\<lambda>l. framed (line_text l)) log"
    "mset (map (\<lambda>(t, p, l). p) (List.map_filter radio_line log)) \<subseteq># mset (daemon_heard s')" by blast
  then show ?thesis using s' a'(2) by (intro exI [of _ s'] exI [of _ a'] exI [of _ log]) simp
qed

theorem daemon_conserves_packets_witness:
  "\<exists>s. demo_reach s \<and> ig_running (dm_igate s) \<and> mset (daemon_heard s) = {#demo_received#}
    \<and> mset (in_outboxes s) + mset (snd (dm_source s)) + mset (snd (consumer_channel 0 s))
      + mset (map snd (dm_seen s)) + mset (dm_lost s) = {#demo_received#}
    \<and> List.map_filter (gated_entry ''N0CALL'') (dm_seen s)
      = List.map_filter radio_line (dm_sent s) @ [(5, demo_received, ''W1AW>APRS,qAR,N0CALL:!'')]"
proof -
  obtain k t where k: "kl_packets k = [demo_received]" "ig_running t" and reach: "demo_reach (demo_state k [] [] [] t
     (Some (5, demo_received, ''W1AW>APRS,qAR,N0CALL:!'')) (aprsis_start demo_server) [] [(5, demo_received)])" (is "demo_reach ?s")
    using demo_taken by blast
  have s: "ig_running (dm_igate ?s)" "daemon_heard ?s = [demo_received]" "server_heard ?s = []"
    "dm_held ?s = Some (5, demo_received, ''W1AW>APRS,qAR,N0CALL:!'')" "cfg_mycall demo_daemon_config = ''N0CALL''"
    by (simp_all add: demo_state_def k daemon_heard_def server_heard_def aprsis_start_def demo_daemon_config_def demo_config_def)
  from daemon_conserves_packets [OF demo_laws reach s(1)] have
    "mset [demo_received] = mset (in_outboxes ?s) + mset (snd (dm_source ?s)) + mset (snd (consumer_channel 0 ?s))
      + mset (map snd (dm_seen ?s)) + mset (dm_lost ?s)"
    "List.map_filter (gated_entry ''N0CALL'') (dm_seen ?s)
      = List.map_filter radio_line (dm_sent ?s) @ [(5, demo_received, ''W1AW>APRS,qAR,N0CALL:!'')]"
    by (simp_all only: s mset.simps list.map option.case empty_neutral)
  then show ?thesis using reach s(1,2) by (intro exI [of _ ?s]) simp
qed

theorem daemon_aborts_on_non_ascii_witness:
  "\<exists>s p. demo_reach s \<and> daemon_aborts demo_outside demo_daemon_config s p
    \<and> \<not> all_ascii (tnc2 p) \<and> (p \<in> set (daemon_heard s) \<or> p \<in> set (server_heard s))"
proof -
  let ?p = "frame_packet brace_frame (''W1AW>APRS:}'' @ [CHR 0xC3, CHR 0xA9]) 3"
  have p: "process_kiss_frame 3 \<lparr>cmd_byte = 0, frame_data = brace_frame\<rparr> ''N0CALL'' 1 = Some ?p"
    by (simp add: process_kiss_frame_def cmd_def brace_frame_decodes frame_packet_def)
  have "length brace_frame = 18" by code_simp
  moreover have "length (kiss_encode brace_frame 0 Plain) = 21" "kiss_encode brace_frame 0 Plain \<noteq> []" by code_simp+
  ultimately obtain k where "demo_reach (demo_state k [] [] [?p] demo_igate None (aprsis_start demo_server) [] [])"
    (is "demo_reach ?s")
    using demo_arrives [OF p] by (auto simp: MAX_FRAME_LEN_def READ_BUF_SIZE_def)
  moreover have "igate_step c 5 True q t = None" if "source_interface q \<noteq> ''APRSIS''" "gate_to_aprsis q c 5 = None" for c q t
    using that by (simp add: igate_step_def Let_def)
  then have "igate_step (cfg_mycall demo_daemon_config) 5 True ?p (dm_igate ?s) = None"
    using brace_gate_panics by (simp only: frame_packet_def packet.select_convs) simp
  then have "daemon_aborts demo_outside demo_daemon_config ?s ?p"
    using IgatePanics [of ?s demo_outside ?p "(128, [])" demo_daemon_config 5]
    by (simp add: demo_state_def consumer_channel_def demo_outside_def)
  ultimately show ?thesis using daemon_aborts_on_non_ascii [OF demo_laws] by blast
qed

theorem daemon_never_transmits_witness:
  "\<exists>s r k. demo_reach s \<and> r \<in> set (dm_radios s) \<and> k \<in> set (radio_loops (rd_task r)) \<and> md_tx_ok (radio_metadata (rd_task r))
    \<and> kl_packets k = [demo_received] \<and> kl_written k = []"
proof -
  obtain k t where k: "kl_packets k = [demo_received]" and reach: "demo_reach (demo_state k [] [] [] t
     (Some (5, demo_received, ''W1AW>APRS,qAR,N0CALL:!'')) (aprsis_start demo_server) [] [(5, demo_received)])" (is "demo_reach ?s")
    using demo_taken by blast
  let ?r = "\<lparr>rd_task = SerialTask demo_serial (Some k), rd_outbox = []\<rparr>"
  have r: "?r \<in> set (dm_radios ?s)" "k \<in> set (radio_loops (rd_task ?r))" "md_tx_ok (radio_metadata (rd_task ?r))"
    by (simp_all add: demo_state_def demo_serial_def serial_new_def)
  from daemon_never_transmits [OF demo_command_laws reach r(1,2)] show ?thesis
    using reach r k by (intro exI [of _ ?s] exI [of _ ?r] exI [of _ k]) simp
qed

end
