(* ===== verification/Daemon_Refinement.thy ===== *)
theory Daemon_Refinement
  imports Daemon_Properties
begin

text \<open>
  What the daemon promises as a gateway, and that it keeps the promise. The gateway has a bag of packets that wait and a list of
  lines sent: packets come in, packets are dropped, a waiting packet is taken out and its line is sent, a beacon is
  sent. It has no channels, tasks or timers. Every step of the daemon is such a step or none, with the packets on their
  way to the iGate task, and the one whose line it holds, as the packets that wait.
\<close>

section \<open>The gateway\<close>

record gateway =
  gw_waiting :: "packet multiset"
  gw_lines :: "sent_line list"

inductive gateway_step :: "string \<Rightarrow> gateway \<Rightarrow> gateway \<Rightarrow> bool" for gate_call :: string where
  Hears: "gateway_step gate_call g (g\<lparr>gw_waiting := gw_waiting g + ps\<rparr>)"
| Drops: "ps \<subseteq># gw_waiting g \<Longrightarrow> gateway_step gate_call g (g\<lparr>gw_waiting := gw_waiting g - ps\<rparr>)"
| Gates: "p \<in># gw_waiting g \<Longrightarrow> gated_line gate_call t p = Some l
     \<Longrightarrow> gateway_step gate_call g
           \<lparr>gw_waiting = gw_waiting g - {#p#}, gw_lines = gw_lines g @ [FromRadio t p l]\<rparr>"
| Beacons: "gateway_step gate_call g (g\<lparr>gw_lines := gw_lines g @ [FromBeacon l]\<rparr>)"

inductive gateway_reach :: "string \<Rightarrow> gateway \<Rightarrow> bool" for gate_call :: string where
  Empty: "gateway_reach gate_call \<lparr>gw_waiting = {#}, gw_lines = []\<rparr>"
| More: "gateway_reach gate_call g \<Longrightarrow> gateway_step gate_call g g' \<Longrightarrow> gateway_reach gate_call g'"

lemma gateway_lines_gated:
  "gateway_reach gate_call g \<Longrightarrow> FromRadio t p l \<in> set (gw_lines g) \<Longrightarrow> gated_line gate_call t p = Some l"
  by (induction rule: gateway_reach.induct) (auto elim!: gateway_step.cases)

section \<open>The daemon as a gateway\<close>

definition held_packets :: "('ch, 'cc) daemon \<Rightarrow> packet multiset" where
  "held_packets s = (case dm_held s of None \<Rightarrow> {#} | Some (t, p, l) \<Rightarrow> {#p#})"

definition gateway_of :: "('ch \<Rightarrow> packet list) \<Rightarrow> ('ch, 'cc) daemon \<Rightarrow> gateway" where
  "gateway_of contents s = \<lparr>gw_waiting = on_the_way contents s + held_packets s, gw_lines = dm_sent s\<rparr>"

lemma same_gateway: "gateway_step gate_call g g"
  using Hears [of gate_call g "{#}"] by simp

lemma gateway_hears:
  assumes "on_the_way contents s' = on_the_way contents s + ps" "dm_held s' = dm_held s" "dm_sent s' = dm_sent s"
  shows "gateway_step gate_call (gateway_of contents s) (gateway_of contents s')"
  using Hears [of gate_call "gateway_of contents s" ps] assms
  by (simp add: gateway_of_def held_packets_def ac_simps)

lemma gateway_drops:
  assumes "on_the_way contents s + held_packets s = on_the_way contents s' + held_packets s' + ps" "dm_sent s' = dm_sent s"
  shows "gateway_step gate_call (gateway_of contents s) (gateway_of contents s')"
  using Drops [of ps "gateway_of contents s" gate_call] assms
  by (simp add: gateway_of_def)

lemma gateway_stays:
  assumes "dm_radios s' = dm_radios s" "dm_source s' = dm_source s" "consumer_channel 0 s' = consumer_channel 0 s"
    and "dm_held s' = dm_held s" "dm_sent s' = dm_sent s"
  shows "gateway_step gate_call (gateway_of contents s) (gateway_of contents s')"
  using gateway_hears [of contents s' s "{#}"] way_same [OF assms(1-3)] assms(4,5) by simp

lemma held_gated:
  assumes "gate_inv gate_call s" "dm_held s = Some (t, p, l)"
  shows "gated_line gate_call t p = Some l"
proof -
  have "(t, p, l) \<in> set (List.map_filter (gated_entry gate_call) (dm_seen s))"
    using assms by (auto simp: gate_inv_def)
  then show ?thesis by (auto simp: List.map_filter_def gated_entry_def)
qed

lemma daemon_step_gateway:
  assumes laws: "queue_laws out contents"
    and "daemon_step out cl cfg s s'" "daemon_inv contents cfg s"
  shows "gateway_step (cfg_mycall cfg) (gateway_of contents s) (gateway_of contents s')"
  using assms(2,3)
proof (induction rule: daemon_step.induct)
  case (RadioStep i s r now r' ch)
  from radio_step_sums [OF RadioStep(1-3) refl, of "(dm_registry s)[i := (dm_registry s ! i)\<lparr>ih_cmd_tx := ch\<rparr>]" contents]
  show ?case by (auto intro!: gateway_hears)
next
  case (RadioSends i s r p ps ch)
  have "contents ch = contents (dm_source s) @ [p]" using queue_sent [OF laws RadioSends(3)] by simp
  from radio_sends_sums(2) [of i s r p ps contents, OF RadioSends(1,2) this refl] show ?case
    by (intro gateway_hears [of _ _ _ "{#}"]) simp_all
next
  case (RouterStep s p ch)
  let ?lost = "if snd (os_try_send out (consumer_channel 0 s) p) = SendOk then {#} else {#p#}"
  have "dm_router s \<noteq> []" using RouterStep(2) by (simp add: daemon_inv_def flow_inv_def)
  from router_step_sums [OF laws this RouterStep(1) refl] show ?case
    by (intro gateway_drops [of _ _ _ ?lost]) (auto simp: held_packets_def ac_simps split: if_splits)
next
  case (IgateTakes s p ch now t)
  let ?s = "(set_channel 0 ch s)\<lparr>dm_igate := t,
    dm_held := (if ig_sent t = ig_sent (dm_igate s) then None else Some (now, p, last (ig_sent t))), dm_seen := dm_seen s @ [(now, p)]\<rparr>"
  have "dm_router s \<noteq> []" using IgateTakes(5) by (simp add: daemon_inv_def flow_inv_def)
  from channel_0_takes [OF laws this IgateTakes(3), of ?s] have way: "on_the_way contents s = add_mset p (on_the_way contents ?s)"
    by simp
  show ?case
    by (rule gateway_drops [where ps = "if ig_sent t = ig_sent (dm_igate s) then {#p#} else {#}"])
       (use way IgateTakes(2) in \<open>auto simp: held_packets_def\<close>)
next
  case (IgateSends s t p l now s')
  have "gate_inv (cfg_mycall cfg) s" using IgateSends(3) by (simp add: daemon_inv_def)
  note line = held_gated [OF this IgateSends(1)]
  have "on_the_way contents (s'\<lparr>dm_held := None\<rparr>) = on_the_way contents s"
    using put_line_same [OF IgateSends(2)] by (intro way_same) (simp_all add: consumer_channel_def)
  then show ?case
    using Gates [of p "gateway_of contents s", OF _ line] put_line_same [OF IgateSends(2)] IgateSends(1)
    by (simp add: gateway_of_def held_packets_def)
next
  case (IgateRefused s t p l)
  let ?s = "(set_channel 0 (os_close out (consumer_channel 0 s)) s)\<lparr>dm_held := None,
    dm_igate := (dm_igate s)\<lparr>ig_sent := butlast (ig_sent (dm_igate s)), ig_running := False\<rparr>\<rparr>"
  have "dm_router s \<noteq> []" using IgateRefused(3) by (simp add: daemon_inv_def flow_inv_def)
  then have "consumer_channel 0 ?s = os_close out (consumer_channel 0 s)" by (simp add: consumer_channel_def set_channel_def)
  then have "on_the_way contents s = on_the_way contents ?s + mset (contents (consumer_channel 0 s))"
    using queue_closed [OF laws] by (simp add: on_the_way_def in_outboxes_def)
  then show ?case
    by (intro gateway_drops [where ps = "mset (contents (consumer_channel 0 s)) + {#p#}"])
       (use IgateRefused(1) in \<open>simp_all add: held_packets_def ac_simps\<close>)
next
  case (ClientReceives s c a now data p ch answer a')
  show ?case
    by (rule gateway_hears [where ps = "if answer = SendOk then {#p#} else {#}"])
       (use queue_sent [OF laws ClientReceives(3)] in \<open>simp_all add: on_the_way_def in_outboxes_def consumer_channel_def\<close>)
next
  case (BeaconSends s l ls now s')
  have "on_the_way contents (s'\<lparr>dm_due := ls\<rparr>) = on_the_way contents s"
    using put_line_same [OF BeaconSends(2)] by (intro way_same) (simp_all add: consumer_channel_def)
  then show ?case
    using Beacons [of "cfg_mycall cfg" "gateway_of contents s" l] put_line_same [OF BeaconSends(2)]
    by (simp add: gateway_of_def held_packets_def)
qed (auto intro!: gateway_stays simp: consumer_channel_def set_channel_def)

lemma daemon_start_empty:
  assumes "daemon_start out now hash clock cl cfg = Some s"
  shows "daemon_heard s = []" "server_heard s = []" "dm_held s = None" "dm_sent s = []" "ig_running (dm_igate s)"
  using assms
  by (auto simp: daemon_start_def Let_def bind_eq_Some_conv daemon_heard_def server_heard_def radio_start_empty(1)
      aprsis_start_def simp del: radio_heard_simps split: option.split)

section \<open>The refinement\<close>



end
