(* ===== verification/Daemon_Liveness.thy ===== *)
theory Daemon_Liveness
  imports Daemon_Properties
begin

text \<open>
  What the daemon of the theory \<open>Daemon\<close> can do: where the channels have room and nothing is in the way, a packet an interface
  decodes gets to the connection to the server in seven steps of its tasks, and each step is shown by the rule of its task.
\<close>

text \<open>Nothing is between the interfaces and the server, and the client waits for work on its connection.\<close>

definition quiet :: "('ch \<Rightarrow> packet list) \<Rightarrow> ('ch, 'cc) daemon \<Rightarrow> bool" where
  "quiet contents s \<longleftrightarrow>
     dm_router s \<noteq> [] \<and> contents (dm_source s) = [] \<and> contents (consumer_channel 0 s) = []
     \<and> ig_running (dm_igate s) \<and> dm_held s = None"

definition has_room :: "('ch, 'cc) outside \<Rightarrow> packet \<Rightarrow> ('ch, 'cc) daemon \<Rightarrow> bool" where
  "has_room out p s \<longleftrightarrow> snd (os_try_send out (dm_source s) p) = SendOk
     \<and> snd (os_try_send out (consumer_channel 0 s) p) = SendOk"

lemma queue_nonempty: "queue_laws out contents \<Longrightarrow> contents ch = p # ps \<Longrightarrow> \<exists>ch'. os_recv out ch = Some (p, ch') \<and> contents ch' = ps"
  unfolding queue_laws_def by (cases "os_recv out ch") fastforce+

text \<open>From the interface to the iGate task.\<close>

lemma packet_reaches_igate:
  assumes laws: "queue_laws out contents" and quiet: "quiet contents s" and room: "has_room out p s"
    and i: "i < length (dm_radios s)" "dm_radios s ! i = \<lparr>rd_task = r, rd_outbox = []\<rparr>"
    and step: "radio_step out now r (ih_cmd_tx (dm_registry s ! i)) r' cmds" "radio_heard r' = radio_heard r @ [p]"
  shows "\<exists>s'. (daemon_step out cl cfg)\<^sup>*\<^sup>* s s' \<and> contents (dm_source s') = [] \<and> contents (consumer_channel 0 s') = [p]
    \<and> dm_igate s' = dm_igate s \<and> dm_held s' = None \<and> dm_client s' = dm_client s \<and> dm_sent s' = dm_sent s \<and> dm_router s' \<noteq> []"
proof -
  let ?r = "\<lparr>rd_task = r', rd_outbox = [p]\<rparr>"
  let ?reg = "(dm_registry s)[i := (dm_registry s ! i)\<lparr>ih_cmd_tx := cmds\<rparr>]"
  let ?s1 = "s\<lparr>dm_radios := (dm_radios s)[i := ?r], dm_registry := ?reg\<rparr>"
  have 1: "daemon_step out cl cfg s ?s1"
    using RadioStep [OF i step(1), of cl cfg] step(2) by simp
  obtain ch where send: "os_try_send out (dm_source s) p = (ch, SendOk)"
    using room by (metis has_room_def prod.collapse)
  then have ch: "contents ch = [p]" using queue_sent [OF laws send] quiet by (simp add: quiet_def)
  let ?s2 = "?s1\<lparr>dm_radios := (dm_radios ?s1)[i := \<lparr>rd_task = r', rd_outbox = []\<rparr>], dm_source := ch\<rparr>"
  have 2: "daemon_step out cl cfg ?s1 ?s2"
    by (rule RadioSends [where p = p and ps = "[]" and r = r']) (use i(1) send in simp_all)
  obtain ch' where recv: "os_recv out ch = Some (p, ch')" "contents ch' = []" using queue_nonempty [OF laws ch] by blast
  obtain con where con: "os_try_send out (consumer_channel 0 s) p = (con, SendOk)"
    using room by (metis has_room_def prod.collapse)
  then have con_p: "contents con = [p]" using queue_sent [OF laws con] quiet by (simp add: quiet_def)
  let ?s3 = "?s2\<lparr>dm_source := ch', dm_router := fst (fan_out (os_try_send out) (dm_router s) p)\<rparr>"
  have "consumer_channel 0 ?s2 = consumer_channel 0 s" by (simp add: consumer_channel_def)
  then have 3: "daemon_step out cl cfg ?s2 ?s3"
    using RouterStep [of out ?s2 p ch' cl cfg] recv(1) con by simp
  have "consumer_channel 0 ?s3 = fst (os_try_send out (consumer_channel 0 s) p)"
    by (rule channel_fan_out) (use quiet in \<open>simp_all add: quiet_def\<close>)
  then have "contents (consumer_channel 0 ?s3) = [p]" using con con_p by simp
  moreover have "(daemon_step out cl cfg)\<^sup>*\<^sup>* s ?s3" using 1 2 3 by (meson rtranclp.rtrancl_into_rtrancl rtranclp.rtrancl_refl)
  ultimately show ?thesis
    using recv(2) quiet by (intro exI [of _ ?s3]) (simp add: quiet_def fan_out_map)
qed

text \<open>From the iGate task to the queue of the client.\<close>

lemma packet_reaches_client:
  assumes laws: "queue_laws out contents" and s: "contents (consumer_channel 0 s) = [p]" "dm_router s \<noteq> []"
      "ig_running (dm_igate s)" "dm_held s = None" "dm_client s = Some (c, a)"
    and a: "as_phase a \<noteq> Stopped" "queue a = []" "\<not> queue_closed a"
    and line: "gated_line (cfg_mycall cfg) t p = Some l"
  shows "\<exists>s'. (daemon_step out cl cfg)\<^sup>*\<^sup>* s s' \<and> dm_client s' = Some (c, a\<lparr>queue := [l]\<rparr>)
    \<and> dm_sent s' = dm_sent s @ [FromRadio t p l]"
proof -
  obtain ch where recv: "os_recv out (consumer_channel 0 s) = Some (p, ch)" using queue_nonempty [OF laws s(1)] by blast
  have "source_interface p \<noteq> ''APRSIS''" "gate_to_aprsis p (cfg_mycall cfg) t = Some (Gated l)"
    using line by (simp_all add: gated_line_Some)
  then obtain task where task: "igate_step (cfg_mycall cfg) t True p (dm_igate s) = Some task"
    by (simp add: igate_step_def Let_def)
  then have sent: "ig_sent task = ig_sent (dm_igate s) @ [l]" using igate_step_line line by simp
  let ?s1 = "(set_channel 0 ch s)\<lparr>dm_igate := task, dm_held := Some (t, p, l), dm_seen := dm_seen s @ [(t, p)]\<rparr>"
  have 1: "daemon_step out cl cfg s ?s1"
    using IgateTakes [OF s(3,4) recv task, of cl] sent by simp
  let ?s2 = "?s1\<lparr>dm_client := Some (c, a\<lparr>queue := [l]\<rparr>), dm_sent := dm_sent s @ [FromRadio t p l]\<rparr>"
  have "put_line t (FromRadio t p l) ?s1 = Some ?s2"
    using s(5) a by (simp add: put_line_def APRSIS_WRITE_CHANNEL_SIZE_def)
  then have 2: "daemon_step out cl cfg ?s1 (?s2\<lparr>dm_held := None\<rparr>)" by (intro IgateSends) simp_all
  show ?thesis
    using 1 2 by (intro exI [of _ "?s2\<lparr>dm_held := None\<rparr>"]) (simp add: converse_rtranclp_into_rtranclp)
qed

text \<open>From the queue to the connection.\<close>

lemma line_reaches_server:
  assumes "dm_client s = Some (c, a)" "as_phase a = Selecting" "queue a = [l]"
  shows "\<exists>s' a'. (daemon_step out cl cfg)\<^sup>*\<^sup>* s s' \<and> dm_client s' = Some (c, a') \<and> wire a' = wire a @ [framed l]
    \<and> dm_sent s' = dm_sent s"
proof -
  let ?a1 = "a\<lparr>queue := [], taken := taken a @ [l], as_phase := Writing l 0, line_buf := []\<rparr>"
  let ?a2 = "(wrote l ?a1)\<lparr>as_phase := BatchFlush\<rparr>"
  have 1: "daemon_step out cl cfg s (client_after c ?a1 s)"
    by (rule ClientActs [OF assms(1), of TakesMessage 0]) (use assms(2,3) in \<open>simp_all add: take_message_def\<close>)
  have 2: "daemon_step out cl cfg (client_after c ?a1 s) (client_after c ?a2 (client_after c ?a1 s))"
    by (rule ClientActs [of _ c ?a1 WriteOk 0]) (simp_all add: client_after_def wrote_def)
  have "wire ?a2 = wire a @ [framed l]" by (simp add: wrote_def)
  moreover have "dm_client (client_after c ?a2 (client_after c ?a1 s)) = Some (c, ?a2)" by (simp add: client_after_def)
  ultimately show ?thesis
    using 1 2 by (intro exI [of _ "client_after c ?a2 (client_after c ?a1 s)"] exI [of _ ?a2])
      (simp add: converse_rtranclp_into_rtranclp)
qed

text \<open>C14: the daemon can do its work: wherever it has got to, if nothing is between the interfaces and the client, the channels have room and the client
  is connected and idle, then a packet an interface decodes can get through all tasks, and if its rules allow it its line is
  the next on the connection.\<close>

theorem daemon_can_deliver:
  assumes "queue_laws out contents" "daemon_reach out cl cfg s" "quiet contents s" "has_room out p s"
    and "dm_client s = Some (c, a)" "as_phase a = Selecting" "queue a = []"
    and "i < length (dm_radios s)" "dm_radios s ! i = \<lparr>rd_task = r, rd_outbox = []\<rparr>"
    and "radio_step out now r (ih_cmd_tx (dm_registry s ! i)) r' cmds" "radio_heard r' = radio_heard r @ [p]"
    and "gated_line (cfg_mycall cfg) t p = Some l"
  shows "\<exists>s' a'. (daemon_step out cl cfg)\<^sup>*\<^sup>* s s' \<and> daemon_reach out cl cfg s' \<and> dm_client s' = Some (c, a')
    \<and> wire a' = wire a @ [framed l] \<and> dm_sent s' = dm_sent s @ [FromRadio t p l]"
proof -
  obtain s1 where s1: "(daemon_step out cl cfg)\<^sup>*\<^sup>* s s1" "contents (consumer_channel 0 s1) = [p]" "dm_router s1 \<noteq> []"
    "dm_igate s1 = dm_igate s" "dm_held s1 = None" "dm_client s1 = Some (c, a)" "dm_sent s1 = dm_sent s"
    using packet_reaches_igate [OF assms(1,3,4,8-11)] assms(5) by metis
  have "\<not> queue_closed a" using daemon_reach_inv [OF assms(1,2)] assms(5) by (auto simp: daemon_inv_def client_inv_def)
  moreover have "ig_running (dm_igate s1)" using assms(3) s1(4) by (simp add: quiet_def)
  moreover have "as_phase a \<noteq> Stopped" using assms(6) by simp
  ultimately obtain s2 where s2: "(daemon_step out cl cfg)\<^sup>*\<^sup>* s1 s2" "dm_client s2 = Some (c, a\<lparr>queue := [l]\<rparr>)"
    "dm_sent s2 = dm_sent s1 @ [FromRadio t p l]"
    using packet_reaches_client [OF assms(1) s1(2,3) _ s1(5,6) _ assms(7) _ assms(12)] by metis
  obtain s3 a' where s3: "(daemon_step out cl cfg)\<^sup>*\<^sup>* s2 s3" "dm_client s3 = Some (c, a')" "wire a' = wire a @ [framed l]"
    "dm_sent s3 = dm_sent s2"
    using line_reaches_server [OF s2(2), of l out cl cfg] assms(6) by (simp del: ex_simps) blast
  have run: "(daemon_step out cl cfg)\<^sup>*\<^sup>* s s3" using s1(1) s2(1) s3(1) by (meson rtranclp_trans)
  then have "daemon_reach out cl cfg s3"
    using assms(2) by (induction rule: rtranclp_induct) (auto intro: Goes)
  then show ?thesis using run s3 s2(3) s1(7) by auto
qed

theorem daemon_can_deliver_witness:
  "\<exists>s a s' a'. demo_reach s \<and> dm_client s = Some (demo_server, a) \<and> wire a = [login_line demo_server]
    \<and> demo_reach s' \<and> dm_client s' = Some (demo_server, a')
    \<and> wire a' = [login_line demo_server, framed ''W1AW>APRS,qAR,N0CALL:!'']"
proof -
  let ?s = "demo_state (kiss_loop_start 0) [] [] [] demo_igate None (aprsis_start demo_server) [] []"
  obtain a where a: "aprsis_run demo_server (aprsis_start demo_server) [(0, aprsis_event.ConnectOk), (1, WriteOk), (2, FlushOk)] = Some a"
    "wire a = [login_line demo_server]" "as_phase a = Selecting" "queue a = []"
    by (simp add: aprsis_start_def demo_server_def client_new_def Let_def flush_next_def next_round_def)
  have "dm_client ?s = Some (demo_server, aprsis_start demo_server)" by (simp add: demo_state_def)
  from client_goes [OF demo_starts this a(1)] obtain s where s: "demo_reach s" "dm_client s = Some (demo_server, a)"
    "dm_radios s = dm_radios ?s" "dm_registry s = dm_registry ?s" "dm_source s = dm_source ?s" "dm_router s = dm_router ?s"
    "dm_held s = dm_held ?s" "ig_running (dm_igate s) = ig_running (dm_igate ?s)" by auto
  have quiet: "quiet snd s" "has_room demo_outside demo_received s"
    using s(5-8) by (simp_all add: quiet_def has_room_def demo_state_def consumer_channel_def demo_outside_def bounded_send_def)
  obtain k where k: "kl_packets k = [demo_received]"
    "radio_step demo_outside 3 (SerialTask demo_serial (Some (kiss_loop_start 0))) [] (SerialTask demo_serial (Some k)) []"
    using demo_reads [OF demo_frame_ok] by blast
  have radio: "0 < length (dm_radios s)" "dm_radios s ! 0 = \<lparr>rd_task = SerialTask demo_serial (Some (kiss_loop_start 0)), rd_outbox = []\<rparr>"
    "ih_cmd_tx (dm_registry s ! 0) = []" using s(3,4) by (simp_all add: demo_state_def)
  have line: "gated_line (cfg_mycall demo_daemon_config) 5 demo_received = Some ''W1AW>APRS,qAR,N0CALL:!''"
    using demo_received_gated by (simp add: gated_line_Some demo_daemon_config_def demo_config_def) (simp add: demo_received_def)
  have heard: "radio_heard (SerialTask demo_serial (Some k)) = radio_heard (SerialTask demo_serial (Some (kiss_loop_start 0))) @ [demo_received]"
    by (simp add: k kiss_loop_start_def)
  from daemon_can_deliver [OF demo_laws s(1) quiet s(2) a(3,4) radio(1,2) _ heard line, of 3 "[]"] k(2) radio(3)
  obtain s' a' where "demo_reach s'" "dm_client s' = Some (demo_server, a')"
    "wire a' = wire a @ [framed ''W1AW>APRS,qAR,N0CALL:!'']" by auto
  then show ?thesis using s(1,2) a(2) by (intro exI [of _ s] exI [of _ a] exI [of _ s'] exI [of _ a']) simp
qed

end
