(* ===== verification/Tests_Base.thy ===== *)
theory Tests_Base
  imports Vaprs_Error "HOL-Library.Code_Target_Nat"
begin

text \<open>
  What the unit tests of the repository need beside the code they call. A test is a boolean: the conjunction of its
  assertions, in their order; an \<open>unwrap\<close> or an index that panics makes it false.
\<close>

text \<open>\<open>r.unwrap()\<close>, for the assertions that follow it.\<close>

definition unwrapping :: "'e + 'a \<Rightarrow> ('a \<Rightarrow> bool) \<Rightarrow> bool" where
  "unwrapping r P = (case r of Inl _ \<Rightarrow> False | Inr x \<Rightarrow> P x)"

definition is_err :: "'e + 'a \<Rightarrow> bool" where
  "is_err r = (case r of Inl _ \<Rightarrow> True | Inr _ \<Rightarrow> False)"

definition is_ok :: "'e + 'a \<Rightarrow> bool" where
  "is_ok r \<longleftrightarrow> \<not> is_err r"

text \<open>The same of an option, and \<open>xs[i]\<close>.\<close>

definition some_of :: "'a option \<Rightarrow> ('a \<Rightarrow> bool) \<Rightarrow> bool" where
  "some_of r P = (case r of None \<Rightarrow> False | Some x \<Rightarrow> P x)"

definition is_some :: "'a option \<Rightarrow> bool" where
  "is_some r = (case r of None \<Rightarrow> False | Some _ \<Rightarrow> True)"

definition at_index :: "'a list \<Rightarrow> nat \<Rightarrow> ('a \<Rightarrow> bool) \<Rightarrow> bool" where
  "at_index xs i P = some_of (nth_opt xs i) P"

text \<open>\<open>contains\<close> on a string, \<open>windows(2)\<close>.\<close>

fun has_infix :: "string \<Rightarrow> string \<Rightarrow> bool" where
  "has_infix [] p \<longleftrightarrow> p = []"
| "has_infix (c # s) p \<longleftrightarrow> take (length p) (c # s) = p \<or> has_infix s p"

definition ends_with :: "string \<Rightarrow> string \<Rightarrow> bool" where
  "ends_with s p \<longleftrightarrow> starts_with (rev s) (rev p)"

definition windows2 :: "'a list \<Rightarrow> ('a \<times> 'a) list" where
  "windows2 xs = zip xs (tl xs)"

lemma some_of_mono: "some_of r P \<Longrightarrow> (\<And>x. P x \<Longrightarrow> Q x) \<Longrightarrow> some_of r Q"
  by (auto simp: some_of_def split: option.splits)

lemma has_infix_iff: "has_infix s p \<longleftrightarrow> (\<exists>a b. s = a @ p @ b)"
proof (induction s)
  case (Cons c s)
  have "take (length p) (c # s) = p \<longleftrightarrow> (\<exists>b. c # s = p @ b)"
    by (metis append_eq_conv_conj append_take_drop_id)
  moreover have "(\<exists>a b. c # s = a @ p @ b) \<longleftrightarrow> (\<exists>b. c # s = p @ b) \<or> (\<exists>a b. s = a @ p @ b)"
    by (auto simp: Cons_eq_append_conv)
  ultimately show ?case using Cons.IH by simp
qed simp

end
