(* ===== verification/Tests_Frames.thy ===== *)
theory Tests_Frames
  imports Tests_Base Crc Kiss Packet Agwpe_Frames
begin

text \<open>
  The unit tests of the codecs: \<open>src/crc.rs\<close>, \<open>src/ax25.rs\<close>, \<open>src/kiss.rs\<close>, \<open>src/packet.rs\<close> and
  \<open>src/interface/agwpe.rs\<close>. Each is translated with its assertions and evaluated in the kernel, so the definitions
  give on the developers' inputs what the developers expect of the code.
\<close>

unbundle bit_operations_syntax

section \<open>src/crc.rs\<close>

definition test_crc16_empty :: bool where
  "test_crc16_empty \<longleftrightarrow> crc16 [] = 0"

definition test_crc16_roundtrip :: bool where
  "test_crc16_roundtrip \<longleftrightarrow>
     (let data = [0x80, 0x01, 0x02, 0x03]; crc = crc16 data;
          with_crc = data @ [ucast (crc AND 0xFF)] @ [ucast (drop_bit 8 crc AND 0xFF)]
      in crc16 with_crc = 0)"

definition test_check_crc16_valid :: bool where
  "test_check_crc16_valid \<longleftrightarrow>
     (let data = [0x00, 0x41, 0x42]; crc = crc16 data;
          buf = data @ [ucast (crc AND 0xFF)] @ [ucast (drop_bit 8 crc AND 0xFF)]
      in check_crc16 buf)"

definition test_check_crc16_invalid :: bool where
  "test_check_crc16_invalid \<longleftrightarrow> \<not> check_crc16 [0x00, 0x41, 0x42, 0xFF, 0xFF]"

definition test_crc_ccitt_nonzero :: bool where
  "test_crc_ccitt_nonzero \<longleftrightarrow> (let crc = crc_ccitt 0xFFFF (as_bytes ''TEST'') in crc \<noteq> 0 \<and> crc \<noteq> 0xFFFF)"

definition test_crc_flex_roundtrip :: bool where
  "test_crc_flex_roundtrip \<longleftrightarrow>
     (let data = [0x20, 0x01, 0x02, 0x03]; crc = crc_flex data;
          with_crc = data @ [ucast (drop_bit 8 crc AND 0xFF)] @ [ucast (crc AND 0xFF)]
      in crc_flex with_crc = 0x7070)"

text \<open>The round trips hold of every text.\<close>

lemma crc_roundtrip_tests_pass: "test_crc16_roundtrip" "test_check_crc16_valid" "test_crc_flex_roundtrip"
  using crc16_residue [of "[0x80, 0x01, 0x02, 0x03]"] crc16_residue [of "[0x00, 0x41, 0x42]"]
    crc_flex_residue [of "[0x20, 0x01, 0x02, 0x03]"]
  unfolding test_crc16_roundtrip_def test_check_crc16_valid_def test_crc_flex_roundtrip_def Let_def check_crc16_def
    lo_byte_def hi_byte_def
  by (simp_all only: append.simps)

lemma crc_tests_pass: "test_crc16_empty" "test_check_crc16_invalid" "test_crc_ccitt_nonzero"
  by code_simp+

section \<open>src/ax25.rs\<close>

definition test_encode_callsign_no_ssid :: bool where
  "test_encode_callsign_no_ssid \<longleftrightarrow>
     unwrapping (encode_ax25_address ''OH2MQK'' 0x60) (\<lambda>ax25.
       nth_opt ax25 0 = Some (push_bit 1 (byte_of CHR ''O'')) \<and> nth_opt ax25 1 = Some (push_bit 1 (byte_of CHR ''H''))
       \<and> nth_opt ax25 5 = Some (push_bit 1 (byte_of CHR ''K'')) \<and> at_index ax25 6 (\<lambda>b. b AND 0x1E = 0))
     \<and> unwrapping (encode_ax25_address ''APRS'' 0xE0) (\<lambda>ax25.
       nth_opt ax25 4 = Some (push_bit 1 (byte_of CHR '' '')) \<and> nth_opt ax25 5 = Some (push_bit 1 (byte_of CHR '' '')))"

definition test_encode_callsign_with_ssid :: bool where
  "test_encode_callsign_with_ssid \<longleftrightarrow>
     unwrapping (encode_ax25_address ''OH2MQK-15'' 0x60) (\<lambda>ax25. at_index ax25 6 (\<lambda>b. drop_bit 1 b AND 0x0F = 15))"

definition test_decode_callsign :: bool where
  "test_decode_callsign \<longleftrightarrow>
     unwrapping (encode_ax25_address ''OH2MQK-1'' 0x60) (\<lambda>ax25.
     unwrapping (decode_ax25_address ax25 False) (\<lambda>(call, ssid_byte). call = ''OH2MQK-1'' \<and> ssid_byte AND 0x80 = 0))"

text \<open>\<open>field[6] |= bits\<close>.\<close>

definition or_flags :: "u8 list \<Rightarrow> u8 \<Rightarrow> u8 list" where
  "or_flags field bits = field[6 := field ! 6 OR bits]"

definition test_decode_with_hbit :: bool where
  "test_decode_with_hbit \<longleftrightarrow>
     unwrapping (encode_ax25_address ''WIDE1-1'' 0x60) (\<lambda>ax25.
     unwrapping (decode_ax25_address (or_flags ax25 0x80) True) (\<lambda>(call, _). call = ''WIDE1-1*''))"

definition test_ssid_zero_not_printed :: bool where
  "test_ssid_zero_not_printed \<longleftrightarrow>
     unwrapping (encode_ax25_address ''APRS'' 0xE0) (\<lambda>ax25.
     unwrapping (decode_ax25_address ax25 False) (\<lambda>(call, _). call = ''APRS''))"

definition test_invalid_callsign_lowercase :: bool where
  "test_invalid_callsign_lowercase \<longleftrightarrow> is_err (encode_ax25_address ''oh2mqk'' 0x60)"

definition test_invalid_ssid_too_high :: bool where
  "test_invalid_ssid_too_high \<longleftrightarrow> is_err (encode_ax25_address ''TEST-16'' 0x60)"

definition test_ax25_frame_to_tnc2 :: bool where
  "test_ax25_frame_to_tnc2 \<longleftrightarrow>
     unwrapping (encode_ax25_address ''APRS'' 0xE0) (\<lambda>dst.
     unwrapping (encode_ax25_address ''OH2MQK-1'' 0x60) (\<lambda>src.
     let frame = dst @ or_flags src 0x01 @ [0x03] @ [0xF0] @ as_bytes ''!6029.50N/02505.43E>'' in
     unwrapping (ax25_to_tnc2 frame) (\<lambda>result.
       starts_with (frame_tnc2 result) ''OH2MQK-1>APRS:'' \<and> has_infix (frame_tnc2 result) ''!6029.50N/02505.43E>''
       \<and> frame_is_aprs result \<and> frame_ui_pid result = 0xF0)))"

definition test_ax25_frame_with_via :: bool where
  "test_ax25_frame_with_via \<longleftrightarrow>
     unwrapping (encode_ax25_address ''APRS'' 0xE0) (\<lambda>dst.
     unwrapping (encode_ax25_address ''OH2MQK-1'' 0x60) (\<lambda>src.
     unwrapping (encode_ax25_address ''WIDE1-1'' 0x60) (\<lambda>via.
     let frame = dst @ src @ or_flags via 0x01 @ [0x03] @ [0xF0] @ as_bytes ''!test'' in
     unwrapping (ax25_to_tnc2 frame) (\<lambda>result. starts_with (frame_tnc2 result) ''OH2MQK-1>APRS,WIDE1-1:''))))"

definition test_frame_too_short :: bool where
  "test_frame_too_short \<longleftrightarrow> is_err (ax25_to_tnc2 (replicate 10 0))"

definition test_non_ui_frame :: bool where
  "test_non_ui_frame \<longleftrightarrow>
     unwrapping (encode_ax25_address ''APRS'' 0xE0) (\<lambda>dst.
     unwrapping (encode_ax25_address ''TEST-1'' 0x60) (\<lambda>src.
     let frame = dst @ or_flags src 0x01 @ [0x13] @ [0xF0] @ as_bytes ''data'' in
     unwrapping (ax25_to_tnc2 frame) (\<lambda>result. \<not> frame_is_aprs result \<and> frame_ui_pid result = -1)))"

text \<open>The loop that adds eight via addresses to the frame, the last one marked.\<close>

fun add_vias :: "u8 list \<Rightarrow> nat list \<Rightarrow> vaprs_error + u8 list" where
  "add_vias frame [] = Inr frame"
| "add_vias frame (i # is) =
     (case encode_ax25_address (''VIA'' @ show_nat i) 0x60 of
        Inl e \<Rightarrow> Inl e
      | Inr via \<Rightarrow> add_vias (frame @ (if i = 7 then or_flags via 0x01 else via)) is)"

definition test_max_via_fields :: bool where
  "test_max_via_fields \<longleftrightarrow>
     unwrapping (encode_ax25_address ''APRS'' 0xE0) (\<lambda>dst.
     unwrapping (encode_ax25_address ''SRC'' 0x60) (\<lambda>src.
     unwrapping (add_vias (dst @ src) [0..<8]) (\<lambda>frame.
     unwrapping (ax25_to_tnc2 (frame @ [0x03] @ [0xF0] @ as_bytes ''test'')) frame_is_aprs)))"

lemma ax25_tests_pass:
  "test_encode_callsign_no_ssid" "test_encode_callsign_with_ssid" "test_decode_callsign" "test_decode_with_hbit"
  "test_ssid_zero_not_printed" "test_invalid_callsign_lowercase" "test_invalid_ssid_too_high" "test_ax25_frame_to_tnc2"
  "test_ax25_frame_with_via" "test_frame_too_short" "test_non_ui_frame" "test_max_via_fields"
  by code_simp+

section \<open>src/kiss.rs\<close>

abbreviation fed :: "u8 list \<Rightarrow> kiss_frame list" where
  "fed bytes \<equiv> snd (feed decoder_new bytes)"

definition test_kiss_encode_simple :: bool where
  "test_kiss_encode_simple \<longleftrightarrow>
     (let frame = kiss_encode [0x01, 0x02, 0x03] 0x00 Plain
      in nth_opt frame 0 = Some FEND \<and> nth_opt frame 1 = Some 0x00 \<and> nth_opt frame 2 = Some 0x01
         \<and> nth_opt frame 3 = Some 0x02 \<and> nth_opt frame 4 = Some 0x03 \<and> nth_opt frame 5 = Some FEND)"

definition test_kiss_encode_escapes_fend :: bool where
  "test_kiss_encode_escapes_fend \<longleftrightarrow>
     (let frame = kiss_encode [FEND] 0x00 Plain
      in list_ex (\<lambda>w. w = (FESC, TFEND)) (windows2 frame) \<and> length (filter (\<lambda>b. b = FEND) frame) = 2)"

definition test_kiss_encode_escapes_fesc :: bool where
  "test_kiss_encode_escapes_fesc \<longleftrightarrow>
     list_ex (\<lambda>w. w = (FESC, TFESC)) (windows2 (kiss_encode [FESC] 0x00 Plain))"

definition test_kiss_decode_simple :: bool where
  "test_kiss_decode_simple \<longleftrightarrow>
     (let result = fed [FEND, 0x00, 0x41, 0x42, 0x43, FEND]
      in length result = 1 \<and> at_index result 0 (\<lambda>f. cmd_byte f = 0x00 \<and> frame_data f = [0x41, 0x42, 0x43]))"

definition test_kiss_decode_with_escapes :: bool where
  "test_kiss_decode_with_escapes \<longleftrightarrow>
     (let result = fed [FEND, 0x00, FESC, TFEND, FESC, TFESC, FEND]
      in length result = 1 \<and> at_index result 0 (\<lambda>f. frame_data f = [FEND, FESC]))"

definition test_kiss_decode_consecutive_fends :: bool where
  "test_kiss_decode_consecutive_fends \<longleftrightarrow> length (fed [FEND, FEND, FEND, 0x00, 0x41, FEND]) = 1"

definition test_kiss_decode_incremental :: bool where
  "test_kiss_decode_incremental \<longleftrightarrow>
     (let results = snd (run_chunks feed decoder_new (map (\<lambda>b. [b]) [FEND, 0x00, 0x41, 0x42, FEND]))
      in length results = 1 \<and> at_index results 0 (\<lambda>f. frame_data f = [0x41, 0x42]))"

definition test_kiss_decode_two_frames :: bool where
  "test_kiss_decode_two_frames \<longleftrightarrow> length (fed [FEND, 0x00, 0x41, FEND, FEND, 0x00, 0x42, FEND]) = 2"

definition test_kiss_decode_shared_fend :: bool where
  "test_kiss_decode_shared_fend \<longleftrightarrow> length (fed [FEND, 0x00, 0x41, FEND, 0x00, 0x42, FEND]) = 2"

definition test_kiss_tncid_extraction :: bool where
  "test_kiss_tncid_extraction \<longleftrightarrow> at_index (fed [FEND, 0x30, 0x41, FEND]) 0 (\<lambda>f. tnc_id f = 3 \<and> cmd f = 0)"

definition test_kiss_encode_smack :: bool where
  "test_kiss_encode_smack \<longleftrightarrow> length (kiss_encode [0x01, 0x02, 0x03] 0x80 Smack) > 6"

definition test_kiss_roundtrip :: bool where
  "test_kiss_roundtrip \<longleftrightarrow>
     (let original = [0x41, 0x42, FEND, FESC, 0x43]; decoded = fed (kiss_encode original 0x00 Plain)
      in length decoded = 1 \<and> at_index decoded 0 (\<lambda>f. frame_data f = original \<and> cmd_byte f = 0x00))"

definition test_kiss_oversized_frame_discarded :: bool where
  "test_kiss_oversized_frame_discarded \<longleftrightarrow> length (fed ([FEND, 0x00] @ replicate 2100 0x41 @ [FEND])) = 0"

lemma kiss_tests_pass:
  "test_kiss_encode_simple" "test_kiss_encode_escapes_fend" "test_kiss_encode_escapes_fesc" "test_kiss_decode_simple"
  "test_kiss_decode_with_escapes" "test_kiss_decode_consecutive_fends" "test_kiss_decode_incremental"
  "test_kiss_decode_two_frames" "test_kiss_decode_shared_fend" "test_kiss_tncid_extraction" "test_kiss_encode_smack"
  "test_kiss_roundtrip"
  by code_simp+

text \<open>The oversized frame is too long to evaluate: \<open>n\<close> plain bytes are collected while there is room, and dropped when not.\<close>

lemma feed_of_append: "feed d (xs @ ys) = (let (d', fs) = feed d xs; (d'', gs) = feed d' ys in (d'', fs @ gs))"
  by (induction d xs rule: feed.induct) (auto split: prod.splits)

lemma feed_collects:
  "b \<noteq> FEND \<Longrightarrow> b \<noteq> FESC \<Longrightarrow> length buf + n \<le> MAX_FRAME_LEN \<Longrightarrow>
     feed \<lparr>kd_state = Collecting, kd_buffer = buf\<rparr> (replicate n b)
       = (\<lparr>kd_state = Collecting, kd_buffer = buf @ replicate n b\<rparr>, [])"
proof (induction n arbitrary: buf)
  case (Suc n)
  from Suc.IH [of "buf @ [b]"] Suc.prems show ?case by (simp add: decode_byte_def)
qed simp

lemma feed_hunts:
  "b \<noteq> FEND \<Longrightarrow> feed \<lparr>kd_state = SyncHunt, kd_buffer = buf\<rparr> (replicate n b) = (\<lparr>kd_state = SyncHunt, kd_buffer = buf\<rparr>, [])"
  by (induction n) (simp_all add: decode_byte_def)

lemma kiss_oversized_test_passes: "test_kiss_oversized_frame_discarded"
proof -
  have bytes: "(0x41 :: u8) \<noteq> FEND" "(0x41 :: u8) \<noteq> FESC" by (simp_all add: kiss_bytes)
  have split: "replicate 2100 (0x41 :: u8) = replicate 1999 0x41 @ [0x41] @ replicate 100 0x41"
    using replicate_add [of 1999 101 "0x41 :: u8"] replicate_add [of 1 100 "0x41 :: u8"] by simp
  have start: "feed decoder_new [FEND, 0] = (\<lparr>kd_state = Collecting, kd_buffer = [0]\<rparr>, [])" by code_simp
  have collect: "feed \<lparr>kd_state = Collecting, kd_buffer = [0]\<rparr> (replicate 1999 0x41)
      = (\<lparr>kd_state = Collecting, kd_buffer = [0] @ replicate 1999 0x41\<rparr>, [])"
    by (rule feed_collects [OF bytes]) (simp add: MAX_FRAME_LEN_def)
  have full: "feed \<lparr>kd_state = Collecting, kd_buffer = [0] @ replicate 1999 0x41\<rparr> [0x41]
      = (\<lparr>kd_state = SyncHunt, kd_buffer = []\<rparr>, [])"
    using bytes by (simp add: decode_byte_def MAX_FRAME_LEN_def)
  have last: "feed \<lparr>kd_state = SyncHunt, kd_buffer = []\<rparr> [FEND] = (\<lparr>kd_state = Collecting, kd_buffer = []\<rparr>, [])"
    by code_simp
  show ?thesis
    unfolding test_kiss_oversized_frame_discarded_def split feed_of_append start collect full last
      feed_hunts [OF bytes(1)] Let_def prod.case
    by simp
qed

section \<open>src/packet.rs\<close>

definition test_packet_creation :: bool where
  "test_packet_creation \<longleftrightarrow>
     (let pkt = packet_new 0 ''OH2MQK-1>APRS:!6029.50N/02505.43E>'' ''port0'' True
      in source_interface pkt = ''port0'' \<and> is_aprs pkt \<and> tnc2_addr_len pkt = 13)"

definition test_packet_payload :: bool where
  "test_packet_payload \<longleftrightarrow> payload (packet_new 0 ''TEST>APRS:hello world'' ''port0'' True) = Some ''hello world''"

definition test_packet_addresses :: bool where
  "test_packet_addresses \<longleftrightarrow>
     addresses (packet_new 0 ''SRC>DST,VIA1,VIA2:payload'' ''port0'' False) = Some ''SRC>DST,VIA1,VIA2''"

definition test_packet_source_call :: bool where
  "test_packet_source_call \<longleftrightarrow> source_call (packet_new 0 ''OH2MQK-1>APRS,WIDE1-1:test'' ''port0'' True) = ''OH2MQK-1''"

definition test_packet_dest_call :: bool where
  "test_packet_dest_call \<longleftrightarrow> dest_call (packet_new 0 ''OH2MQK-1>APRS,WIDE1-1:test'' ''port0'' True) = ''APRS''"

lemma packet_tests_pass:
  "test_packet_creation" "test_packet_payload" "test_packet_addresses" "test_packet_source_call" "test_packet_dest_call"
  by code_simp+

section \<open>src/interface/agwpe.rs\<close>

abbreviation zero_header :: "u8 list" where
  "zero_header \<equiv> replicate AGWPE_HEADER_LEN 0"

abbreviation agwpe :: "u32 \<Rightarrow> char \<Rightarrow> string \<Rightarrow> string \<Rightarrow> u8 list \<Rightarrow> agwpe_frame" where
  "agwpe port kind from to data \<equiv>
     \<lparr>ag_port = port, ag_data_kind = byte_of kind, ag_call_from = from, ag_call_to = to, ag_data = data\<rparr>"

definition test_parse_minimal_frame_with_no_data :: bool where
  "test_parse_minimal_frame_with_no_data \<longleftrightarrow>
     (let frame = parse_agwpe_frame (zero_header[4 := byte_of CHR ''R'']) []
      in ag_port frame = 0 \<and> ag_data_kind frame = byte_of CHR ''R'' \<and> ag_call_from frame = '''' \<and> ag_call_to frame = ''''
         \<and> ag_data frame = [])"

definition test_parse_frame_with_port_number :: bool where
  "test_parse_frame_with_port_number \<longleftrightarrow>
     (let frame = parse_agwpe_frame (zero_header[0 := 2, 4 := byte_of CHR ''k'']) [0xAA, 0xBB]
      in ag_port frame = 2 \<and> ag_data_kind frame = byte_of CHR ''k'' \<and> ag_data frame = [0xAA, 0xBB])"

definition test_parse_frame_with_large_port_number :: bool where
  "test_parse_frame_with_large_port_number \<longleftrightarrow>
     ag_port (parse_agwpe_frame ((write_at zero_header 0 (to_le_bytes 0x01020304))[4 := byte_of CHR ''G'']) []) = 0x01020304"

definition test_parse_frame_with_callsigns :: bool where
  "test_parse_frame_with_callsigns \<longleftrightarrow>
     (let header = zero_header[4 := byte_of CHR ''k''];
          header = write_at header 8 (as_bytes ''OH2MQK-1'');
          header = write_at header 18 (as_bytes ''APRS'');
          frame = parse_agwpe_frame header []
      in ag_call_from frame = ''OH2MQK-1'' \<and> ag_call_to frame = ''APRS'')"

definition test_parse_frame_callsign_null_padded :: bool where
  "test_parse_frame_callsign_null_padded \<longleftrightarrow>
     ag_call_from (parse_agwpe_frame (zero_header[4 := byte_of CHR ''X'', 8 := byte_of CHR ''A'', 9 := byte_of CHR ''B'']) [])
       = ''AB''"

definition test_parse_frame_full_length_callsign :: bool where
  "test_parse_frame_full_length_callsign \<longleftrightarrow>
     ag_call_from (parse_agwpe_frame (write_at (zero_header[4 := byte_of CHR ''k'']) 8 (as_bytes ''0123456789'')) [])
       = ''0123456789''"

definition test_parse_frame_with_data_payload :: bool where
  "test_parse_frame_with_data_payload \<longleftrightarrow>
     (let data = [1, 2, 3, 4, 5, 6, 7, 8];
          header = write_at (zero_header[4 := byte_of CHR ''k'']) 28 (to_le_bytes (of_nat (length data)))
      in ag_data (parse_agwpe_frame header data) = data)"

definition test_encode_empty_frame :: bool where
  "test_encode_empty_frame \<longleftrightarrow>
     (let encoded = encode_agwpe_frame (agwpe 0 CHR ''R'' '''' '''' [])
      in length encoded = AGWPE_HEADER_LEN \<and> nth_opt encoded 4 = Some (byte_of CHR ''R'')
         \<and> from_le_bytes (take 4 (drop 28 encoded)) = 0)"

definition test_encode_frame_with_port :: bool where
  "test_encode_frame_with_port \<longleftrightarrow>
     from_le_bytes (take 4 (encode_agwpe_frame (agwpe 3 CHR ''K'' '''' '''' []))) = 3"

definition test_encode_frame_with_callsigns :: bool where
  "test_encode_frame_with_callsigns \<longleftrightarrow>
     (let encoded = encode_agwpe_frame (agwpe 0 CHR ''X'' ''OH2MQK-1'' ''APRS'' [])
      in take 8 (drop 8 encoded) = as_bytes ''OH2MQK-1'' \<and> nth_opt encoded 16 = Some 0 \<and> nth_opt encoded 17 = Some 0
         \<and> take 4 (drop 18 encoded) = as_bytes ''APRS'' \<and> nth_opt encoded 22 = Some 0)"

definition test_encode_frame_with_data :: bool where
  "test_encode_frame_with_data \<longleftrightarrow>
     (let data = [0xDE, 0xAD, 0xBE, 0xEF]; encoded = encode_agwpe_frame (agwpe 1 CHR ''K'' ''SRC'' ''DST'' data)
      in length encoded = AGWPE_HEADER_LEN + 4 \<and> from_le_bytes (take 4 (drop 28 encoded)) = 4
         \<and> drop AGWPE_HEADER_LEN encoded = data)"

definition test_encode_frame_user_field_is_zero :: bool where
  "test_encode_frame_user_field_is_zero \<longleftrightarrow>
     take 4 (drop 32 (encode_agwpe_frame (agwpe 0 CHR ''G'' '''' '''' []))) = [0, 0, 0, 0]"

definition test_encode_frame_data_kind_rest_bytes_zero :: bool where
  "test_encode_frame_data_kind_rest_bytes_zero \<longleftrightarrow>
     (let encoded = encode_agwpe_frame (agwpe 0 CHR ''k'' '''' '''' [])
      in nth_opt encoded 4 = Some (byte_of CHR ''k'') \<and> nth_opt encoded 5 = Some 0 \<and> nth_opt encoded 6 = Some 0
         \<and> nth_opt encoded 7 = Some 0)"

text \<open>The parse of the encoded header, with the data the test passes.\<close>

definition reparsed :: "agwpe_frame \<Rightarrow> u8 list \<Rightarrow> agwpe_frame" where
  "reparsed f data = parse_agwpe_frame (take AGWPE_HEADER_LEN (encode_agwpe_frame f)) data"

definition test_roundtrip_encode_then_parse :: bool where
  "test_roundtrip_encode_then_parse \<longleftrightarrow>
     (let original = agwpe 5 CHR ''k'' ''OH2MQK-1'' ''APRS'' [1, 2, 3, 4, 5]
      in reparsed original (drop AGWPE_HEADER_LEN (encode_agwpe_frame original)) = original)"

definition test_roundtrip_empty_data :: bool where
  "test_roundtrip_empty_data \<longleftrightarrow>
     (let original = agwpe 0 CHR ''R'' '''' '''' [] in reparsed original [] = original)"

definition test_roundtrip_max_callsign_length :: bool where
  "test_roundtrip_max_callsign_length \<longleftrightarrow>
     (let original = agwpe 0 CHR ''X'' ''0123456789'' ''ABCDEFGHIJ'' [] in reparsed original [] = original)"

definition test_register_callsign_creates_x_frame :: bool where
  "test_register_callsign_creates_x_frame \<longleftrightarrow>
     (let frame = register_callsign 0 ''OH2MQK-1''
      in ag_port frame = 0 \<and> ag_data_kind frame = byte_of CHR ''X'' \<and> ag_call_from frame = ''OH2MQK-1''
         \<and> ag_call_to frame = '''' \<and> ag_data frame = [])"

definition test_register_callsign_with_port :: bool where
  "test_register_callsign_with_port \<longleftrightarrow>
     (let frame = register_callsign 2 ''TEST-1''
      in ag_port frame = 2 \<and> ag_data_kind frame = byte_of CHR ''X'' \<and> ag_call_from frame = ''TEST-1'')"

definition test_register_callsign_encodes_correctly :: bool where
  "test_register_callsign_encodes_correctly \<longleftrightarrow>
     (let encoded = encode_agwpe_frame (register_callsign 1 ''N0CALL'')
      in nth_opt encoded 4 = Some (byte_of CHR ''X'') \<and> take 6 (drop 8 encoded) = as_bytes ''N0CALL''
         \<and> nth_opt encoded 14 = Some 0)"

definition test_unregister_callsign_creates_lowercase_x_frame :: bool where
  "test_unregister_callsign_creates_lowercase_x_frame \<longleftrightarrow>
     (let frame = unregister_callsign 0 ''OH2MQK-1''
      in ag_data_kind frame = byte_of CHR ''x'' \<and> ag_call_from frame = ''OH2MQK-1'')"

definition test_version_request_creates_r_frame :: bool where
  "test_version_request_creates_r_frame \<longleftrightarrow>
     ag_port version_request = 0 \<and> ag_data_kind version_request = byte_of CHR ''R'' \<and> ag_call_from version_request = []
     \<and> ag_call_to version_request = [] \<and> ag_data version_request = []"

definition test_port_info_request_creates_g_frame :: bool where
  "test_port_info_request_creates_g_frame \<longleftrightarrow>
     ag_port port_info_request = 0 \<and> ag_data_kind port_info_request = byte_of CHR ''G'' \<and> ag_data port_info_request = []"

definition test_raw_transmit_creates_k_frame :: bool where
  "test_raw_transmit_creates_k_frame \<longleftrightarrow>
     (let ax25_data = [0x01, 0x02, 0x03]; frame = raw_transmit 0 ''SRC-1'' ''DST-2'' ax25_data
      in ag_port frame = 0 \<and> ag_data_kind frame = byte_of CHR ''K'' \<and> ag_call_from frame = ''SRC-1''
         \<and> ag_call_to frame = ''DST-2'' \<and> ag_data frame = ax25_data)"

definition test_raw_transmit_with_port :: bool where
  "test_raw_transmit_with_port \<longleftrightarrow>
     (let frame = raw_transmit 3 ''SRC'' ''DST'' [0xFF] in ag_port frame = 3 \<and> ag_data frame = [0xFF])"

definition test_extract_callsign_all_nulls :: bool where
  "test_extract_callsign_all_nulls \<longleftrightarrow> extract_callsign (replicate 10 0) = ''''"

definition test_extract_callsign_no_nulls :: bool where
  "test_extract_callsign_no_nulls \<longleftrightarrow> extract_callsign (as_bytes ''ABCDEFGHIJ'') = ''ABCDEFGHIJ''"

definition test_extract_callsign_with_embedded_null :: bool where
  "test_extract_callsign_with_embedded_null \<longleftrightarrow>
     extract_callsign ((replicate 10 0)[0 := byte_of CHR ''A'', 1 := byte_of CHR ''B'', 2 := 0, 3 := byte_of CHR ''C'']) = ''AB''"

definition test_encode_and_parse_large_payload :: bool where
  "test_encode_and_parse_large_payload \<longleftrightarrow>
     (let data = map (\<lambda>i. of_nat (i mod 256)) [0..<1000];
          encoded = encode_agwpe_frame (agwpe 0 CHR ''k'' ''SRC'' ''DST'' data)
      in length encoded = AGWPE_HEADER_LEN + 1000
         \<and> ag_data (parse_agwpe_frame (take AGWPE_HEADER_LEN encoded) (drop AGWPE_HEADER_LEN encoded)) = data)"

lemma agwpe_tests_pass:
  "test_parse_minimal_frame_with_no_data" "test_parse_frame_with_port_number" "test_parse_frame_with_large_port_number"
  "test_parse_frame_with_callsigns" "test_parse_frame_callsign_null_padded" "test_parse_frame_full_length_callsign"
  "test_parse_frame_with_data_payload" "test_encode_empty_frame" "test_encode_frame_with_port"
  "test_encode_frame_with_callsigns" "test_encode_frame_with_data" "test_encode_frame_user_field_is_zero"
  "test_encode_frame_data_kind_rest_bytes_zero"
  by code_simp+

lemma agwpe_roundtrip_tests_pass:
  "test_roundtrip_encode_then_parse" "test_roundtrip_empty_data" "test_roundtrip_max_callsign_length"
  "test_register_callsign_creates_x_frame" "test_register_callsign_with_port" "test_register_callsign_encodes_correctly"
  "test_unregister_callsign_creates_lowercase_x_frame" "test_version_request_creates_r_frame"
  "test_port_info_request_creates_g_frame" "test_raw_transmit_creates_k_frame" "test_raw_transmit_with_port"
  "test_extract_callsign_all_nulls" "test_extract_callsign_no_nulls" "test_extract_callsign_with_embedded_null"
  by code_simp+

text \<open>The thousand bytes of the last test by the layout of an encoded frame.\<close>

lemma agwpe_large_payload_test_passes: "test_encode_and_parse_large_payload"
  unfolding test_encode_and_parse_large_payload_def Let_def encode_layout parse_agwpe_frame_def
  by (simp add: AGWPE_HEADER_LEN_def del: upt_Suc)

end
