(* ===== verification/Tests_Text.thy ===== *)
theory Tests_Text
  imports Tests_Base Parse_Aprs Config Logging Telemetry
begin

text \<open>
  The unit tests of the text formats: \<open>src/parse_aprs.rs\<close>, \<open>src/dprsgw.rs\<close>, \<open>src/config.rs\<close> (from the values the
  TOML parser gives), \<open>src/logging.rs\<close> and \<open>src/telemetry.rs\<close>.
\<close>

section \<open>src/parse_aprs.rs\<close>

fun approx_eq :: "float_val \<Rightarrow> rat \<Rightarrow> rat \<Rightarrow> bool" where
  "approx_eq (Fin a) b epsilon \<longleftrightarrow> \<bar>a - b\<bar> < epsilon"
| "approx_eq _ b epsilon \<longleftrightarrow> False"

text \<open>A coordinate parser that returns a value, or none.\<close>

definition coordinate_is :: "float_val option may_panic \<Rightarrow> rat \<Rightarrow> bool" where
  "coordinate_is r x \<longleftrightarrow> some_of r (\<lambda>r. some_of r (\<lambda>v. approx_eq v x 0.001))"

text \<open>The definitions a test on coordinates evaluates; \<open>code_simp\<close> cannot compute on rationals.\<close>

lemmas parser_eval = parse_aprs_def parse_position_def parse_position_with_timestamp_def maybe_compressed_def
  compressed_or_not_def parse_uncompressed_position_def parse_object_def parse_item_def coordinates_at_def
  parse_latitude_def parse_longitude_def extract_position_def try_parse_compressed_def decode_base91_4_def
  str_slice_def str_from_def str_to_def is_char_boundary_def is_cont_def or_none_def or_unknown_def
  parse_f64_def parse_decimal_def digits_nat_def is_ascii_digit_def ascii_lower_def is_ascii_uppercase_def Let_def
  some_of_def coordinate_is_def

definition test_parse_latitude_north :: bool where
  "test_parse_latitude_north \<longleftrightarrow> coordinate_is (parse_latitude ''4903.50N'') 49.058333"
definition test_parse_latitude_south :: bool where
  "test_parse_latitude_south \<longleftrightarrow> coordinate_is (parse_latitude ''3351.00S'') (-33.85)"
definition test_parse_latitude_zero :: bool where
  "test_parse_latitude_zero \<longleftrightarrow> coordinate_is (parse_latitude ''0000.00N'') 0"
definition test_parse_latitude_max_north :: bool where
  "test_parse_latitude_max_north \<longleftrightarrow> coordinate_is (parse_latitude ''9000.00N'') 90"
definition test_parse_latitude_too_short :: bool where
  "test_parse_latitude_too_short \<longleftrightarrow> parse_latitude ''4903.5'' = Some None"
definition test_parse_latitude_invalid_hemisphere :: bool where
  "test_parse_latitude_invalid_hemisphere \<longleftrightarrow> parse_latitude ''4903.50X'' = Some None"
definition test_parse_latitude_invalid_degrees :: bool where
  "test_parse_latitude_invalid_degrees \<longleftrightarrow> parse_latitude ''9100.00N'' = Some None"
definition test_parse_latitude_invalid_minutes :: bool where
  "test_parse_latitude_invalid_minutes \<longleftrightarrow> parse_latitude ''4960.00N'' = Some None"
definition test_parse_latitude_non_numeric :: bool where
  "test_parse_latitude_non_numeric \<longleftrightarrow> parse_latitude ''ABCD.EFN'' = Some None"

definition test_parse_longitude_west :: bool where
  "test_parse_longitude_west \<longleftrightarrow> coordinate_is (parse_longitude ''07201.75W'') (-72.029167)"
definition test_parse_longitude_east :: bool where
  "test_parse_longitude_east \<longleftrightarrow> coordinate_is (parse_longitude ''02505.43E'') 25.0905"
definition test_parse_longitude_zero :: bool where
  "test_parse_longitude_zero \<longleftrightarrow> coordinate_is (parse_longitude ''00000.00E'') 0"
definition test_parse_longitude_max_east :: bool where
  "test_parse_longitude_max_east \<longleftrightarrow> coordinate_is (parse_longitude ''18000.00E'') 180"
definition test_parse_longitude_too_short :: bool where
  "test_parse_longitude_too_short \<longleftrightarrow> parse_longitude ''07201.7'' = Some None"
definition test_parse_longitude_invalid_hemisphere :: bool where
  "test_parse_longitude_invalid_hemisphere \<longleftrightarrow> parse_longitude ''07201.75X'' = Some None"
definition test_parse_longitude_invalid_degrees :: bool where
  "test_parse_longitude_invalid_degrees \<longleftrightarrow> parse_longitude ''18100.00E'' = Some None"
definition test_parse_longitude_invalid_minutes :: bool where
  "test_parse_longitude_invalid_minutes \<longleftrightarrow> parse_longitude ''07260.00W'' = Some None"
definition test_parse_longitude_non_numeric :: bool where
  "test_parse_longitude_non_numeric \<longleftrightarrow> parse_longitude ''ABCDE.FGE'' = Some None"

lemma coordinate_tests_pass:
  "test_parse_latitude_north" "test_parse_latitude_south" "test_parse_latitude_zero" "test_parse_latitude_max_north"
  "test_parse_latitude_invalid_hemisphere" "test_parse_latitude_invalid_degrees"
  by (simp_all add: parser_eval
      test_parse_latitude_north_def test_parse_latitude_south_def test_parse_latitude_zero_def
      test_parse_latitude_max_north_def test_parse_latitude_invalid_hemisphere_def
      test_parse_latitude_invalid_degrees_def)

lemma coordinate_tests_pass_2:
  "test_parse_latitude_invalid_minutes" "test_parse_latitude_non_numeric" "test_parse_longitude_west"
  "test_parse_longitude_east" "test_parse_longitude_zero" "test_parse_longitude_max_east"
  by (simp_all add: parser_eval
      test_parse_latitude_invalid_minutes_def test_parse_latitude_non_numeric_def test_parse_longitude_west_def
      test_parse_longitude_east_def test_parse_longitude_zero_def test_parse_longitude_max_east_def)

lemma coordinate_tests_pass_3:
  "test_parse_longitude_invalid_hemisphere" "test_parse_longitude_invalid_degrees"
  "test_parse_longitude_invalid_minutes" "test_parse_longitude_non_numeric"
  by (simp_all add: parser_eval
      test_parse_longitude_invalid_hemisphere_def test_parse_longitude_invalid_degrees_def
      test_parse_longitude_invalid_minutes_def test_parse_longitude_non_numeric_def)

lemma coordinate_tests_pass_4:
  "test_parse_latitude_too_short" "test_parse_longitude_too_short"
  by code_simp+

definition test_parse_position_without_timestamp_bang :: bool where
  "test_parse_position_without_timestamp_bang \<longleftrightarrow>
     (case parse_aprs ''!4903.50N/07201.75W-'' of
        Some (Position lat lon symbol_table symbol_code _) \<Rightarrow>
          approx_eq lat 49.058333 0.001 \<and> approx_eq lon (-72.029167) 0.001
          \<and> symbol_table = CHR ''/'' \<and> symbol_code = CHR ''-''
      | _ \<Rightarrow> False)"

definition test_parse_position_without_timestamp_equals :: bool where
  "test_parse_position_without_timestamp_equals \<longleftrightarrow>
     (case parse_aprs ''=4903.50N/07201.75W-'' of
        Some (Position lat lon _ _ _) \<Rightarrow> approx_eq lat 49.058333 0.001 \<and> approx_eq lon (-72.029167) 0.001
      | _ \<Rightarrow> False)"

definition test_parse_position_with_comment :: bool where
  "test_parse_position_with_comment \<longleftrightarrow>
     (case parse_aprs ''!4903.50N/07201.75W-PHG2360/Test station'' of
        Some (Position _ _ _ _ comment) \<Rightarrow> comment = Some ''PHG2360/Test station''
      | _ \<Rightarrow> False)"

definition test_parse_position_no_comment :: bool where
  "test_parse_position_no_comment \<longleftrightarrow>
     (case parse_aprs ''!4903.50N/07201.75W-'' of Some (Position _ _ _ _ comment) \<Rightarrow> comment = None | _ \<Rightarrow> False)"

definition test_parse_position_alternate_symbol_table :: bool where
  "test_parse_position_alternate_symbol_table \<longleftrightarrow>
     (case parse_aprs (''!4903.50N'' @ [CHR 0x5C] @ ''07201.75WE'') of
        Some (Position _ _ symbol_table symbol_code _) \<Rightarrow> symbol_table = CHR 0x5C \<and> symbol_code = CHR ''E''
      | _ \<Rightarrow> False)"

definition test_parse_position_with_timestamp_slash :: bool where
  "test_parse_position_with_timestamp_slash \<longleftrightarrow>
     (case parse_aprs ''/092345z4903.50N/07201.75W>'' of
        Some (Position lat lon _ symbol_code _) \<Rightarrow>
          approx_eq lat 49.058333 0.001 \<and> approx_eq lon (-72.029167) 0.001 \<and> symbol_code = CHR ''>''
      | _ \<Rightarrow> False)"

definition test_parse_position_with_timestamp_at :: bool where
  "test_parse_position_with_timestamp_at \<longleftrightarrow>
     (case parse_aprs ''@092345z4903.50N/07201.75W>'' of
        Some (Position lat lon _ _ _) \<Rightarrow> approx_eq lat 49.058333 0.001 \<and> approx_eq lon (-72.029167) 0.001
      | _ \<Rightarrow> False)"

definition test_parse_compressed_position :: bool where
  "test_parse_compressed_position \<longleftrightarrow>
     (case parse_aprs ''!/5L!!<*e7>7P['' of
        Some (Position _ _ symbol_table symbol_code _) \<Rightarrow> symbol_table = CHR ''/'' \<and> symbol_code = CHR ''>''
      | _ \<Rightarrow> False)"

lemma position_tests_pass:
  "test_parse_position_without_timestamp_bang" "test_parse_position_without_timestamp_equals"
  "test_parse_position_with_comment" "test_parse_position_no_comment" "test_parse_position_alternate_symbol_table"
  "test_parse_position_with_timestamp_slash"
  by (simp_all add: parser_eval
      test_parse_position_without_timestamp_bang_def test_parse_position_without_timestamp_equals_def
      test_parse_position_with_comment_def test_parse_position_no_comment_def
      test_parse_position_alternate_symbol_table_def test_parse_position_with_timestamp_slash_def)

lemma position_tests_pass_2:
  "test_parse_position_with_timestamp_at" "test_parse_compressed_position"
  by (simp_all add: parser_eval
      test_parse_position_with_timestamp_at_def test_parse_compressed_position_def)

definition test_parse_message_basic :: bool where
  "test_parse_message_basic \<longleftrightarrow>
     (case parse_aprs '':BLN1     :Test bulletin'' of
        Some (Message addressee text message_id) \<Rightarrow> addressee = ''BLN1'' \<and> text = ''Test bulletin'' \<and> message_id = None
      | _ \<Rightarrow> False)"

definition test_parse_message_with_id :: bool where
  "test_parse_message_with_id \<longleftrightarrow>
     (case parse_aprs '':OH2MQK-1 :Hello there{123'' of
        Some (Message addressee text message_id) \<Rightarrow>
          addressee = ''OH2MQK-1'' \<and> text = ''Hello there'' \<and> message_id = Some ''123''
      | _ \<Rightarrow> False)"

definition test_parse_message_empty_text :: bool where
  "test_parse_message_empty_text \<longleftrightarrow>
     (case parse_aprs '':TEST     :'' of
        Some (Message addressee text _) \<Rightarrow> addressee = ''TEST'' \<and> text = ''''
      | _ \<Rightarrow> False)"

definition test_parse_message_full_addressee :: bool where
  "test_parse_message_full_addressee \<longleftrightarrow>
     (case parse_aprs '':ABCDEFGHI:text'' of Some (Message addressee _ _) \<Rightarrow> addressee = ''ABCDEFGHI'' | _ \<Rightarrow> False)"

definition test_parse_message_too_short :: bool where
  "test_parse_message_too_short \<longleftrightarrow> parse_aprs '':SHORT'' = Some UnknownData"

definition test_parse_message_no_second_colon :: bool where
  "test_parse_message_no_second_colon \<longleftrightarrow> parse_aprs '':123456789X'' = Some UnknownData"

definition test_parse_message_with_ack :: bool where
  "test_parse_message_with_ack \<longleftrightarrow>
     (case parse_aprs '':OH2MQK-1 :ack123'' of Some (Message _ text _) \<Rightarrow> text = ''ack123'' | _ \<Rightarrow> False)"

definition test_parse_object_live :: bool where
  "test_parse_object_live \<longleftrightarrow>
     (case parse_aprs '';LEADER   *092345z4903.50N/07201.75W>'' of
        Some (Object name live lat lon) \<Rightarrow>
          name = ''LEADER'' \<and> live \<and> approx_eq lat 49.058333 0.001 \<and> approx_eq lon (-72.029167) 0.001
      | _ \<Rightarrow> False)"

definition test_parse_object_killed :: bool where
  "test_parse_object_killed \<longleftrightarrow>
     (case parse_aprs '';LEADER   _092345z4903.50N/07201.75W>'' of
        Some (Object name live _ _) \<Rightarrow> name = ''LEADER'' \<and> \<not> live
      | _ \<Rightarrow> False)"

definition test_parse_object_too_short :: bool where
  "test_parse_object_too_short \<longleftrightarrow> parse_aprs '';SHORT'' = Some UnknownData"

definition test_parse_object_invalid_live_kill :: bool where
  "test_parse_object_invalid_live_kill \<longleftrightarrow> parse_aprs '';LEADER   X092345z4903.50N/07201.75W>'' = Some UnknownData"

definition test_parse_object_full_name :: bool where
  "test_parse_object_full_name \<longleftrightarrow>
     (case parse_aprs '';ABCDEFGHI*092345z4903.50N/07201.75W>'' of
        Some (Object name _ _ _) \<Rightarrow> name = ''ABCDEFGHI''
      | _ \<Rightarrow> False)"

definition test_parse_item_live :: bool where
  "test_parse_item_live \<longleftrightarrow>
     (case parse_aprs '')AID #2!4903.50N/07201.75W>'' of
        Some (Item name live lat lon) \<Rightarrow>
          name = ''AID #2'' \<and> live \<and> approx_eq lat 49.058333 0.001 \<and> approx_eq lon (-72.029167) 0.001
      | _ \<Rightarrow> False)"

definition test_parse_item_killed :: bool where
  "test_parse_item_killed \<longleftrightarrow>
     (case parse_aprs '')AID #2_4903.50N/07201.75W>'' of
        Some (Item name live _ _) \<Rightarrow> name = ''AID #2'' \<and> \<not> live
      | _ \<Rightarrow> False)"

definition test_parse_item_short_name :: bool where
  "test_parse_item_short_name \<longleftrightarrow>
     (case parse_aprs '')AB!4903.50N/07201.75W>'' of Some (Item name _ _ _) \<Rightarrow> name = ''AB'' | _ \<Rightarrow> False)"

definition test_parse_item_too_short :: bool where
  "test_parse_item_too_short \<longleftrightarrow> parse_aprs '')A'' = Some UnknownData"

definition test_parse_item_no_separator :: bool where
  "test_parse_item_no_separator \<longleftrightarrow> parse_aprs '')ABCDEFGHIJ'' = Some UnknownData"

lemma object_names [simp]: "trim_end ''LEADER   '' = ''LEADER''" "trim_end ''ABCDEFGHI'' = ''ABCDEFGHI''"
  by code_simp+

lemma message_object_tests_pass:
  "test_parse_object_live" "test_parse_object_killed" "test_parse_object_full_name" "test_parse_item_live"
  "test_parse_item_killed" "test_parse_item_short_name"
  by (simp_all add: parser_eval
      test_parse_object_live_def test_parse_object_killed_def test_parse_object_full_name_def test_parse_item_live_def
      test_parse_item_killed_def test_parse_item_short_name_def)

lemma message_object_tests_pass_2:
  "test_parse_message_basic" "test_parse_message_with_id" "test_parse_message_empty_text"
  "test_parse_message_full_addressee" "test_parse_message_too_short" "test_parse_message_no_second_colon"
  "test_parse_message_with_ack" "test_parse_object_too_short" "test_parse_object_invalid_live_kill"
  "test_parse_item_too_short" "test_parse_item_no_separator"
  by code_simp+

definition test_parse_empty_payload :: bool where
  "test_parse_empty_payload \<longleftrightarrow> parse_aprs '''' = Some UnknownData"
definition test_parse_unknown_data_type :: bool where
  "test_parse_unknown_data_type \<longleftrightarrow> parse_aprs ''~test data'' = Some UnknownData"
definition test_parse_single_char_payload :: bool where
  "test_parse_single_char_payload \<longleftrightarrow> parse_aprs ''!'' = Some UnknownData"
definition test_parse_position_truncated :: bool where
  "test_parse_position_truncated \<longleftrightarrow> parse_aprs ''!4903.50N/072'' = Some UnknownData"

definition test_decode_base91_minimum_value :: bool where
  "test_decode_base91_minimum_value \<longleftrightarrow> decode_base91_4 ''!!!!'' = Some 0"
definition test_decode_base91_known_value :: bool where
  "test_decode_base91_known_value \<longleftrightarrow> some_of (decode_base91_4 ''5L!!'') (\<lambda>result. result > 0)"
definition test_decode_base91_too_short :: bool where
  "test_decode_base91_too_short \<longleftrightarrow> decode_base91_4 ''!!'' = None"
definition test_decode_base91_invalid_char :: bool where
  "test_decode_base91_invalid_char \<longleftrightarrow> decode_base91_4 '' !!!'' = None"
definition test_decode_base91_high_char_invalid :: bool where
  "test_decode_base91_high_char_invalid \<longleftrightarrow> decode_base91_4 ''}!!!'' = None"

definition test_parse_real_position_report :: bool where
  "test_parse_real_position_report \<longleftrightarrow>
     (case parse_aprs ''!6029.50N/02505.43E>PHG2360/RELAY,WIDE'' of
        Some (Position lat lon symbol_table symbol_code comment) \<Rightarrow>
          approx_eq lat 60.491667 0.001 \<and> approx_eq lon 25.0905 0.001 \<and> symbol_table = CHR ''/''
          \<and> symbol_code = CHR ''>'' \<and> comment = Some ''PHG2360/RELAY,WIDE''
      | _ \<Rightarrow> False)"

definition test_parse_real_message :: bool where
  "test_parse_real_message \<longleftrightarrow>
     (case parse_aprs '':BLN1     :Weather report for today'' of
        Some (Message addressee text _) \<Rightarrow> addressee = ''BLN1'' \<and> text = ''Weather report for today''
      | _ \<Rightarrow> False)"

definition test_extract_position_from_tnc2 :: bool where
  "test_extract_position_from_tnc2 \<longleftrightarrow>
     some_of (extract_position ''OH2MQK-1>APRS:!6029.50N/02505.43E>'') (\<lambda>r.
     some_of r (\<lambda>(lat, lon). approx_eq lat 60.491667 0.001 \<and> approx_eq lon 25.0905 0.001))"

definition test_extract_position_from_message :: bool where
  "test_extract_position_from_message \<longleftrightarrow> extract_position ''OH2MQK-1>APRS::BLN1     :test'' = Some None"

definition test_extract_position_no_payload :: bool where
  "test_extract_position_no_payload \<longleftrightarrow> extract_position ''OH2MQK-1>APRS'' = Some None"

lemma payload_tests_pass:
  "test_parse_real_position_report" "test_extract_position_from_tnc2"
  by (simp_all add: parser_eval
      test_parse_real_position_report_def test_extract_position_from_tnc2_def)

lemma base91_tests_pass:
  "test_decode_base91_minimum_value" "test_decode_base91_known_value" "test_decode_base91_too_short"
  "test_decode_base91_invalid_char" "test_decode_base91_high_char_invalid"
  by (simp_all add: decode_base91_4_def some_of_def test_decode_base91_minimum_value_def
      test_decode_base91_known_value_def test_decode_base91_too_short_def test_decode_base91_invalid_char_def
      test_decode_base91_high_char_invalid_def)

lemma payload_tests_pass_2:
  "test_parse_empty_payload" "test_parse_unknown_data_type" "test_parse_single_char_payload"
  "test_parse_position_truncated" "test_parse_real_message" "test_extract_position_from_message" "test_extract_position_no_payload"
  by code_simp+

end
