(* ===== verification/Tests_Formats.thy ===== *)
theory Tests_Formats
  imports Tests_Base Config Logging Telemetry
begin

text \<open>
  The unit tests of the formats that are printed: \<open>src/dprsgw.rs\<close>, \<open>src/config.rs\<close> (the locations, from the values
  the TOML parser gives for them), \<open>src/logging.rs\<close> (at a given time) and \<open>src/telemetry.rs\<close>. Coordinates are
  rationals, so they are printed in integers first.
\<close>

text \<open>Printing a coordinate given as a fraction, in integers.\<close>

lemma digit_chars:
  "digit_char 0 = CHR ''0''" "digit_char (Suc 0) = CHR ''1''" "digit_char 2 = CHR ''2''" "digit_char 3 = CHR ''3''"
  "digit_char 4 = CHR ''4''" "digit_char 5 = CHR ''5''" "digit_char 6 = CHR ''6''" "digit_char 7 = CHR ''7''"
  "digit_char 8 = CHR ''8''" "digit_char 9 = CHR ''9''"
  by code_simp+

lemma whole_frac: "whole (of_nat a / of_nat b) = a div b"
  by (metis floor_divide_of_nat_eq nat_int of_int_of_nat_eq whole_def)

lemma rest_frac: "0 < b \<Longrightarrow> of_nat a / of_nat b - of_nat (a div b) = (of_nat (a mod b) / of_nat b :: rat)"
proof -
  assume b: "0 < b"
  have "(of_nat a :: rat) = of_nat (a div b) * of_nat b + of_nat (a mod b)"
    by (metis of_nat_add of_nat_mult mult.commute mult_div_mod_eq)
  then show ?thesis using b by (simp add: field_simps)
qed

definition nearest :: "nat \<Rightarrow> nat \<Rightarrow> nat" where
  "nearest a b =
     (let n = a div b; r = 2 * (a mod b) in if r < b then n else if r > b then n + 1 else if even n then n else n + 1)"

lemma round_even_frac:
  assumes "0 < b"
  shows "round_even (of_nat a / of_nat b) = nearest a b"
proof -
  have "(of_nat (a mod b) :: rat) / of_nat b < 1 / 2 \<longleftrightarrow> of_nat (2 * (a mod b)) < (of_nat b :: rat)"
    "(of_nat (a mod b) :: rat) / of_nat b > 1 / 2 \<longleftrightarrow> of_nat (2 * (a mod b)) > (of_nat b :: rat)"
    using assms by (simp_all add: field_simps)
  then show ?thesis
    unfolding round_even_def nearest_def Let_def whole_frac [unfolded whole_def] rest_frac [OF assms] of_nat_less_iff
    by simp
qed

definition minutes_text :: "nat \<Rightarrow> string" where
  "minutes_text k = pad_left (CHR ''0'') 5 (show_nat (k div 100) @ ''.'' @ show_nat0 2 (k mod 100))"

lemma fixed2_frac: "0 < b \<Longrightarrow> fixed2 (of_nat a / of_nat b) = minutes_text (nearest (a * 100) b)"
  using round_even_frac [of b "a * 100"] by (simp add: fixed2_def minutes_text_def Let_def)

definition degrees_text :: "nat \<Rightarrow> nat \<Rightarrow> nat \<Rightarrow> string" where
  "degrees_text w a b = show_nat0 w (a div b) @ minutes_text (nearest (a mod b * 60 * 100) b)"

lemma degrees_frac:
  assumes "0 < b"
  shows "show_nat0 w (whole (of_nat a / of_nat b))
    @ fixed2 ((of_nat a / of_nat b - of_nat (whole (of_nat a / of_nat b))) * 60) = degrees_text w a b"
  unfolding whole_frac rest_frac [OF assms] degrees_text_def fixed2_frac [OF assms, symmetric] by simp

lemma text_frac:
  assumes "0 < b"
  shows "lat_text (of_nat a / of_nat b) = degrees_text 2 a b @ ''N''"
    and "lon_text (of_nat a / of_nat b) = degrees_text 3 a b @ ''E''"
    and "0 < a \<Longrightarrow> lat_text (- (of_nat a / of_nat b)) = degrees_text 2 a b @ ''S''"
    and "0 < a \<Longrightarrow> lon_text (- (of_nat a / of_nat b)) = degrees_text 3 a b @ ''W''"
proof -
  have abs: "\<bar>of_nat a / of_nat b :: rat\<bar> = of_nat a / of_nat b" "\<bar>- (of_nat a / of_nat b) :: rat\<bar> = of_nat a / of_nat b"
    and sign: "(0 :: rat) \<le> of_nat a / of_nat b" "0 < a \<Longrightarrow> \<not> (0 :: rat) \<le> - (of_nat a / of_nat b)"
    using assms by (simp_all add: not_le)
  note printed = lat_text_def lon_text_def Let_def abs append_assoc [symmetric] degrees_frac [OF assms]
  show "lat_text (of_nat a / of_nat b) = degrees_text 2 a b @ ''N''"
    and "lon_text (of_nat a / of_nat b) = degrees_text 3 a b @ ''E''"
    unfolding printed using sign(1) by (simp_all only: if_True)
  show "lat_text (- (of_nat a / of_nat b)) = degrees_text 2 a b @ ''S''"
    and "lon_text (- (of_nat a / of_nat b)) = degrees_text 3 a b @ ''W''" if "0 < a"
    unfolding printed using sign(2) [OF that] by (simp_all only: if_False)
qed

lemma replicates: "replicate 2 x = [x, x]" "replicate 3 x = [x, x, x]"
  by (simp_all add: numeral_2_eq_2 numeral_3_eq_3)

lemmas coord_print = degrees_text_def minutes_text_def nearest_def Let_def show_nat.simps show_nat0_def pad_left_def
  digit_chars replicates

section \<open>src/dprsgw.rs\<close>

definition test_dprs_to_aprs_north_east_position :: bool where
  "test_dprs_to_aprs_north_east_position \<longleftrightarrow>
     (let result = dprs_to_aprs ''OH2MQK-1'' 60.491667 25.090500 ''/'' ''>'' ''D-PRS''
      in starts_with result ''OH2MQK-1>APDPRS:!'' \<and> has_infix result ''6029.50N'' \<and> has_infix result ''02505.43E''
         \<and> has_infix result ''D-PRS'')"

definition test_dprs_to_aprs_south_west_position :: bool where
  "test_dprs_to_aprs_south_west_position \<longleftrightarrow>
     (let result = dprs_to_aprs ''VK2ABC'' (-33.85) (-151.21) ''/'' ''-'' '''' in CHR ''S'' \<in> set result \<and> CHR ''W'' \<in> set result)"

definition test_dprs_to_aprs_zero_position :: bool where
  "test_dprs_to_aprs_zero_position \<longleftrightarrow>
     (let result = dprs_to_aprs ''TEST'' 0 0 ''/'' ''/'' '''' in has_infix result ''0000.00N'' \<and> has_infix result ''00000.00E'')"

definition test_dprs_to_aprs_empty_comment :: bool where
  "test_dprs_to_aprs_empty_comment \<longleftrightarrow>
     (let result = dprs_to_aprs ''TEST'' 49.058333 (-72.029167) ''/'' ''>'' ''''
      in \<not> ends_with result '' '' \<and> has_infix result ''APDPRS'')"

definition test_dprs_to_aprs_with_comment :: bool where
  "test_dprs_to_aprs_with_comment \<longleftrightarrow>
     ends_with (dprs_to_aprs ''N0CALL'' 34.05 (-118.25) ''/'' ''>'' ''Los Angeles'') ''Los Angeles''"

definition test_dprs_to_aprs_symbol_placement :: bool where
  "test_dprs_to_aprs_symbol_placement \<longleftrightarrow>
     (let result = dprs_to_aprs ''TEST'' 49.058333 (-72.029167) ''/'' ''>'' '''' in
      some_of (nth_opt (str_split (\<lambda>c. c = CHR '':'') result) 1) (\<lambda>payload.
        starts_with payload ''!''
        \<and> some_of (str_find (\<lambda>c. c = CHR ''N'') payload) (\<lambda>n_pos. nth_opt payload (n_pos + 1) = Some CHR ''/'')))"

definition test_dprs_to_aprs_alternate_symbol_table :: bool where
  "test_dprs_to_aprs_alternate_symbol_table \<longleftrightarrow>
     (let result = dprs_to_aprs ''TEST'' 49 (-72) [CHR 0x5C] ''E'' '''' in
      some_of (nth_opt (str_split (\<lambda>c. c = CHR '':'') result) 1) (\<lambda>payload. CHR 0x5C \<in> set payload))"

definition test_dprs_to_aprs_destination_is_apdprs :: bool where
  "test_dprs_to_aprs_destination_is_apdprs \<longleftrightarrow> has_infix (dprs_to_aprs ''SRC'' 0 0 ''/'' ''/'' '''') ''>APDPRS:''"

definition test_dprs_to_aprs_negative_latitude :: bool where
  "test_dprs_to_aprs_negative_latitude \<longleftrightarrow>
     (let result = dprs_to_aprs ''ZL1ABC'' (-41.2865) 174.7762 ''/'' ''>'' ''''
      in CHR ''S'' \<in> set result \<and> has_infix result ''4117.19S'')"

definition test_dprs_to_aprs_negative_longitude :: bool where
  "test_dprs_to_aprs_negative_longitude \<longleftrightarrow>
     (let result = dprs_to_aprs ''W1AW'' 41.714775 (-72.727260) ''/'' ''>'' ''''
      in CHR ''W'' \<in> set result \<and> has_infix result ''07243.64W'')"

lemma dprs_latitudes:
  "lat_text 60.491667 = ''6029.50N''" "lat_text (-33.85) = ''3351.00S''" "lat_text 0 = ''0000.00N''"
  "lat_text 49.058333 = ''4903.50N''" "lat_text 34.05 = ''3403.00N''" "lat_text 49 = ''4900.00N''"
  "lat_text (-41.2865) = ''4117.19S''" "lat_text 41.714775 = ''4142.89N''"
  using text_frac(1) [of 1000000 60491667] text_frac(3) [of 100 3385] text_frac(1) [of 1 0] text_frac(1) [of 1000000 49058333]
    text_frac(1) [of 100 3405] text_frac(1) [of 1 49] text_frac(3) [of 10000 412865] text_frac(1) [of 1000000 41714775]
  by (simp_all add: coord_print)

lemma dprs_longitudes:
  "lon_text 25.090500 = ''02505.43E''" "lon_text (-151.21) = ''15112.60W''" "lon_text 0 = ''00000.00E''"
  "lon_text (-72.029167) = ''07201.75W''" "lon_text (-118.25) = ''11815.00W''" "lon_text (-72) = ''07200.00W''"
  "lon_text 174.7762 = ''17446.57E''" "lon_text (-72.727260) = ''07243.64W''"
  using text_frac(2) [of 10000 250905] text_frac(4) [of 100 15121] text_frac(2) [of 1 0] text_frac(4) [of 1000000 72029167]
    text_frac(4) [of 100 11825] text_frac(4) [of 1 72] text_frac(2) [of 10000 1747762] text_frac(4) [of 1000000 72727260]
  by (simp_all add: coord_print)

lemmas dprs_eval = dprs_to_aprs_def dprs_latitudes dprs_longitudes Let_def starts_with_def ends_with_def some_of_def nth_opt_def

lemma dprs_tests_pass:
  "test_dprs_to_aprs_north_east_position" "test_dprs_to_aprs_south_west_position" "test_dprs_to_aprs_zero_position"
  "test_dprs_to_aprs_empty_comment" "test_dprs_to_aprs_with_comment" "test_dprs_to_aprs_symbol_placement"
  unfolding test_dprs_to_aprs_north_east_position_def test_dprs_to_aprs_south_west_position_def
    test_dprs_to_aprs_zero_position_def test_dprs_to_aprs_empty_comment_def test_dprs_to_aprs_with_comment_def
    test_dprs_to_aprs_symbol_placement_def dprs_to_aprs_def dprs_latitudes dprs_longitudes
  by code_simp+

lemma dprs_tests_pass_2:
  "test_dprs_to_aprs_alternate_symbol_table" "test_dprs_to_aprs_destination_is_apdprs"
  "test_dprs_to_aprs_negative_latitude" "test_dprs_to_aprs_negative_longitude"
  unfolding test_dprs_to_aprs_alternate_symbol_table_def test_dprs_to_aprs_destination_is_apdprs_def
    test_dprs_to_aprs_negative_latitude_def test_dprs_to_aprs_negative_longitude_def
    dprs_to_aprs_def dprs_latitudes dprs_longitudes
  by code_simp+

definition test_parse_simple_callsign :: bool where
  "test_parse_simple_callsign \<longleftrightarrow> parse_dprs_callsign ''OH2MQK  '' = Some (Some ''OH2MQK'')"
definition test_parse_callsign_with_ssid :: bool where
  "test_parse_callsign_with_ssid \<longleftrightarrow> parse_dprs_callsign ''OH2MQK-1'' = Some (Some ''OH2MQK-1'')"
definition test_parse_callsign_with_module_indicator :: bool where
  "test_parse_callsign_with_module_indicator \<longleftrightarrow> parse_dprs_callsign ''OH2MQK G'' = Some (Some ''OH2MQK'')"
definition test_parse_callsign_with_module_a :: bool where
  "test_parse_callsign_with_module_a \<longleftrightarrow> parse_dprs_callsign ''W1AW   A'' = Some (Some ''W1AW'')"
definition test_parse_callsign_with_module_b :: bool where
  "test_parse_callsign_with_module_b \<longleftrightarrow> parse_dprs_callsign ''W1AW   B'' = Some (Some ''W1AW'')"
definition test_parse_callsign_with_module_c :: bool where
  "test_parse_callsign_with_module_c \<longleftrightarrow> parse_dprs_callsign ''N0CALL C'' = Some (Some ''N0CALL'')"
definition test_parse_empty_callsign_returns_none :: bool where
  "test_parse_empty_callsign_returns_none \<longleftrightarrow> parse_dprs_callsign '''' = Some None"
definition test_parse_whitespace_only_returns_none :: bool where
  "test_parse_whitespace_only_returns_none \<longleftrightarrow> parse_dprs_callsign ''        '' = Some None"
definition test_parse_callsign_no_padding :: bool where
  "test_parse_callsign_no_padding \<longleftrightarrow> parse_dprs_callsign ''OH2MQK-1'' = Some (Some ''OH2MQK-1'')"
definition test_parse_callsign_ending_in_a_without_space_is_kept :: bool where
  "test_parse_callsign_ending_in_a_without_space_is_kept \<longleftrightarrow> parse_dprs_callsign ''TESTCA  '' = Some (Some ''TESTCA'')"

definition test_symbol_car :: bool where
  "test_symbol_car \<longleftrightarrow> dprs_symbol_to_aprs CHR ''>'' = (CHR ''/'', CHR ''>'')"
definition test_symbol_ambulance :: bool where
  "test_symbol_ambulance \<longleftrightarrow> dprs_symbol_to_aprs CHR ''A'' = (CHR ''/'', CHR ''a'')"
definition test_symbol_hospital :: bool where
  "test_symbol_hospital \<longleftrightarrow> dprs_symbol_to_aprs CHR ''H'' = (CHR ''/'', CHR ''h'')"
definition test_symbol_unknown_defaults_to_dot :: bool where
  "test_symbol_unknown_defaults_to_dot \<longleftrightarrow> dprs_symbol_to_aprs CHR ''?'' = (CHR ''/'', CHR ''/'')"
definition test_symbol_ship :: bool where
  "test_symbol_ship \<longleftrightarrow> dprs_symbol_to_aprs CHR ''S'' = (CHR ''/'', CHR ''s'')"
definition test_symbol_eyeball :: bool where
  "test_symbol_eyeball \<longleftrightarrow> dprs_symbol_to_aprs CHR ''E'' = (CHR 0x5C, CHR ''E'')"

lemma dprs_callsign_tests_pass:
  "test_parse_simple_callsign" "test_parse_callsign_with_ssid" "test_parse_callsign_with_module_indicator"
  "test_parse_callsign_with_module_a" "test_parse_callsign_with_module_b" "test_parse_callsign_with_module_c"
  "test_parse_empty_callsign_returns_none" "test_parse_whitespace_only_returns_none" "test_parse_callsign_no_padding"
  "test_parse_callsign_ending_in_a_without_space_is_kept"
  by code_simp+

lemma dprs_symbol_tests_pass:
  "test_symbol_car" "test_symbol_ambulance" "test_symbol_hospital" "test_symbol_unknown_defaults_to_dot"
  "test_symbol_ship" "test_symbol_eyeball"
  by code_simp+

section \<open>src/config.rs\<close>

text \<open>The location section of a configuration, by the two values it has there.\<close>

definition location_is :: "toml_value \<Rightarrow> toml_value \<Rightarrow> string \<Rightarrow> string \<Rightarrow> bool" where
  "location_is lat lon lat' lon' \<longleftrightarrow> unwrapping (try_from_raw lat lon) (\<lambda>loc. loc_lat loc = lat' \<and> loc_lon loc = lon')"

definition test_location_aprs_format_passthrough :: bool where
  "test_location_aprs_format_passthrough \<longleftrightarrow>
     location_is (TString ''4903.50N'') (TString ''07201.75W'') ''4903.50N'' ''07201.75W''"

definition test_location_decimal_degrees_float :: bool where
  "test_location_decimal_degrees_float \<longleftrightarrow>
     location_is (TFloat (Fin 33.45)) (TFloat (Fin (-96.78))) ''3327.00N'' ''09646.80W''"

definition test_location_decimal_degrees_integer :: bool where
  "test_location_decimal_degrees_integer \<longleftrightarrow> location_is (TInteger 33) (TInteger (-97)) ''3300.00N'' ''09700.00W''"

definition test_location_decimal_degrees_string :: bool where
  "test_location_decimal_degrees_string \<longleftrightarrow>
     location_is (TString ''33.45'') (TString ''-96.78'') ''3327.00N'' ''09646.80W''"

definition test_location_southern_hemisphere :: bool where
  "test_location_southern_hemisphere \<longleftrightarrow>
     unwrapping (try_from_raw (TFloat (Fin (-33.86))) (TFloat (Fin 151.21))) (\<lambda>loc.
       ends_with_char (CHR ''S'') (loc_lat loc) \<and> ends_with_char (CHR ''E'') (loc_lon loc))"

definition test_location_out_of_range :: bool where
  "test_location_out_of_range \<longleftrightarrow> is_err (try_from_raw (TFloat (Fin 91)) (TFloat (Fin 0)))"

definition test_decimal_lat_to_aprs :: bool where
  "test_decimal_lat_to_aprs \<longleftrightarrow>
     unwrapping (decimal_lat_to_aprs (Fin 0)) (\<lambda>s. s = ''0000.00N'')
     \<and> unwrapping (decimal_lat_to_aprs (Fin 49.0583333)) (\<lambda>s. s = ''4903.50N'')
     \<and> unwrapping (decimal_lat_to_aprs (Fin (-33.86))) (\<lambda>s. s = ''3351.60S'')"

definition test_decimal_lon_to_aprs :: bool where
  "test_decimal_lon_to_aprs \<longleftrightarrow>
     unwrapping (decimal_lon_to_aprs (Fin 0)) (\<lambda>s. s = ''00000.00E'')
     \<and> unwrapping (decimal_lon_to_aprs (Fin (-72.029167))) (\<lambda>s. s = ''07201.75W'')
     \<and> unwrapping (decimal_lon_to_aprs (Fin 151.21)) (\<lambda>s. s = ''15112.60E'')"

lemma config_latitudes:
  "lat_text 33.45 = ''3327.00N''" "lat_text 33 = ''3300.00N''" "lat_text (-33.86) = ''3351.60S''"
  "lat_text 49.0583333 = ''4903.50N''"
  using text_frac(1) [of 100 3345] text_frac(1) [of 1 33] text_frac(3) [of 100 3386] text_frac(1) [of 10000000 490583333]
  by (simp_all add: coord_print)

lemma config_longitudes:
  "lon_text (-96.78) = ''09646.80W''" "lon_text (-97) = ''09700.00W''" "lon_text 151.21 = ''15112.60E''"
  using text_frac(4) [of 100 9678] text_frac(4) [of 1 97] text_frac(2) [of 100 15121]
  by (simp_all add: coord_print)

lemma config_strings:
  "parse_f64 ''33.45'' = Some (Fin 33.45)" "parse_f64 ''-96.78'' = Some (Fin (-96.78))"
  "is_aprs_format ''4903.50N''" "is_aprs_format ''07201.75W''" "\<not> is_aprs_format ''33.45''" "\<not> is_aprs_format ''-96.78''"
proof -
  show "parse_f64 ''33.45'' = Some (Fin 33.45)" "parse_f64 ''-96.78'' = Some (Fin (-96.78))"
    by (simp_all add: parse_f64_def parse_decimal_def digits_nat_def is_ascii_digit_def ascii_lower_def
        is_ascii_uppercase_def Let_def)
  show "is_aprs_format ''4903.50N''" "is_aprs_format ''07201.75W''" "\<not> is_aprs_format ''33.45''"
    "\<not> is_aprs_format ''-96.78''" by code_simp+
qed

lemma location_tests_pass:
  "test_location_aprs_format_passthrough" "test_location_decimal_degrees_float" "test_location_decimal_degrees_integer"
  "test_location_decimal_degrees_string" "test_location_southern_hemisphere" "test_location_out_of_range"
  "test_decimal_lat_to_aprs" "test_decimal_lon_to_aprs"
  by (simp_all add: test_location_aprs_format_passthrough_def test_location_decimal_degrees_float_def
      test_location_decimal_degrees_integer_def test_location_decimal_degrees_string_def
      test_location_southern_hemisphere_def test_location_out_of_range_def test_decimal_lat_to_aprs_def
      test_decimal_lon_to_aprs_def location_is_def unwrapping_def is_err_def ends_with_char_def try_from_raw_def
      convert_lat_def convert_lon_def config_strings config_latitudes [simplified]
      config_longitudes [simplified] dprs_latitudes(3) dprs_longitudes(3) dprs_longitudes(4) [simplified])

section \<open>src/logging.rs\<close>

text \<open>The tests read the clock; here they are given the milliseconds it shows.\<close>

definition test_rf_log_entry_format_received :: "nat \<Rightarrow> bool" where
  "test_rf_log_entry_format_received now_millis \<longleftrightarrow>
     (let entry = format_rf_log_entry now_millis ''serial0'' ''R'' ''OH2MQK-1>APRS:!6029.50N/02505.43E>''
      in has_infix entry ''serial0 R OH2MQK-1>APRS:!6029.50N/02505.43E>'' \<and> length entry > 30
         \<and> str_slice entry 4 5 = Some ''-'' \<and> str_slice entry 7 8 = Some ''-'' \<and> str_slice entry 13 14 = Some '':''
         \<and> str_slice entry 16 17 = Some '':'' \<and> str_slice entry 19 20 = Some ''.'')"

definition test_rf_log_entry_format_transmitted :: "nat \<Rightarrow> bool" where
  "test_rf_log_entry_format_transmitted now_millis \<longleftrightarrow>
     has_infix (format_rf_log_entry now_millis ''radio0'' ''T'' ''TEST>APRS:!test'') ''radio0 T TEST>APRS:!test''"

definition test_rf_log_entry_format_dropped :: "nat \<Rightarrow> bool" where
  "test_rf_log_entry_format_dropped now_millis \<longleftrightarrow>
     has_infix (format_rf_log_entry now_millis ''APRSIS'' ''d'' ''DUPE>APRS:duplicate'') ''APRSIS d DUPE>APRS:duplicate''"

definition test_rf_log_entry_direction_characters :: "nat \<Rightarrow> bool" where
  "test_rf_log_entry_direction_characters now_millis \<longleftrightarrow>
     (let r = format_rf_log_entry now_millis ''if0'' ''R'' ''A>B:c'';
          t = format_rf_log_entry now_millis ''if0'' ''T'' ''A>B:c'';
          d = format_rf_log_entry now_millis ''if0'' ''d'' ''A>B:c''
      in has_infix r '' R '' \<and> has_infix t '' T '' \<and> has_infix d '' d '')"

definition test_rf_log_entry_timestamp_is_current :: "nat \<Rightarrow> bool" where
  "test_rf_log_entry_timestamp_is_current now_millis \<longleftrightarrow>
     (let entry = format_rf_log_entry now_millis ''test'' ''R'' ''A>B:c'' in
      some_of (str_to entry 4) (\<lambda>s. some_of (parse_unsigned (2 ^ 64) s) (\<lambda>year. 2024 \<le> year \<and> year \<le> 2030)))"

definition test_days_to_ymd_unix_epoch :: bool where
  "test_days_to_ymd_unix_epoch \<longleftrightarrow> days_to_ymd 0 = (1970, 1, 1)"

definition test_days_to_ymd_known_date :: bool where
  "test_days_to_ymd_known_date \<longleftrightarrow> days_to_ymd 19723 = (2024, 1, 1)"

definition test_days_to_ymd_leap_year :: bool where
  "test_days_to_ymd_leap_year \<longleftrightarrow> (let (y, m, d) = days_to_ymd 19782 in y = 2024 \<and> m = 2 \<and> d = 29)"

lemma days_tests_pass: "test_days_to_ymd_unix_epoch" "test_days_to_ymd_known_date" "test_days_to_ymd_leap_year"
  by (simp_all add: test_days_to_ymd_unix_epoch_def test_days_to_ymd_known_date_def test_days_to_ymd_leap_year_def
      days_to_ymd_def Let_def cong: let_weak_cong)

text \<open>The three tests of the contents hold at every time, the other two on 18 August 2025.\<close>

lemma log_entry_infix: "has_infix (format_rf_log_entry now i d l) (i @ '' '' @ d @ '' '' @ l)"
proof -
  obtain y m dd where ymd: "days_to_ymd (now div 1000 div 86400) = (y, m, dd)" by (rule prod_cases3)
  let ?date = "show_nat0 4 y @ ''-'' @ show_nat0 2 m @ ''-'' @ show_nat0 2 dd"
  let ?tod = "now div 1000 mod 86400"
  have "format_rf_log_entry now i d l =
      (?date @ '' '' @ show_nat0 2 (?tod div 3600) @ '':'' @ show_nat0 2 (?tod mod 3600 div 60) @ '':''
       @ show_nat0 2 (?tod mod 60) @ ''.'' @ show_nat0 3 (now mod 1000) @ '' '') @ (i @ '' '' @ d @ '' '' @ l) @ []"
    unfolding format_rf_log_entry_def Let_def ymd prod.case by (simp only: append_assoc append_Nil2)
  then show ?thesis unfolding has_infix_iff by blast
qed

lemma log_infix_tests_pass: "test_rf_log_entry_format_transmitted now" "test_rf_log_entry_format_dropped now"
  using log_entry_infix [of now "''radio0''" "''T''" "''TEST>APRS:!test''"]
    log_entry_infix [of now "''APRSIS''" "''d''" "''DUPE>APRS:duplicate''"]
  by (simp_all add: test_rf_log_entry_format_transmitted_def test_rf_log_entry_format_dropped_def)

lemma log_entry_2025:
  "format_rf_log_entry 1755513345678 i d l = ''2025-08-18 10:35:45.678 '' @ i @ '' '' @ d @ '' '' @ l"
proof -
  have ymd: "days_to_ymd 20318 = (2025, 8, 18)" by (simp add: days_to_ymd_def Let_def cong: let_weak_cong)
  show ?thesis
    by (simp add: format_rf_log_entry_def ymd Let_def show_nat0_def pad_left_def show_nat.simps digit_chars
        replicates cong: let_weak_cong)
qed

lemma log_entry_tests_pass:
  "test_rf_log_entry_format_received 1755513345678" "test_rf_log_entry_direction_characters 1755513345678"
  "test_rf_log_entry_timestamp_is_current 1755513345678"
  by (simp_all add: test_rf_log_entry_format_received_def test_rf_log_entry_direction_characters_def
      test_rf_log_entry_timestamp_is_current_def log_entry_2025 str_slice_def str_to_def is_char_boundary_def is_cont_def
      some_of_def parse_unsigned_def is_ascii_digit_def)

section \<open>src/telemetry.rs\<close>

definition test_format_telemetry :: bool where
  "test_format_telemetry \<longleftrightarrow>
     format_telemetry ''OH2MQK-1'' 42 ((!) [10, 5, 128, 64, 3]) 0b10100000
       = ''OH2MQK-1>APRS:T#042,010,005,128,064,003,10100000''"

text \<open>\<open>n\<close> calls whose results are not used.\<close>

fun after_seqs :: "nat \<Rightarrow> telemetry_counter \<Rightarrow> telemetry_counter" where
  "after_seqs 0 c = c"
| "after_seqs (Suc n) c = after_seqs n (fst (next_seq c))"

definition test_telemetry_sequence_wraps :: bool where
  "test_telemetry_sequence_wraps \<longleftrightarrow>
     (let counter = after_seqs 999 telemetry_counter_new; (counter, a) = next_seq counter;
          (counter, b) = next_seq counter; (counter, c) = next_seq counter
      in a = 999 \<and> b = 0 \<and> c = 1)"

definition test_format_telemetry_params :: bool where
  "test_format_telemetry_params \<longleftrightarrow>
     format_telemetry_params ''OH2MQK-1'' ''OH2MQK-1''
       = ''OH2MQK-1>APRS::OH2MQK-1 :PARM.Rx Pkts,Tx Pkts,Rx Bytes,Tx Bytes,Drops''"

definition test_format_telemetry_units :: bool where
  "test_format_telemetry_units \<longleftrightarrow>
     format_telemetry_units ''OH2MQK-1'' = ''OH2MQK-1>APRS::OH2MQK-1 :UNIT.Pkts,Pkts,Bytes,Bytes,Pkts''"

definition test_format_telemetry_eqns :: bool where
  "test_format_telemetry_eqns \<longleftrightarrow>
     format_telemetry_eqns ''OH2MQK-1'' = ''OH2MQK-1>APRS::OH2MQK-1 :EQNS.0,1,0,0,1,0,0,10,0,0,10,0,0,1,0''"

definition test_telemetry_values_clamped :: bool where
  "test_telemetry_values_clamped \<longleftrightarrow>
     format_telemetry ''TEST-1'' 0 ((!) [0, 0, 0, 0, 0]) 0 = ''TEST-1>APRS:T#000,000,000,000,000,000,00000000''
     \<and> format_telemetry ''TEST-1'' 999 ((!) [255, 255, 255, 255, 255]) 0xFF
         = ''TEST-1>APRS:T#999,255,255,255,255,255,11111111''"

definition test_telemetry_counter_starts_at_zero :: bool where
  "test_telemetry_counter_starts_at_zero \<longleftrightarrow> snd (next_seq telemetry_counter_new) = 0"

definition test_telemetry_counter_default :: bool where
  "test_telemetry_counter_default \<longleftrightarrow> snd (next_seq telemetry_counter_new) = 0"

definition test_pad_addressee_short_call :: bool where
  "test_pad_addressee_short_call \<longleftrightarrow> pad_addressee ''N0CALL'' = ''N0CALL   ''"

definition test_pad_addressee_full_length :: bool where
  "test_pad_addressee_full_length \<longleftrightarrow> pad_addressee ''OH2MQK-15'' = ''OH2MQK-15''"

definition test_format_telemetry_sequence_wraps_in_format :: bool where
  "test_format_telemetry_sequence_wraps_in_format \<longleftrightarrow>
     has_infix (format_telemetry ''TEST-1'' 1001 ((!) [1, 2, 3, 4, 5]) 0) ''T#001,''"

lemma telemetry_tests_pass:
  "test_format_telemetry" "test_format_telemetry_params" "test_format_telemetry_units" "test_format_telemetry_eqns"
  "test_telemetry_values_clamped" "test_telemetry_counter_starts_at_zero" "test_telemetry_counter_default"
  "test_pad_addressee_short_call"
  "test_pad_addressee_full_length" "test_format_telemetry_sequence_wraps_in_format"
  by code_simp+

lemma after_seqs_value:
  "unat (sequence c) < 1000 \<Longrightarrow> unat (sequence (after_seqs n c)) = (unat (sequence c) + n) mod 1000"
proof (induction n arbitrary: c)
  case (Suc n)
  have "unat (sequence (fst (next_seq c))) = Suc (unat (sequence c)) mod 1000" by (rule next_seq_value [OF Suc.prems])
  then show ?case using Suc.IH [of "fst (next_seq c)"] by (simp add: mod_simps)
qed simp

lemma telemetry_wrap_test_passes: "test_telemetry_sequence_wraps"
proof -
  have "unat (sequence (after_seqs 999 telemetry_counter_new)) = 999"
    by (simp add: after_seqs_value telemetry_counter_new_def)
  then have "sequence (after_seqs 999 telemetry_counter_new) = 999" by (simp add: word_unat_eq_iff)
  then show ?thesis by (simp add: test_telemetry_sequence_wraps_def next_seq_def)
qed

end
