(* ===== verification/Tests_Digipeater.thy ===== *)
theory Tests_Digipeater
  imports Tests_Base Viscous Digi_Filter Digipeater
begin

text \<open>
  The unit tests under \<open>src/digipeater\<close>: duplicates, the viscous queue, filters and the digipeater with its rate
  limiter. A test that reads the clock is given its instants, in nanoseconds; one that sleeps goes on that much later.
\<close>

section \<open>src/digipeater/dedupe.rs\<close>

abbreviation millis :: "nat \<Rightarrow> nat" where
  "millis n \<equiv> n * 1000000"

abbreviation made :: "string \<Rightarrow> string \<Rightarrow> packet" where
  "made line port \<equiv> packet_new 0 line port True"

definition make_checker :: dupe_checker where
  "make_checker = dupe_new DEFAULT_STORETIME"

text \<open>A sequence of checks, with the checker after them and their results.\<close>

fun check_all :: "dupe_checker \<Rightarrow> (packet \<times> instant) list \<Rightarrow> (dupe_checker \<times> dupe_result list) may_panic" where
  "check_all c [] = Some (c, [])"
| "check_all c ((p, now) # ps) =
     (case check c p now of
        None \<Rightarrow> None
      | Some (c', r) \<Rightarrow> map_option (\<lambda>(c'', rs). (c'', r # rs)) (check_all c' ps))"

definition test_new_packet_not_duplicate :: bool where
  "test_new_packet_not_duplicate \<longleftrightarrow>
     some_of (check_all make_checker [(made ''SRC>DST:hello'' ''port0'', 0)]) (\<lambda>(_, rs). rs = [New])"

definition test_same_packet_is_duplicate :: bool where
  "test_same_packet_is_duplicate \<longleftrightarrow>
     (let pkt = made ''SRC>DST:hello'' ''port0''
      in some_of (check_all make_checker [(pkt, 0), (pkt, 1)]) (\<lambda>(_, rs). rs = [New, Duplicate 2]))"

definition test_different_packets_not_duplicate :: bool where
  "test_different_packets_not_duplicate \<longleftrightarrow>
     (let pkt1 = made ''SRC>DST:hello'' ''port0''; pkt2 = made ''SRC>DST:world'' ''port0'';
          pkt3 = made ''OTHER>DST:hello'' ''port0''
      in some_of (check_all make_checker [(pkt1, 0), (pkt2, 1), (pkt3, 2)]) (\<lambda>(_, rs). rs = [New, New, New]))"

definition test_via_addresses_ignored :: bool where
  "test_via_addresses_ignored \<longleftrightarrow>
     (let pkt1 = made ''SRC>DST,VIA1,VIA2:hello'' ''port0''; pkt2 = made ''SRC>DST,WIDE1-1:hello'' ''port1'';
          pkt3 = made ''SRC>DST:hello'' ''port2''
      in some_of (check_all make_checker [(pkt1, 0), (pkt2, 1), (pkt3, 2)]) (\<lambda>(_, rs). rs = [New, Duplicate 2, Duplicate 3]))"

definition test_trailing_spaces_stripped :: bool where
  "test_trailing_spaces_stripped \<longleftrightarrow>
     (let pkt1 = made ''SRC>DST:payload'' ''port0''; pkt2 = made ''SRC>DST:payload   '' ''port0''
      in some_of (check_all make_checker [(pkt1, 0), (pkt2, 1)]) (\<lambda>(_, rs). rs = [New, Duplicate 2]))"

definition test_expiration_dedupe :: bool where
  "test_expiration_dedupe \<longleftrightarrow>
     (let checker = dupe_new (millis 50); pkt = made ''SRC>DST:hello'' ''port0''
      in some_of (check_all checker [(pkt, 0), (pkt, millis 60)]) (\<lambda>(_, rs). rs = [New, New]))"

definition test_seen_count_increments :: bool where
  "test_seen_count_increments \<longleftrightarrow>
     (let pkt = made ''SRC>DST:hello'' ''port0''
      in some_of (check_all make_checker [(pkt, 0), (pkt, 1), (pkt, 2)]) (\<lambda>(_, rs). rs = [New, Duplicate 2, Duplicate 3]))"

definition test_cleanup_removes_expired_dedupe :: bool where
  "test_cleanup_removes_expired_dedupe \<longleftrightarrow>
     (let checker = dupe_new (millis 50); pkt = made ''SRC>DST:hello'' ''port0''
      in some_of (check_all checker [(pkt, 0)]) (\<lambda>(checker, _).
           dupe_len checker = 1
           \<and> (let checker = dupe_cleanup checker (millis 60) in dupe_len checker = 0 \<and> dupe_is_empty checker)))"

definition test_cleanup_keeps_fresh_dedupe :: bool where
  "test_cleanup_keeps_fresh_dedupe \<longleftrightarrow>
     (let pkt1 = made ''SRC>DST:hello'' ''port0''; pkt2 = made ''SRC>DST:world'' ''port0''
      in some_of (check_all make_checker [(pkt1, 0), (pkt2, 1)]) (\<lambda>(checker, _).
           dupe_len checker = 2 \<and> dupe_len (dupe_cleanup checker 2) = 2))"

definition test_len_and_is_empty_dedupe :: bool where
  "test_len_and_is_empty_dedupe \<longleftrightarrow>
     dupe_is_empty make_checker \<and> dupe_len make_checker = 0
     \<and> (let pkt1 = made ''SRC>DST:hello'' ''port0''; pkt2 = made ''SRC>DST:world'' ''port0'' in
        some_of (check_all make_checker [(pkt1, 0)]) (\<lambda>(checker, _).
          \<not> dupe_is_empty checker \<and> dupe_len checker = 1
          \<and> some_of (check_all checker [(pkt2, 1)]) (\<lambda>(checker, _).
            dupe_len checker = 2
            \<and> some_of (check_all checker [(pkt1, 2)]) (\<lambda>(checker, _). dupe_len checker = 2))))"

lemma dupe_keys:
  "from_packet (made ''SRC>DST:hello'' p) = Some \<lparr>key_addr = ''SRC>DST'', key_payload = ''hello''\<rparr>"
  "from_packet (made ''SRC>DST:world'' p) = Some \<lparr>key_addr = ''SRC>DST'', key_payload = ''world''\<rparr>"
  "from_packet (made ''OTHER>DST:hello'' p) = Some \<lparr>key_addr = ''OTHER>DST'', key_payload = ''hello''\<rparr>"
  "from_packet (made ''SRC>DST,VIA1,VIA2:hello'' p) = Some \<lparr>key_addr = ''SRC>DST'', key_payload = ''hello''\<rparr>"
  "from_packet (made ''SRC>DST,WIDE1-1:hello'' p) = Some \<lparr>key_addr = ''SRC>DST'', key_payload = ''hello''\<rparr>"
  "from_packet (made ''SRC>DST:payload'' p) = Some \<lparr>key_addr = ''SRC>DST'', key_payload = ''payload''\<rparr>"
  "from_packet (made ''SRC>DST:payload   '' p) = Some \<lparr>key_addr = ''SRC>DST'', key_payload = ''payload''\<rparr>"
  by code_simp+

lemmas dupe_eval = check_def dupe_keys check_key_def make_checker_def dupe_new_def DEFAULT_STORETIME_def from_secs_def
  hm_get_def some_of_def dupe_len_def dupe_is_empty_def dupe_cleanup_def hm_retain_def Let_def

lemma dedupe_tests_pass:
  "test_new_packet_not_duplicate" "test_same_packet_is_duplicate" "test_different_packets_not_duplicate"
  "test_via_addresses_ignored" "test_trailing_spaces_stripped" "test_expiration_dedupe" "test_seen_count_increments"
  "test_cleanup_removes_expired_dedupe" "test_cleanup_keeps_fresh_dedupe" "test_len_and_is_empty_dedupe"
  by (simp_all add: dupe_eval test_new_packet_not_duplicate_def test_same_packet_is_duplicate_def
      test_different_packets_not_duplicate_def test_via_addresses_ignored_def test_trailing_spaces_stripped_def
      test_expiration_dedupe_def test_seen_count_increments_def test_cleanup_removes_expired_dedupe_def
      test_cleanup_keeps_fresh_dedupe_def test_len_and_is_empty_dedupe_def)

section \<open>src/digipeater/viscous.rs\<close>

definition make_shared :: "string \<Rightarrow> packet" where
  "make_shared line = packet_new 0 line ''port0'' True"

definition test_add_and_drain_expired :: bool where
  "test_add_and_drain_expired \<longleftrightarrow>
     (let queue = viscous_add viscous_new (make_shared ''SRC>DST,WIDE1-1:hello'') ''SRC>DST,MYCALL*:hello'' 0 0;
          (queue, expired) = drain_expired queue 1
      in length expired = 1 \<and> at_index expired 0 (\<lambda>e. snd e = ''SRC>DST,MYCALL*:hello''))"

definition test_drain_respects_delay :: bool where
  "test_drain_respects_delay \<longleftrightarrow>
     (let queue = viscous_add viscous_new (make_shared ''SRC>DST,WIDE1-1:hello'') ''SRC>DST,MYCALL*:hello'' (from_secs 1) 0;
          (queue, expired) = drain_expired queue 1
      in expired = [] \<and> viscous_len queue = 1)"

definition test_drain_after_delay :: bool where
  "test_drain_after_delay \<longleftrightarrow>
     (let queue = viscous_add viscous_new (make_shared ''SRC>DST,WIDE1-1:hello'') ''SRC>DST,MYCALL*:hello'' (millis 50) 0;
          (queue, expired) = drain_expired queue (millis 60)
      in length expired = 1 \<and> at_index expired 0 (\<lambda>e. snd e = ''SRC>DST,MYCALL*:hello''))"

definition test_cancel_if_heard :: bool where
  "test_cancel_if_heard \<longleftrightarrow>
     (let queue = viscous_add viscous_new (make_shared ''SRC>DST,WIDE1-1:hello'') ''SRC>DST,MYCALL*:hello'' (from_secs 30) 0
      in viscous_len queue = 1
         \<and> some_of (cancel_if_heard queue (made ''SRC>DST,DIGI1*:hello'' ''port1'')) (\<lambda>(queue, cancelled).
             cancelled = 1 \<and> viscous_is_empty queue))"

definition test_cancel_ignores_different_packet :: bool where
  "test_cancel_ignores_different_packet \<longleftrightarrow>
     (let queue = viscous_add viscous_new (make_shared ''SRC>DST,WIDE1-1:hello'') ''SRC>DST,MYCALL*:hello'' (from_secs 30) 0 in
      some_of (cancel_if_heard queue (made ''SRC>DST:world'' ''port1'')) (\<lambda>(queue, cancelled).
        cancelled = 0 \<and> viscous_len queue = 1
        \<and> some_of (cancel_if_heard queue (made ''OTHER>DST:hello'' ''port1'')) (\<lambda>(queue, cancelled2).
            cancelled2 = 0 \<and> viscous_len queue = 1)))"

definition test_cancel_ignores_vias :: bool where
  "test_cancel_ignores_vias \<longleftrightarrow>
     (let queue = viscous_add viscous_new (make_shared ''SRC>DST,WIDE2-2:hello'') ''SRC>DST,MYCALL*,WIDE2-1:hello''
            (from_secs 30) 0 in
      some_of (cancel_if_heard queue (made ''SRC>DST,OTHERDIGI*,RELAY*:hello'' ''port1'')) (\<lambda>(queue, cancelled).
        cancelled = 1 \<and> viscous_is_empty queue))"

definition test_multiple_pending :: bool where
  "test_multiple_pending \<longleftrightarrow>
     (let pkt1 = make_shared ''SRC1>DST:aaa''; pkt2 = make_shared ''SRC2>DST:bbb''; pkt3 = make_shared ''SRC1>DST:aaa  '';
          queue = viscous_add viscous_new pkt1 ''SRC1>DST,MYCALL*:aaa'' (from_secs 30) 0;
          queue = viscous_add queue pkt2 ''SRC2>DST,MYCALL*:bbb'' (from_secs 30) 1;
          queue = viscous_add queue pkt3 ''SRC1>DST,MYCALL*:aaa'' (from_secs 30) 2
      in viscous_len queue = 3
         \<and> some_of (cancel_if_heard queue (made ''SRC1>DST:aaa'' ''port1'')) (\<lambda>(queue, cancelled).
             cancelled = 2 \<and> viscous_len queue = 1))"

definition test_len_and_is_empty_viscous :: bool where
  "test_len_and_is_empty_viscous \<longleftrightarrow>
     viscous_is_empty viscous_new \<and> viscous_len viscous_new = 0
     \<and> (let queue = viscous_add viscous_new (make_shared ''SRC>DST:aaa'') ''SRC>DST,MYCALL*:aaa'' (from_secs 30) 0
        in \<not> viscous_is_empty queue \<and> viscous_len queue = 1
           \<and> viscous_len (viscous_add queue (make_shared ''SRC>DST:bbb'') ''SRC>DST,MYCALL*:bbb'' (from_secs 30) 1) = 2)"

definition test_drain_removes_from_queue :: bool where
  "test_drain_removes_from_queue \<longleftrightarrow>
     (let queue = viscous_add viscous_new (make_shared ''SRC>DST:aaa'') ''SRC>DST,MYCALL*:aaa'' 0 0;
          queue = viscous_add queue (make_shared ''SRC>DST:bbb'') ''SRC>DST,MYCALL*:bbb'' (from_secs 30) 1
      in viscous_len queue = 2
         \<and> (let (queue, expired) = drain_expired queue 2 in length expired = 1 \<and> viscous_len queue = 1))"

lemma viscous_keys:
  "dedup_key (made ''SRC>DST,WIDE1-1:hello'' p) = Some (''SRC>DST'', ''hello'')"
  "dedup_key (made ''SRC>DST,DIGI1*:hello'' p) = Some (''SRC>DST'', ''hello'')"
  "dedup_key (made ''SRC>DST:world'' p) = Some (''SRC>DST'', ''world'')"
  "dedup_key (made ''OTHER>DST:hello'' p) = Some (''OTHER>DST'', ''hello'')"
  "dedup_key (made ''SRC>DST,WIDE2-2:hello'' p) = Some (''SRC>DST'', ''hello'')"
  "dedup_key (made ''SRC>DST,OTHERDIGI*,RELAY*:hello'' p) = Some (''SRC>DST'', ''hello'')"
  "dedup_key (made ''SRC1>DST:aaa'' p) = Some (''SRC1>DST'', ''aaa'')"
  "dedup_key (made ''SRC2>DST:bbb'' p) = Some (''SRC2>DST'', ''bbb'')"
  "dedup_key (made ''SRC1>DST:aaa  '' p) = Some (''SRC1>DST'', ''aaa'')"
  by code_simp+

lemmas viscous_eval = viscous_add_def viscous_new_def make_shared_def viscous_len_def viscous_is_empty_def
  drain_expired_def drain_loop.simps swap_remove_def has_expired_def duration_since_def from_secs_def
  cancel_if_heard_def viscous_keys some_of_def at_index_def nth_opt_def Let_def

lemma viscous_tests_pass:
  "test_add_and_drain_expired" "test_drain_respects_delay" "test_drain_after_delay" "test_cancel_if_heard"
  "test_cancel_ignores_different_packet" "test_cancel_ignores_vias" "test_multiple_pending"
  "test_len_and_is_empty_viscous" "test_drain_removes_from_queue"
  by (simp_all add: viscous_eval test_add_and_drain_expired_def test_drain_respects_delay_def test_drain_after_delay_def
      test_cancel_if_heard_def test_cancel_ignores_different_packet_def test_cancel_ignores_vias_def
      test_multiple_pending_def test_len_and_is_empty_viscous_def test_drain_removes_from_queue_def)

section \<open>src/digipeater/filter.rs\<close>

text \<open>The regular expressions of the tests are an anchor and a text, of which the backslash that escapes a bracket
  is no part; the parameters of the model are given what the \<open>regex\<close> crate does on these.\<close>

definition anchored :: "string \<Rightarrow> string + string" where
  "anchored pattern =
     (case pattern of
        [] \<Rightarrow> Inr []
      | c # text \<Rightarrow> if c = CHR ''^'' then Inr (filter (\<lambda>c. c \<noteq> CHR 0x5C) text) else Inl ''unclosed character class'')"

abbreviation anchored_match :: "string \<Rightarrow> string \<Rightarrow> bool" where
  "anchored_match text s \<equiv> starts_with s text"

text \<open>A chain of filters added one by one, each unwrapped; and the lines the tests make packets of.\<close>

fun chain_of :: "string list \<Rightarrow> string filter_chain \<Rightarrow> string + string filter_chain" where
  "chain_of [] chain = Inr chain"
| "chain_of (spec # specs) chain =
     (case add_filter anchored chain spec of Inl e \<Rightarrow> Inl e | Inr chain \<Rightarrow> chain_of specs chain)"

definition chain_passes :: "string list \<Rightarrow> string list \<Rightarrow> string list \<Rightarrow> bool" where
  "chain_passes specs pass reject \<longleftrightarrow>
     unwrapping (chain_of specs chain_new) (\<lambda>chain.
       list_all (\<lambda>l. chain_check anchored_match chain (made l ''port0'') = Some True) pass
       \<and> list_all (\<lambda>l. chain_check anchored_match chain (made l ''port0'') = Some False) reject)"

definition test_empty_chain_passes_all :: bool where
  "test_empty_chain_passes_all \<longleftrightarrow> chain_passes [] [''OH2MQK>APRS,WIDE1-1:test data''] []"
definition test_budlist_exact_match :: bool where
  "test_budlist_exact_match \<longleftrightarrow> chain_passes [''b/OH2MQK''] [''OH2MQK>APRS:test''] [''W3ADO>APRS:test'']"
definition test_budlist_wildcard :: bool where
  "test_budlist_wildcard \<longleftrightarrow>
     chain_passes [''b/OH2MQK*''] [''OH2MQK>APRS:test'', ''OH2MQK-1>APRS:test'', ''OH2MQK-15>APRS:test''] [''W3ADO>APRS:test'']"
definition test_negative_budlist :: bool where
  "test_negative_budlist \<longleftrightarrow> chain_passes [''-b/NOCALL''] [''OH2MQK>APRS:test''] [''NOCALL>APRS:test'']"
definition test_prefix_filter :: bool where
  "test_prefix_filter \<longleftrightarrow> chain_passes [''p/APRS''] [''SRC>APRS,WIDE1-1:test'', ''SRC>APRSFI:test''] [''SRC>CQ:test'']"
definition test_negative_prefix :: bool where
  "test_negative_prefix \<longleftrightarrow> chain_passes [''-p/CQ''] [''SRC>APRS:test''] [''SRC>CQ:test'', ''SRC>CQCQCQ:test'']"
definition test_regex_source :: bool where
  "test_regex_source \<longleftrightarrow>
     chain_passes [''regex-source/^NOCALL''] [''OH2MQK>APRS:test''] [''NOCALL>APRS:test'', ''NOCALL-5>APRS:test'']"
definition test_regex_data :: bool where
  "test_regex_data \<longleftrightarrow>
     chain_passes [''regex-data/^'' @ [CHR 0x5C] @ ''}''] [''SRC>DST:!6029.50N/02505.43E>''] [''SRC>DST:}INNER>DST:payload'']"
definition test_regex_rejects_matching :: bool where
  "test_regex_rejects_matching \<longleftrightarrow>
     chain_passes [''regex-destination/^TCPIP''] [''SRC>APRS:test''] [''SRC>TCPIP:test'']"
definition test_combined_positive_and_negative :: bool where
  "test_combined_positive_and_negative \<longleftrightarrow>
     chain_passes [''b/OH2*'', ''-b/OH2BAD''] [''OH2MQK>APRS:test''] [''W3ADO>APRS:test'', ''OH2BAD>APRS:test'']"

definition test_parse_budlist :: bool where
  "test_parse_budlist \<longleftrightarrow>
     unwrapping (parse_filter anchored ''b/CALL1/CALL2'') (\<lambda>filter.
       case filter of Budlist callsigns negate \<Rightarrow> \<not> negate \<and> callsigns = [''CALL1'', ''CALL2''] | _ \<Rightarrow> False)"
definition test_parse_negative_budlist :: bool where
  "test_parse_negative_budlist \<longleftrightarrow>
     unwrapping (parse_filter anchored ''-b/CALL1'') (\<lambda>filter.
       case filter of Budlist callsigns negate \<Rightarrow> negate \<and> callsigns = [''CALL1''] | _ \<Rightarrow> False)"
definition test_parse_prefix :: bool where
  "test_parse_prefix \<longleftrightarrow>
     unwrapping (parse_filter anchored ''p/APRS/CQ'') (\<lambda>filter.
       case filter of Prefix prefixes negate \<Rightarrow> \<not> negate \<and> prefixes = [''APRS'', ''CQ''] | _ \<Rightarrow> False)"
definition test_parse_invalid :: bool where
  "test_parse_invalid \<longleftrightarrow>
     is_err (parse_filter anchored ''x/invalid'') \<and> is_err (parse_filter anchored '''')
     \<and> is_err (parse_filter anchored ''b/'') \<and> is_err (parse_filter anchored ''regex-source/[invalid'')"

definition test_multiple_budlist_entries :: bool where
  "test_multiple_budlist_entries \<longleftrightarrow>
     chain_passes [''b/OH2MQK*/W3ADO*'']
       [''OH2MQK>APRS:test'', ''OH2MQK-1>APRS:test'', ''W3ADO>APRS:test'', ''W3ADO-15>APRS:test''] [''N0CALL>APRS:test'']"
definition test_case_insensitive_budlist :: bool where
  "test_case_insensitive_budlist \<longleftrightarrow> chain_passes [''b/oh2mqk''] [''OH2MQK>APRS:test''] []"
definition test_regex_via_filter :: bool where
  "test_regex_via_filter \<longleftrightarrow>
     chain_passes [''regex-via/^TCPIP''] [''SRC>DST,WIDE1-1:test''] [''SRC>DST,TCPIP*:test'']"
definition test_is_empty_and_len :: bool where
  "test_is_empty_and_len \<longleftrightarrow>
     chain_is_empty (chain_new :: string filter_chain) \<and> chain_len (chain_new :: string filter_chain) = 0
     \<and> unwrapping (add_filter anchored chain_new ''b/TEST'') (\<lambda>chain. \<not> chain_is_empty chain \<and> chain_len chain = 1
         \<and> unwrapping (add_filter anchored chain ''-b/BAD'') (\<lambda>chain. chain_len chain = 2))"
definition test_only_negative_filters_pass_unmatched :: bool where
  "test_only_negative_filters_pass_unmatched \<longleftrightarrow>
     chain_passes [''-b/SPAM'', ''-p/TCPIP''] [''GOOD>APRS:test''] [''SPAM>APRS:test'', ''SRC>TCPIP:test'']"
definition test_multiple_positive_filters_or_logic :: bool where
  "test_multiple_positive_filters_or_logic \<longleftrightarrow>
     chain_passes [''b/OH2MQK'', ''p/APRS''] [''OH2MQK>CQ:test'', ''W3ADO>APRS:test''] [''W3ADO>CQ:test'']"
definition test_negative_overrides_positive :: bool where
  "test_negative_overrides_positive \<longleftrightarrow> chain_passes [''b/OH2*'', ''-b/OH2BAD''] [] [''OH2BAD>APRS:test'']"

lemma filter_chain_tests_pass:
  "test_empty_chain_passes_all" "test_budlist_exact_match" "test_budlist_wildcard" "test_negative_budlist"
  "test_prefix_filter" "test_negative_prefix" "test_regex_source" "test_regex_data" "test_regex_rejects_matching"
  "test_combined_positive_and_negative"
  by code_simp+

lemma filter_parse_tests_pass:
  "test_parse_budlist" "test_parse_negative_budlist" "test_parse_prefix" "test_parse_invalid"
  by code_simp+

lemma filter_edge_tests_pass:
  "test_multiple_budlist_entries" "test_case_insensitive_budlist" "test_regex_via_filter" "test_is_empty_and_len"
  "test_only_negative_filters_pass_unmatched" "test_multiple_positive_filters_or_logic" "test_negative_overrides_positive"
  by code_simp+

section \<open>src/digipeater/mod.rs\<close>

definition default_config :: digi_config where
  "default_config =
     \<lparr>transmitter_call = ''MYCALL'', max_hops_req = 4, max_hops_done = 4, wide_keywords = [''WIDE'', ''RELAY'']\<rparr>"

definition test_parse_via_addresses :: bool where
  "test_parse_via_addresses \<longleftrightarrow>
     some_of (parse_addresses ''SRC>DST,VIA1*,WIDE2-2'') (\<lambda>parsed.
       pa_source parsed = ''SRC'' \<and> pa_dest parsed = ''DST'' \<and> length (pa_vias parsed) = 2
       \<and> at_index (pa_vias parsed) 0 (\<lambda>v. via_callsign v = ''VIA1'' \<and> via_ssid v = 0 \<and> h_bit v)
       \<and> at_index (pa_vias parsed) 1 (\<lambda>v. via_callsign v = ''WIDE2'' \<and> via_ssid v = 2 \<and> \<not> h_bit v))"

definition test_parse_via_no_vias :: bool where
  "test_parse_via_no_vias \<longleftrightarrow>
     some_of (parse_addresses ''SRC>DST'') (\<lambda>parsed. pa_source parsed = ''SRC'' \<and> pa_dest parsed = ''DST'' \<and> pa_vias parsed = [])"

definition test_parse_via_with_ssid :: bool where
  "test_parse_via_with_ssid \<longleftrightarrow>
     (let via = parse_via ''N0CALL-15*''
      in via_callsign via = ''N0CALL'' \<and> via_ssid via = 15 \<and> h_bit via \<and> via_raw via = ''N0CALL-15'')"

text \<open>What the digipeater makes of a line.\<close>

abbreviation digipeats :: "digi_config \<Rightarrow> string \<Rightarrow> digi_result \<Rightarrow> bool" where
  "digipeats cfg line result \<equiv> process_digipeat (made line ''port0'') cfg = Some result"

definition test_wide1_1_direct_heard :: bool where
  "test_wide1_1_direct_heard \<longleftrightarrow> digipeats default_config ''SRC>DST,WIDE1-1:data'' (Digipeat ''SRC>DST,MYCALL*:data'')"
definition test_wide2_2_first_hop :: bool where
  "test_wide2_2_first_hop \<longleftrightarrow> digipeats default_config ''SRC>DST,WIDE2-2:data'' (Digipeat ''SRC>DST,MYCALL*,WIDE2-1:data'')"
definition test_wide2_1_last_hop :: bool where
  "test_wide2_1_last_hop \<longleftrightarrow> digipeats default_config ''SRC>DST,WIDE2-1:data'' (Digipeat ''SRC>DST,MYCALL*:data'')"
definition test_already_digipeated_via_skipped :: bool where
  "test_already_digipeated_via_skipped \<longleftrightarrow>
     digipeats default_config ''SRC>DST,VIA1*,WIDE1-1:data'' (Digipeat ''SRC>DST,VIA1*,MYCALL*:data'')"
definition test_no_via_to_process :: bool where
  "test_no_via_to_process \<longleftrightarrow> digipeats default_config ''SRC>DST:data'' (Drop NoViasToProcess)"
definition test_all_vias_digipeated :: bool where
  "test_all_vias_digipeated \<longleftrightarrow> digipeats default_config ''SRC>DST,VIA1*:data'' (Drop HopsExhausted)"
definition test_direct_callsign_match :: bool where
  "test_direct_callsign_match \<longleftrightarrow> digipeats default_config ''SRC>DST,MYCALL:data'' (Digipeat ''SRC>DST,MYCALL*:data'')"
definition test_exceeds_max_hops :: bool where
  "test_exceeds_max_hops \<longleftrightarrow>
     digipeats \<lparr>transmitter_call = ''MYCALL'', max_hops_req = 4, max_hops_done = 4, wide_keywords = [''WIDE'']\<rparr>
       ''SRC>DST,WIDE7-7:data'' (Drop ExceedsMaxHops)"
definition test_our_callsign_already_digipeated :: bool where
  "test_our_callsign_already_digipeated \<longleftrightarrow>
     digipeats default_config ''SRC>DST,MYCALL*,WIDE1-1:data'' (Drop AlreadyDigipeated)"
definition test_not_aprs_packet :: bool where
  "test_not_aprs_packet \<longleftrightarrow>
     process_digipeat (packet_new 0 ''SRC>DST,WIDE1-1:data'' ''port0'' False) default_config = Some (Drop NotAprs)"
definition test_wide_n_zero_drops :: bool where
  "test_wide_n_zero_drops \<longleftrightarrow> digipeats default_config ''SRC>DST,WIDE2-0:data'' (Drop HopsExhausted)"
definition test_relay_keyword_match :: bool where
  "test_relay_keyword_match \<longleftrightarrow> digipeats default_config ''SRC>DST,RELAY:data'' (Drop HopsExhausted)"
definition test_multiple_vias_with_remaining :: bool where
  "test_multiple_vias_with_remaining \<longleftrightarrow>
     digipeats default_config ''SRC>DST,WIDE2-2,WIDE1-1:data'' (Digipeat ''SRC>DST,MYCALL*,WIDE2-1,WIDE1-1:data'')"
definition test_exceeds_max_hops_done :: bool where
  "test_exceeds_max_hops_done \<longleftrightarrow>
     digipeats \<lparr>transmitter_call = ''MYCALL'', max_hops_req = 4, max_hops_done = 2, wide_keywords = [''WIDE'']\<rparr>
       ''SRC>DST,A*,B*,C*,WIDE1-1:data'' (Drop ExceedsMaxHops)"
definition test_unmatched_via_drops :: bool where
  "test_unmatched_via_drops \<longleftrightarrow> digipeats default_config ''SRC>DST,UNKNOWN-1:data'' (Drop NoViasToProcess)"
definition test_extract_requested_n :: bool where
  "test_extract_requested_n \<longleftrightarrow>
     extract_requested_n ''WIDE2'' = 2 \<and> extract_requested_n ''WIDE1'' = 1 \<and> extract_requested_n ''RELAY'' = 0
     \<and> extract_requested_n ''WIDE12'' = 12"
definition test_case_insensitive_callsign_match :: bool where
  "test_case_insensitive_callsign_match \<longleftrightarrow>
     digipeats (default_config\<lparr>transmitter_call := ''MYCALL''\<rparr>) ''SRC>DST,mycall:data'' (Digipeat ''SRC>DST,MYCALL*:data'')"

lemma path_tests_pass: "test_parse_via_addresses" "test_parse_via_no_vias" "test_parse_via_with_ssid" "test_extract_requested_n"
  by code_simp+

lemma digipeat_tests_pass:
  "test_wide1_1_direct_heard" "test_wide2_2_first_hop" "test_wide2_1_last_hop" "test_already_digipeated_via_skipped"
  "test_no_via_to_process" "test_all_vias_digipeated" "test_direct_callsign_match" "test_exceeds_max_hops"
  by code_simp+

lemma digipeat_tests_pass_2:
  "test_our_callsign_already_digipeated" "test_not_aprs_packet" "test_wide_n_zero_drops" "test_relay_keyword_match"
  "test_multiple_vias_with_remaining" "test_exceeds_max_hops_done" "test_unmatched_via_drops"
  "test_case_insensitive_callsign_match"
  by code_simp+

text \<open>The limiter, with the instants of its calls.\<close>

definition test_rate_limiter_allows :: bool where
  "test_rate_limiter_allows \<longleftrightarrow> snd (try_consume (rate_limiter_new 60 5 0) 1)"

definition test_rate_limiter_blocks :: bool where
  "test_rate_limiter_blocks \<longleftrightarrow> snd (try_all (rate_limiter_new 60 2 0) [1, 2, 3]) = [True, True, False]"

definition test_rate_limiter_refills :: bool where
  "test_rate_limiter_refills \<longleftrightarrow>
     snd (try_all (rate_limiter_new 6000 1 0) [1, 2, 2 + millis 20]) = [True, False, True]"

lemma limiter_tests_pass: "test_rate_limiter_allows" "test_rate_limiter_blocks" "test_rate_limiter_refills"
  by (simp_all add: test_rate_limiter_allows_def test_rate_limiter_blocks_def test_rate_limiter_refills_def
      rate_limiter_new_def try_consume_def refill_def as_secs_f64_def duration_since_def Let_def)

end
