(* ===== verification/Tests_Gate.thy ===== *)
theory Tests_Gate
  imports Tests_Base Igate Router Erlang
begin

text \<open>
  The unit tests of \<open>src/igate.rs\<close>, \<open>src/history.rs\<close>, \<open>src/erlang.rs\<close> and \<open>src/router.rs\<close>, and the integration tests
  of \<open>tests/integration_test.rs\<close>, which put a router before the iGate.
\<close>

section \<open>src/igate.rs\<close>

definition pkt :: "string \<Rightarrow> packet" where
  "pkt line = packet_new 0 line ''radio0'' True"

abbreviation gates :: "string \<Rightarrow> string \<Rightarrow> gate_result \<Rightarrow> bool" where
  "gates line gate_call result \<equiv> gate_to_aprsis (pkt line) gate_call 0 = Some result"

definition test_forbidden_source_wide :: bool where
  "test_forbidden_source_wide \<longleftrightarrow> gates ''WIDE1-1>APRS:data'' ''GATE'' DroppedForbiddenSource"
definition test_forbidden_source_relay :: bool where
  "test_forbidden_source_relay \<longleftrightarrow> gates ''RELAY>APRS:data'' ''GATE'' DroppedForbiddenSource"
definition test_forbidden_source_tcpip :: bool where
  "test_forbidden_source_tcpip \<longleftrightarrow> gates ''TCPIP>APRS:data'' ''GATE'' DroppedForbiddenSource"
definition test_forbidden_source_nocall :: bool where
  "test_forbidden_source_nocall \<longleftrightarrow> gates ''NOCALL>APRS:data'' ''GATE'' DroppedForbiddenSource"
definition test_forbidden_source_n0call :: bool where
  "test_forbidden_source_n0call \<longleftrightarrow> gates ''N0CALL>APRS:data'' ''GATE'' DroppedForbiddenSource"
definition test_forbidden_dest_tcpip :: bool where
  "test_forbidden_dest_tcpip \<longleftrightarrow> gates ''TEST>TCPIP:data'' ''GATE'' DroppedForbiddenDest"
definition test_forbidden_dest_nogate :: bool where
  "test_forbidden_dest_nogate \<longleftrightarrow> gates ''TEST>NOGATE:data'' ''GATE'' DroppedForbiddenDest"
definition test_forbidden_dest_rfonly :: bool where
  "test_forbidden_dest_rfonly \<longleftrightarrow> gates ''TEST>RFONLY:data'' ''GATE'' DroppedForbiddenDest"
definition test_forbidden_via_rfonly :: bool where
  "test_forbidden_via_rfonly \<longleftrightarrow> gates ''TEST>APRS,RFONLY:data'' ''GATE'' DroppedForbiddenVia"
definition test_forbidden_via_nogate :: bool where
  "test_forbidden_via_nogate \<longleftrightarrow> gates ''TEST>APRS,NOGATE:data'' ''GATE'' DroppedForbiddenVia"
definition test_forbidden_via_tcpip :: bool where
  "test_forbidden_via_tcpip \<longleftrightarrow> gates ''TEST>APRS,TCPIP:data'' ''GATE'' DroppedForbiddenVia"
definition test_query_packet_rejected :: bool where
  "test_query_packet_rejected \<longleftrightarrow> gates ''TEST>APRS:?APRS?'' ''GATE'' DroppedQuery"

definition test_valid_packet_gated :: bool where
  "test_valid_packet_gated \<longleftrightarrow>
     (case gate_to_aprsis (pkt ''OH2MQK-1>APRS,WIDE1-1*:!6029.50N/02505.43E>'') ''GATE'' 0 of
        Some (Gated line) \<Rightarrow> has_infix line ''qAR,GATE'' \<and> has_infix line ''!6029.50N/02505.43E>''
      | _ \<Rightarrow> False)"

definition test_qar_construct_format :: bool where
  "test_qar_construct_format \<longleftrightarrow>
     (case gate_to_aprsis (pkt ''OH2MQK-1>APRS,WIDE1-1*:!6029.50N/02505.43E>'') ''MYCALL'' 0 of
        Some (Gated line) \<Rightarrow> line = ''OH2MQK-1>APRS,WIDE1-1*,qAR,MYCALL:!6029.50N/02505.43E>''
      | _ \<Rightarrow> False)"

definition test_third_party_frame :: bool where
  "test_third_party_frame \<longleftrightarrow>
     (case gate_to_aprsis (pkt ''OH2MQK>APRS:}TEST>APRS:valid'') ''GATE'' 0 of
        Some (Gated line) \<Rightarrow> line = ''TEST>APRS,qAR,GATE:valid''
      | _ \<Rightarrow> False)"

definition test_third_party_with_forbidden :: bool where
  "test_third_party_with_forbidden \<longleftrightarrow> gates ''OH2MQK>APRS:}NOCALL>APRS:data'' ''GATE'' DroppedForbiddenSource"

definition test_valid_source_passes :: bool where
  "test_valid_source_passes \<longleftrightarrow> \<not> is_forbidden_source ''OH2MQK-1''"
definition test_forbidden_source_prefix_match :: bool where
  "test_forbidden_source_prefix_match \<longleftrightarrow> is_forbidden_source ''WIDE2-2''"
definition test_via_with_star_suffix :: bool where
  "test_via_with_star_suffix \<longleftrightarrow> \<not> is_forbidden_via ''WIDE1-1*''"
definition test_empty_via_list :: bool where
  "test_empty_via_list \<longleftrightarrow> gates ''OH2MQK>APRS:data'' ''GATE'' (Gated ''OH2MQK>APRS,qAR,GATE:data'')"
definition test_forbidden_source_trace :: bool where
  "test_forbidden_source_trace \<longleftrightarrow> is_forbidden_source ''TRACE5-5''"
definition test_forbidden_source_tcpxx :: bool where
  "test_forbidden_source_tcpxx \<longleftrightarrow> is_forbidden_source ''TCPXX''"
definition test_forbidden_dest_tcpxx :: bool where
  "test_forbidden_dest_tcpxx \<longleftrightarrow> is_forbidden_destination ''TCPXX''"
definition test_forbidden_dest_nocall :: bool where
  "test_forbidden_dest_nocall \<longleftrightarrow> is_forbidden_destination ''NOCALL''"
definition test_forbidden_dest_n0call :: bool where
  "test_forbidden_dest_n0call \<longleftrightarrow> is_forbidden_destination ''N0CALL''"
definition test_forbidden_via_tcpxx :: bool where
  "test_forbidden_via_tcpxx \<longleftrightarrow> is_forbidden_via ''TCPXX''"
definition test_forbidden_via_with_star_stripped :: bool where
  "test_forbidden_via_with_star_stripped \<longleftrightarrow> is_forbidden_via ''RFONLY*''"
definition test_normal_callsign_not_forbidden_dest :: bool where
  "test_normal_callsign_not_forbidden_dest \<longleftrightarrow> \<not> is_forbidden_destination ''APRS''"
definition test_normal_callsign_not_forbidden_via :: bool where
  "test_normal_callsign_not_forbidden_via \<longleftrightarrow> \<not> is_forbidden_via ''OH2RDK''"
definition test_extract_via_no_via :: bool where
  "test_extract_via_no_via \<longleftrightarrow> extract_via_callsigns ''SRC>DST'' = []"
definition test_extract_via_single :: bool where
  "test_extract_via_single \<longleftrightarrow> extract_via_callsigns ''SRC>DST,VIA1'' = [''VIA1'']"
definition test_extract_via_multiple :: bool where
  "test_extract_via_multiple \<longleftrightarrow> extract_via_callsigns ''SRC>DST,VIA1,VIA2*,VIA3'' = [''VIA1'', ''VIA2*'', ''VIA3'']"
definition test_multiple_via_with_one_forbidden :: bool where
  "test_multiple_via_with_one_forbidden \<longleftrightarrow> gates ''TEST>APRS,WIDE1-1,NOGATE:data'' ''GATE'' DroppedForbiddenVia"
definition test_query_with_different_query :: bool where
  "test_query_with_different_query \<longleftrightarrow> gates ''TEST>APRS:?WX?'' ''GATE'' DroppedQuery"
definition test_payload_starting_with_normal_char :: bool where
  "test_payload_starting_with_normal_char \<longleftrightarrow>
     (case gate_to_aprsis (pkt ''TEST>APRS:!4903.50N/07201.75W-'') ''GATE'' 0 of Some (Gated _) \<Rightarrow> True | _ \<Rightarrow> False)"

lemma gate_drop_tests_pass:
  "test_forbidden_source_wide" "test_forbidden_source_relay" "test_forbidden_source_tcpip" "test_forbidden_source_nocall"
  "test_forbidden_source_n0call" "test_forbidden_dest_tcpip" "test_forbidden_dest_nogate" "test_forbidden_dest_rfonly"
  "test_forbidden_via_rfonly" "test_forbidden_via_nogate" "test_forbidden_via_tcpip" "test_query_packet_rejected"
  by code_simp+

lemma gate_tests_pass:
  "test_valid_packet_gated" "test_qar_construct_format" "test_third_party_frame" "test_third_party_with_forbidden"
  "test_empty_via_list" "test_multiple_via_with_one_forbidden" "test_query_with_different_query"
  "test_payload_starting_with_normal_char"
  by code_simp+

lemma gate_helper_tests_pass:
  "test_valid_source_passes" "test_forbidden_source_prefix_match" "test_via_with_star_suffix" "test_forbidden_source_trace"
  "test_forbidden_source_tcpxx" "test_forbidden_dest_tcpxx" "test_forbidden_dest_nocall" "test_forbidden_dest_n0call"
  "test_forbidden_via_tcpxx" "test_forbidden_via_with_star_stripped" "test_normal_callsign_not_forbidden_dest"
  "test_normal_callsign_not_forbidden_via" "test_extract_via_no_via" "test_extract_via_single" "test_extract_via_multiple"
  by code_simp+

text \<open>The transmitting iGate, with the stations heard one after the other from instant 0.\<close>

definition make_history :: history_db where
  "make_history = history_new DEFAULT_TTL"

fun heard_on :: "history_db \<Rightarrow> string list \<Rightarrow> instant \<Rightarrow> history_db" where
  "heard_on db [] now = db"
| "heard_on db (c # cs) now = heard_on (heard db c ''radio0'' None now) cs (Suc now)"

abbreviation rf_gates :: "string list \<Rightarrow> string \<Rightarrow> string option may_panic" where
  "rf_gates calls line \<equiv> gate_to_rf (pkt line) ''MYGATE'' (heard_on make_history calls 0) 9"

definition test_gate_to_rf_valid_message :: bool where
  "test_gate_to_rf_valid_message \<longleftrightarrow> some_of (rf_gates [''WA1ABC''] ''KB1ABC>APRS,qAR,SOMEGATE::WA1ABC   :Hello{123'') is_some"
definition test_gate_to_rf_dest_not_heard :: bool where
  "test_gate_to_rf_dest_not_heard \<longleftrightarrow> rf_gates [] ''KB1ABC>APRS::WA1ABC   :Hello{123'' = Some None"
definition test_gate_to_rf_source_heard_on_rf :: bool where
  "test_gate_to_rf_source_heard_on_rf \<longleftrightarrow> rf_gates [''WA1ABC'', ''KB1ABC''] ''KB1ABC>APRS::WA1ABC   :Hello{123'' = Some None"
definition test_gate_to_rf_not_a_message :: bool where
  "test_gate_to_rf_not_a_message \<longleftrightarrow> rf_gates [''WA1ABC''] ''KB1ABC>APRS:!4903.50N/07201.75W-'' = Some None"
definition test_gate_to_rf_third_party_rejected :: bool where
  "test_gate_to_rf_third_party_rejected \<longleftrightarrow> rf_gates [''WA1ABC''] ''KB1ABC>APRS:}TEST>APRS::WA1ABC   :Hello'' = Some None"
definition test_gate_to_rf_forbidden_tcpxx :: bool where
  "test_gate_to_rf_forbidden_tcpxx \<longleftrightarrow> rf_gates [''WA1ABC''] ''KB1ABC>APRS,TCPXX::WA1ABC   :Hello{123'' = Some None"
definition test_gate_to_rf_forbidden_nogate :: bool where
  "test_gate_to_rf_forbidden_nogate \<longleftrightarrow> rf_gates [''WA1ABC''] ''KB1ABC>APRS,NOGATE::WA1ABC   :Hello{123'' = Some None"
definition test_gate_to_rf_forbidden_rfonly :: bool where
  "test_gate_to_rf_forbidden_rfonly \<longleftrightarrow> rf_gates [''WA1ABC''] ''KB1ABC>APRS,RFONLY::WA1ABC   :Hello{123'' = Some None"
definition test_gate_to_rf_forbidden_qax :: bool where
  "test_gate_to_rf_forbidden_qax \<longleftrightarrow> rf_gates [''WA1ABC''] ''KB1ABC>APRS,qAX::WA1ABC   :Hello{123'' = Some None"
definition test_gate_to_rf_format :: bool where
  "test_gate_to_rf_format \<longleftrightarrow>
     rf_gates [''WA1ABC''] ''KB1ABC>APRS::WA1ABC   :Hello{123'' = Some (Some ''}KB1ABC>APRS,TCPIP,MYGATE*::WA1ABC   :Hello{123'')"
definition test_gate_to_rf_query_rejected :: bool where
  "test_gate_to_rf_query_rejected \<longleftrightarrow> rf_gates [''WA1ABC''] ''KB1ABC>APRS:?APRS?'' = Some None"

lemma rf_tests_pass:
  "test_gate_to_rf_valid_message" "test_gate_to_rf_dest_not_heard" "test_gate_to_rf_source_heard_on_rf"
  "test_gate_to_rf_not_a_message" "test_gate_to_rf_third_party_rejected" "test_gate_to_rf_forbidden_tcpxx"
  "test_gate_to_rf_forbidden_nogate" "test_gate_to_rf_forbidden_rfonly" "test_gate_to_rf_forbidden_qax"
  "test_gate_to_rf_format" "test_gate_to_rf_query_rejected"
  by code_simp+

definition test_sanitize_line_clean :: bool where
  "test_sanitize_line_clean \<longleftrightarrow> sanitize_line ''hello world'' = ''hello world''"
definition test_sanitize_line_cr :: bool where
  "test_sanitize_line_cr \<longleftrightarrow> sanitize_line (''hello'' @ [CHR 0x0D] @ ''injected'') = ''hello''"
definition test_sanitize_line_lf :: bool where
  "test_sanitize_line_lf \<longleftrightarrow> sanitize_line (''hello'' @ [CHR 0x0A] @ ''injected'') = ''hello''"
definition test_sanitize_line_crlf :: bool where
  "test_sanitize_line_crlf \<longleftrightarrow> sanitize_line (''hello'' @ [CHR 0x0D, CHR 0x0A] @ ''injected'') = ''hello''"
definition test_sanitize_line_empty :: bool where
  "test_sanitize_line_empty \<longleftrightarrow> sanitize_line '''' = ''''"

definition test_gate_to_aprsis_crlf_in_payload :: bool where
  "test_gate_to_aprsis_crlf_in_payload \<longleftrightarrow>
     (case gate_to_aprsis (pkt (''TEST>APRS:data'' @ [CHR 0x0D, CHR 0x0A] @ ''INJECTED>APRS:evil'')) ''GATE'' 0 of
        Some (Gated line) \<Rightarrow> CHR 0x0D \<notin> set line \<and> CHR 0x0A \<notin> set line \<and> has_infix line ''data'' \<and> \<not> has_infix line ''INJECTED''
      | _ \<Rightarrow> False)"

definition test_gate_to_rf_crlf_in_payload :: bool where
  "test_gate_to_rf_crlf_in_payload \<longleftrightarrow>
     some_of (rf_gates [''WA1ABC''] (''KB1ABC>APRS::WA1ABC   :Hello'' @ [CHR 0x0D, CHR 0x0A] @ ''INJECTED'')) (\<lambda>r.
     some_of r (\<lambda>result. CHR 0x0D \<notin> set result \<and> CHR 0x0A \<notin> set result))"

definition test_deeply_nested_third_party_frames :: bool where
  "test_deeply_nested_third_party_frames \<longleftrightarrow>
     (let nested = foldl (\<lambda>nested i. ''L'' @ show_nat i @ ''>APRS:}'' @ nested) ''TEST>APRS:data'' (rev [1..<11])
      in gates nested ''GATE'' DroppedDepthExceeded)"

definition test_third_party_frame_at_max_depth :: bool where
  "test_third_party_frame_at_max_depth \<longleftrightarrow>
     (case gate_to_aprsis (pkt ''L1>APRS:}L2>APRS:}L3>APRS:}TEST>APRS:data'') ''GATE'' 0 of
        Some (Gated _) \<Rightarrow> True | _ \<Rightarrow> False)"

definition test_third_party_frame_exceeds_max_depth :: bool where
  "test_third_party_frame_exceeds_max_depth \<longleftrightarrow>
     gates ''L1>APRS:}L2>APRS:}L3>APRS:}L4>APRS:}TEST>APRS:data'' ''GATE'' DroppedDepthExceeded"

lemma injection_tests_pass:
  "test_sanitize_line_clean" "test_sanitize_line_cr" "test_sanitize_line_lf" "test_sanitize_line_crlf"
  "test_sanitize_line_empty" "test_gate_to_aprsis_crlf_in_payload" "test_gate_to_rf_crlf_in_payload"
  "test_deeply_nested_third_party_frames" "test_third_party_frame_at_max_depth" "test_third_party_frame_exceeds_max_depth"
  by code_simp+

section \<open>src/history.rs\<close>

definition test_heard_creates_entry :: bool where
  "test_heard_creates_entry \<longleftrightarrow> was_heard (heard (history_new DEFAULT_TTL) ''OH2MQK'' ''port0'' None 0) ''OH2MQK'' 1"

definition test_not_heard_returns_false :: bool where
  "test_not_heard_returns_false \<longleftrightarrow> \<not> was_heard (history_new DEFAULT_TTL) ''UNKNOWN'' 0"

definition test_heard_updates_timestamp :: bool where
  "test_heard_updates_timestamp \<longleftrightarrow>
     (let db = heard (history_new DEFAULT_TTL) ''OH2MQK'' ''port0'' None 0 in
      some_of (history_get db ''OH2MQK'' 1) (\<lambda>first.
        let db = heard db ''OH2MQK'' ''port0'' None 2 in
        some_of (history_get db ''OH2MQK'' 3) (\<lambda>second. last_heard second \<ge> last_heard first)))"

definition test_heard_increments_count :: bool where
  "test_heard_increments_count \<longleftrightarrow>
     (let db = heard (history_new DEFAULT_TTL) ''OH2MQK'' ''port0'' None 0 in
      some_of (history_get db ''OH2MQK'' 1) (\<lambda>r. heard_count r = 1)
      \<and> (let db = heard db ''OH2MQK'' ''port0'' None 2 in
         some_of (history_get db ''OH2MQK'' 3) (\<lambda>r. heard_count r = 2)
         \<and> (let db = heard db ''OH2MQK'' ''port0'' None 4 in
            some_of (history_get db ''OH2MQK'' 5) (\<lambda>r. heard_count r = 3))))"

definition test_expiration_history :: bool where
  "test_expiration_history \<longleftrightarrow> \<not> was_heard (heard (history_new 1) ''OH2MQK'' ''port0'' None 0) ''OH2MQK'' 1"

definition test_cleanup_removes_expired_history :: bool where
  "test_cleanup_removes_expired_history \<longleftrightarrow>
     (let db = heard (history_new 1) ''OH2MQK'' ''port0'' None 0; db = heard db ''OH2RDG'' ''port1'' None 0
      in hist_entries (history_cleanup db 1) = [])"

definition test_cleanup_keeps_fresh_history :: bool where
  "test_cleanup_keeps_fresh_history \<longleftrightarrow>
     (let db = heard (history_new DEFAULT_TTL) ''OH2MQK'' ''port0'' None 0; db = heard db ''OH2RDG'' ''port1'' None 1;
          db = history_cleanup db 2
      in length (hist_entries db) = 2 \<and> was_heard db ''OH2MQK'' 3 \<and> was_heard db ''OH2RDG'' 4)"

definition test_get_returns_record :: bool where
  "test_get_returns_record \<longleftrightarrow>
     (let db = heard (history_new DEFAULT_TTL) ''OH2MQK'' ''port0'' (Some (Fin 60.49, Fin 25.09)) 0 in
      some_of (history_get db ''OH2MQK'' 1) (\<lambda>r. rec_callsign r = ''OH2MQK'' \<and> rec_interface r = ''port0''
        \<and> rec_position r = Some (Fin 60.49, Fin 25.09) \<and> heard_count r = 1))"

definition test_case_insensitive :: bool where
  "test_case_insensitive \<longleftrightarrow>
     (let db = heard (history_new DEFAULT_TTL) ''oh2mqk'' ''port0'' None 0
      in was_heard db ''OH2MQK'' 1 \<and> was_heard db ''oh2mqk'' 2 \<and> was_heard db ''Oh2Mqk'' 3
         \<and> (let db = heard db ''OH2MQK'' ''port1'' None 4
            in some_of (history_get db ''oh2mqk'' 5) (\<lambda>r. heard_count r = 2) \<and> length (hist_entries db) = 1))"

definition test_position_stored :: bool where
  "test_position_stored \<longleftrightarrow>
     (let db = heard (history_new DEFAULT_TTL) ''OH2MQK'' ''port0'' None 0 in
      some_of (history_get db ''OH2MQK'' 1) (\<lambda>r. rec_position r = None)
      \<and> (let db = heard db ''OH2MQK'' ''port0'' (Some (Fin 60.49, Fin 25.09)) 2 in
         some_of (history_get db ''OH2MQK'' 3) (\<lambda>r. rec_position r = Some (Fin 60.49, Fin 25.09))
         \<and> (let db = heard db ''OH2MQK'' ''port0'' None 4 in
            some_of (history_get db ''OH2MQK'' 5) (\<lambda>r. rec_position r = Some (Fin 60.49, Fin 25.09)))))"

definition test_len_and_is_empty_history :: bool where
  "test_len_and_is_empty_history \<longleftrightarrow>
     (let db = history_new DEFAULT_TTL in history_len db 0 = 0 \<and> history_is_empty db 0
      \<and> (let db = heard db ''OH2MQK'' ''port0'' None 1 in history_len db 2 = 1 \<and> \<not> history_is_empty db 2
         \<and> (let db = heard db ''OH2RDG'' ''port1'' None 3 in history_len db 4 = 2 \<and> \<not> history_is_empty db 4)))"

lemma history_tests_pass:
  "test_heard_creates_entry" "test_not_heard_returns_false" "test_heard_updates_timestamp" "test_heard_increments_count"
  "test_expiration_history" "test_cleanup_removes_expired_history" "test_cleanup_keeps_fresh_history"
  "test_case_insensitive" "test_len_and_is_empty_history"
  by code_simp+

lemma history_upper [simp]:
  "ascii_upper CHR ''O'' = CHR ''O''" "ascii_upper CHR ''H'' = CHR ''H''" "ascii_upper CHR ''2'' = CHR ''2''"
  "ascii_upper CHR ''M'' = CHR ''M''" "ascii_upper CHR ''Q'' = CHR ''Q''" "ascii_upper CHR ''K'' = CHR ''K''"
  by code_simp+

lemma history_position_tests_pass: "test_get_returns_record" "test_position_stored"
  by (simp_all add: test_get_returns_record_def test_position_stored_def heard_def history_get_def history_new_def
      hm_get_def is_fresh_def duration_since_def DEFAULT_TTL_def from_secs_def some_of_def Let_def)

section \<open>src/erlang.rs\<close>

text \<open>The clock of a channel is only stored.\<close>

definition test_record_rx :: bool where
  "test_record_rx \<longleftrightarrow>
     (let stats = record_rx (record_rx (channel_new ''port0'' 0) 100) 200
      in rx_packets (current stats) = 2 \<and> rx_bytes (current stats) = 300 \<and> tx_packets (current stats) = 0
         \<and> tx_bytes (current stats) = 0 \<and> drops (current stats) = 0)"

definition test_record_tx :: bool where
  "test_record_tx \<longleftrightarrow>
     (let stats = record_tx (record_tx (record_tx (channel_new ''port0'' 0) 50) 75) 25
      in tx_packets (current stats) = 3 \<and> tx_bytes (current stats) = 150 \<and> rx_packets (current stats) = 0)"

definition busy_minute :: channel_stats where
  "busy_minute = rotate_channel (record_drop (record_tx (record_rx (channel_new ''port0'' 0) 100) 50)) 1"

definition test_rotate_moves_to_last_1min :: bool where
  "test_rotate_moves_to_last_1min \<longleftrightarrow>
     rx_packets (last_1min busy_minute) = 1 \<and> rx_bytes (last_1min busy_minute) = 100 \<and> tx_packets (last_1min busy_minute) = 1
     \<and> tx_bytes (last_1min busy_minute) = 50 \<and> drops (last_1min busy_minute) = 1"

definition test_rotate_resets_current :: bool where
  "test_rotate_resets_current \<longleftrightarrow>
     rx_packets (current busy_minute) = 0 \<and> rx_bytes (current busy_minute) = 0 \<and> tx_packets (current busy_minute) = 0
     \<and> tx_bytes (current busy_minute) = 0 \<and> drops (current busy_minute) = 0"

text \<open>Minutes with the bytes of the packets received in each.\<close>

abbreviation minutes :: "u64 list list \<Rightarrow> channel_stats" where
  "minutes bss \<equiv> run_minutes (channel_new ''port0'' 0) (map (\<lambda>bs. (map Rx bs, 0)) bss)"

definition test_10min_accumulation :: bool where
  "test_10min_accumulation \<longleftrightarrow>
     (let stats = minutes (replicate 10 (replicate 5 100))
      in rx_packets (last_10min stats) = 50 \<and> rx_bytes (last_10min stats) = 5000)"

definition test_10min_window_slides :: bool where
  "test_10min_window_slides \<longleftrightarrow>
     rx_packets (last_10min (minutes (replicate 10 (replicate 10 10)))) = 100
     \<and> rx_packets (last_10min (minutes (replicate 10 (replicate 10 10) @ replicate 5 [10]))) = 55"

definition test_60min_accumulation :: bool where
  "test_60min_accumulation \<longleftrightarrow>
     (let stats = minutes (replicate 60 [10]) in rx_packets (last_60min stats) = 60 \<and> rx_bytes (last_60min stats) = 600)"

definition test_60min_ring_buffer_cap :: bool where
  "test_60min_ring_buffer_cap \<longleftrightarrow>
     (let stats = minutes (map (\<lambda>i. [of_nat i + 1]) [0..<70])
      in length (minute_samples stats) = 60 \<and> rx_bytes (last_60min stats) = sum_list (map of_nat [11..<71])
         \<and> rx_packets (last_60min stats) = 60)"

definition test_monitor_add_and_get :: bool where
  "test_monitor_add_and_get \<longleftrightarrow>
     (let monitor = add_channel (add_channel monitor_new ''port0'' 0) ''aprsis'' 1
      in is_some (monitor_get monitor ''port0'') \<and> is_some (monitor_get monitor ''aprsis'')
         \<and> \<not> is_some (monitor_get monitor ''nonexistent'') \<and> length monitor = 2)"

definition test_monitor_get_mut :: bool where
  "test_monitor_get_mut \<longleftrightarrow>
     (let monitor = monitor_update (add_channel monitor_new ''port0'' 0) ''port0'' (\<lambda>ch. record_rx ch 100)
      in some_of (monitor_get monitor ''port0'') (\<lambda>ch. rx_packets (current ch) = 1 \<and> rx_bytes (current ch) = 100))"

definition test_rotate_all :: bool where
  "test_rotate_all \<longleftrightarrow>
     (let monitor = add_channel (add_channel monitor_new ''port0'' 0) ''port1'' 1;
          monitor = monitor_update monitor ''port0'' (\<lambda>ch. record_rx ch 100);
          monitor = monitor_update monitor ''port1'' (\<lambda>ch. record_tx ch 200);
          monitor = rotate_all monitor 2
      in some_of (monitor_get monitor ''port0'') (\<lambda>p0. rx_packets (last_1min p0) = 1 \<and> rx_packets (current p0) = 0)
         \<and> some_of (monitor_get monitor ''port1'') (\<lambda>p1. tx_packets (last_1min p1) = 1 \<and> tx_packets (current p1) = 0))"

definition test_monitor_default :: bool where
  "test_monitor_default \<longleftrightarrow> monitor_new = []"

definition test_record_drop :: bool where
  "test_record_drop \<longleftrightarrow>
     (let stats = record_drop (record_drop (record_drop (channel_new ''port0'' 0)))
      in drops (current stats) = 3 \<and> rx_packets (current stats) = 0 \<and> tx_packets (current stats) = 0)"

definition test_window_stats_default :: bool where
  "test_window_stats_default \<longleftrightarrow>
     rx_packets window_default = 0 \<and> tx_packets window_default = 0 \<and> rx_bytes window_default = 0
     \<and> tx_bytes window_default = 0 \<and> drops window_default = 0"

lemma erlang_tests_pass:
  "test_record_rx" "test_record_tx" "test_rotate_moves_to_last_1min" "test_rotate_resets_current"
  "test_monitor_add_and_get" "test_monitor_get_mut" "test_rotate_all" "test_monitor_default" "test_record_drop"
  "test_window_stats_default"
  by code_simp+

text \<open>The tests over many minutes, by what the windows are after any minutes.\<close>

lemma minutes_windows: "windows_of (minutes bss) (map (map Rx) bss)"
proof -
  have "windows_of (channel_new ''port0'' 0) []"
    by (simp add: windows_of_def channel_new_def last_n_def)
  from run_minutes_windows [OF this, of "map (\<lambda>bs. (map Rx bs, 0)) bss"] show ?thesis by (simp add: comp_def)
qed

lemma total_received: "rx_packets (total (map Rx bs)) = of_nat (length bs)" "rx_bytes (total (map Rx bs)) = sum_list bs"
  by (simp_all add: total_def comp_def)

lemma minutes_received: "concat (last_n n (map (map Rx) bss)) = map Rx (concat (last_n n bss))"
  by (simp add: last_n_def drop_map map_concat)

lemma minutes_sums:
  "last_10min (minutes bss) = total (map Rx (concat (last_n 10 bss)))"
  "last_60min (minutes bss) = total (map Rx (concat (last_n 60 bss)))"
  "minute_samples (minutes bss) = map total (last_n 60 (map (map Rx) bss))"
  using minutes_windows [of bss] unfolding windows_of_def minutes_received by blast+

lemma concat_singles: "concat (replicate n [b]) = replicate n b"
  by (induction n) simp_all

lemma concat_replicates: "concat (replicate n (replicate k b)) = replicate (n * k) b"
  by (induction n) (simp_all add: replicate_add)

lemma last_seventy: "concat (last_n 60 (map (\<lambda>i. [of_nat i + 1 :: u64]) [0..<70])) = map of_nat [11..<71]"
proof -
  have "map (\<lambda>i. of_nat i + 1 :: u64) [10..<70] = map (of_nat \<circ> Suc) [10..<70]" by (simp add: comp_def add.commute)
  also have "\<dots> = map of_nat [11..<71]" by (simp only: map_map [symmetric] map_Suc_upt) simp
  finally have "concat (map (\<lambda>i. [of_nat i + 1 :: u64]) [10..<70]) = map of_nat [11..<71]" by simp
  then show ?thesis by (simp add: last_n_def drop_map del: upt_conv_Cons_Cons)
qed

lemma erlang_window_tests_pass:
  "test_10min_accumulation" "test_10min_window_slides" "test_60min_accumulation" "test_60min_ring_buffer_cap"
  unfolding test_10min_accumulation_def test_10min_window_slides_def test_60min_accumulation_def
    test_60min_ring_buffer_cap_def Let_def minutes_sums total_received last_seventy
  by (simp_all add: last_n_def concat_singles concat_replicates sum_list_replicate del: upt_conv_Cons_Cons)

section \<open>src/router.rs\<close>

text \<open>The channels of the tests hold a bounded number of packets in order; a consumer reads after the router has run.\<close>

abbreviation test_packet :: "string \<Rightarrow> packet" where
  "test_packet line \<equiv> packet_new 0 line ''test'' True"

definition routed :: "(string \<times> nat) list \<Rightarrow> packet list \<Rightarrow> packet list list" where
  "routed consumers ps =
     map (snd \<circ> con_tx) (router_run bounded_send
       (foldl (\<lambda>r (name, size). add_consumer (\<lambda>n. (n, [])) r name size) router_new consumers) (map Arrives ps))"

definition test_router_delivers_to_single_consumer :: bool where
  "test_router_delivers_to_single_consumer \<longleftrightarrow>
     at_index (routed [(''test'', 32)] [test_packet ''TEST>APRS:!4903.50N/07201.75W-'']) 0 (\<lambda>rx.
     at_index rx 0 (\<lambda>received. source_call received = ''TEST'' \<and> payload received = Some ''!4903.50N/07201.75W-''))"

definition test_router_delivers_to_multiple_consumers :: bool where
  "test_router_delivers_to_multiple_consumers \<longleftrightarrow>
     (let rxs = routed [(''consumer_a'', 32), (''consumer_b'', 32), (''consumer_c'', 32)]
                  [test_packet ''OH2MQK-1>APRS:!6029.50N/02505.43E>'']
      in list_all (\<lambda>i. at_index rxs i (\<lambda>rx. at_index rx 0 (\<lambda>p. source_call p = ''OH2MQK-1''))) [0, 1, 2])"

definition test_consumer_channel_full_causes_packet_drop :: bool where
  "test_consumer_channel_full_causes_packet_drop \<longleftrightarrow>
     at_index (routed [(''slow'', 1)] (map (\<lambda>i. test_packet (''SRC'' @ show_nat i @ ''>APRS:data'' @ show_nat i)) [0..<10])) 0
       (\<lambda>received. received \<noteq> [] \<and> length received < 10)"

definition test_router_delivers_multiple_packets_in_order :: bool where
  "test_router_delivers_multiple_packets_in_order \<longleftrightarrow>
     at_index (routed [(''test'', 32)] (map (\<lambda>i. test_packet (''SRC'' @ show_nat i @ ''>APRS:data'' @ show_nat i)) [0..<5])) 0
       (\<lambda>rx. list_all (\<lambda>i. at_index rx i (\<lambda>p. source_call p = ''SRC'' @ show_nat i)) [0..<5])"

definition test_router_stops_when_source_channel_closes :: bool where
  "test_router_stops_when_source_channel_closes \<longleftrightarrow>
     at_index (routed [(''test'', 32)] [test_packet ''TEST>APRS:data'']) 0 (\<lambda>rx. \<not> is_some (nth_opt rx 1))"

definition test_router_with_no_consumers_does_not_panic :: bool where
  "test_router_with_no_consumers_does_not_panic \<longleftrightarrow> routed [] [test_packet ''TEST>APRS:data''] = []"

text \<open>A channel whose receiver may be dropped (\<^const>\<open>None\<close>).\<close>

definition closable_send ::
  "(nat \<times> packet list) option \<Rightarrow> packet \<Rightarrow> (nat \<times> packet list) option \<times> send_result" where
  "closable_send ch p =
     (case ch of None \<Rightarrow> (None, SendClosed) | Some ch \<Rightarrow> (case bounded_send ch p of (ch, answer) \<Rightarrow> (Some ch, answer)))"

definition test_router_continues_when_one_consumer_closes :: bool where
  "test_router_continues_when_one_consumer_closes \<longleftrightarrow>
     (let router = add_consumer (\<lambda>n. Some (n, [])) (add_consumer (\<lambda>n. Some (n, [])) router_new ''dropped'' 32) ''alive'' 32;
          router = router_run closable_send router [Acts 0 (\<lambda>_. None), Arrives (test_packet ''TEST>APRS:data'')]
      in at_index router 1 (\<lambda>consumer_b. some_of (con_tx consumer_b) (\<lambda>(_, ps).
           at_index ps 0 (\<lambda>received. source_call received = ''TEST''))))"

lemma router_tests_pass:
  "test_router_delivers_to_single_consumer" "test_router_delivers_to_multiple_consumers"
  "test_consumer_channel_full_causes_packet_drop" "test_router_delivers_multiple_packets_in_order"
  "test_router_stops_when_source_channel_closes" "test_router_with_no_consumers_does_not_panic"
  "test_router_continues_when_one_consumer_closes"
  by code_simp+

section \<open>tests/integration_test.rs\<close>

definition test_packet_flows_through_router :: bool where
  "test_packet_flows_through_router \<longleftrightarrow>
     at_index (routed [(''test'', 32)] [packet_new 0 ''TEST>APRS:!4903.50N/07201.75W-'' ''radio0'' True]) 0 (\<lambda>rx.
     at_index rx 0 (\<lambda>received. source_call received = ''TEST'' \<and> dest_call received = ''APRS''
       \<and> payload received = Some ''!4903.50N/07201.75W-'' \<and> source_interface received = ''radio0'' \<and> is_aprs received))"

definition test_multiple_sources_fan_into_router :: bool where
  "test_multiple_sources_fan_into_router \<longleftrightarrow>
     at_index (routed [(''collector'', 32)] [packet_new 0 ''ALPHA>APRS:!position_a'' ''serial0'' True,
                                         packet_new 0 ''BRAVO>APRS:!position_b'' ''tcp0'' True]) 0 (\<lambda>rx.
       at_index rx 0 (\<lambda>first. source_call first = ''ALPHA'' \<and> source_interface first = ''serial0'')
       \<and> at_index rx 1 (\<lambda>second. source_call second = ''BRAVO'' \<and> source_interface second = ''tcp0''))"

definition test_router_fan_out_to_multiple_consumers :: bool where
  "test_router_fan_out_to_multiple_consumers \<longleftrightarrow>
     (let rxs = routed [(''igate'', 32), (''logger'', 32), (''digipeater'', 32)]
                  [packet_new 0 ''OH2MQK-1>APRS,WIDE1-1:!6029.50N/02505.43E>'' ''serial0'' True] in
      at_index rxs 0 (\<lambda>rx. at_index rx 0 (\<lambda>igate_pkt.
      at_index rxs 1 (\<lambda>rx. at_index rx 0 (\<lambda>logger_pkt.
      at_index rxs 2 (\<lambda>rx. at_index rx 0 (\<lambda>digi_pkt.
        source_call igate_pkt = ''OH2MQK-1'' \<and> source_call logger_pkt = ''OH2MQK-1'' \<and> source_call digi_pkt = ''OH2MQK-1''
        \<and> tnc2 igate_pkt = tnc2 logger_pkt \<and> tnc2 logger_pkt = tnc2 digi_pkt)))))))"

definition test_igate_filtering_through_router :: bool where
  "test_igate_filtering_through_router \<longleftrightarrow>
     at_index (routed [(''igate'', 32)]
       [packet_new 0 ''OH2MQK-1>APRS,WIDE1-1*:!6029.50N/02505.43E>Rx-only iGate'' ''serial0'' True]) 0 (\<lambda>rx.
     at_index rx 0 (\<lambda>received. case gate_to_aprsis received ''MYGATE-10'' 0 of
         Some (Gated line) \<Rightarrow> has_infix line ''qAR,MYGATE-10'' \<and> has_infix line ''OH2MQK-1>APRS''
           \<and> has_infix line ''!6029.50N/02505.43E>Rx-only iGate''
       | _ \<Rightarrow> False))"

definition test_forbidden_packet_filtered_by_igate :: bool where
  "test_forbidden_packet_filtered_by_igate \<longleftrightarrow>
     at_index (routed [(''igate'', 32)] [packet_new 0 ''TEST>APRS,RFONLY:!position'' ''serial0'' True]) 0 (\<lambda>rx.
     at_index rx 0 (\<lambda>received. case gate_to_aprsis received ''MYGATE'' 0 of None \<Rightarrow> False | Some (Gated _) \<Rightarrow> False | _ \<Rightarrow> True))"

lemma integration_tests_pass:
  "test_packet_flows_through_router" "test_multiple_sources_fan_into_router" "test_router_fan_out_to_multiple_consumers"
  "test_igate_filtering_through_router" "test_forbidden_packet_filtered_by_igate"
  by code_simp+

end
