(* ===== verification/Tests_Beacon.thy ===== *)
theory Tests_Beacon
  imports Tests_Base Beacon Interface_Registry
begin

text \<open>
  The unit tests of \<open>src/beacon.rs\<close> and \<open>src/interface/ax25_kernel.rs\<close>. The random source of the scheduler is a
  parameter (\<open>hash\<close>), so a test that uses it passes for every one; the configurations are the values their TOML text has.
\<close>

section \<open>Formats\<close>

definition test_format_position_beacon :: bool where
  "test_format_position_beacon \<longleftrightarrow>
     format_position_beacon ''OH2MQK-1'' ''6029.50N'' ''02505.43E'' ''/'' ''>'' (Some ''Rx-only iGate'')
       = ''OH2MQK-1>APRS:!6029.50N/02505.43E>Rx-only iGate''"
definition test_format_position_beacon_no_comment :: bool where
  "test_format_position_beacon_no_comment \<longleftrightarrow>
     format_position_beacon ''N0CALL-1'' ''4903.50N'' ''07201.75W'' [CHR 0x5C] ''K'' None
       = ''N0CALL-1>APRS:!4903.50N'' @ [CHR 0x5C] @ ''07201.75WK''"
definition test_format_position_beacon_overlay :: bool where
  "test_format_position_beacon_overlay \<longleftrightarrow>
     format_position_beacon ''TEST-5'' ''6029.50N'' ''02505.43E'' ''R'' ''&'' (Some ''Diamond overlay'')
       = ''TEST-5>APRS:!6029.50NR02505.43E&Diamond overlay''"
definition test_parse_symbol_primary_car :: bool where
  "test_parse_symbol_primary_car \<longleftrightarrow> some_of (parse_symbol ''/>'') (\<lambda>(table, code). table = ''/'' \<and> code = ''>'')"
definition test_parse_symbol_overlay :: bool where
  "test_parse_symbol_overlay \<longleftrightarrow> some_of (parse_symbol ''R&'') (\<lambda>(table, code). table = ''R'' \<and> code = ''&'')"
definition test_parse_symbol_alternate_table :: bool where
  "test_parse_symbol_alternate_table \<longleftrightarrow>
     some_of (parse_symbol [CHR 0x5C, CHR ''K'']) (\<lambda>(table, code). table = [CHR 0x5C] \<and> code = ''K'')"
definition test_parse_symbol_too_short :: bool where
  "test_parse_symbol_too_short \<longleftrightarrow> parse_symbol ''/'' = None"
definition test_parse_symbol_too_long :: bool where
  "test_parse_symbol_too_long \<longleftrightarrow> parse_symbol ''R&X'' = None"
definition test_parse_symbol_empty :: bool where
  "test_parse_symbol_empty \<longleftrightarrow> parse_symbol '''' = None"
definition test_parse_duration_minutes :: bool where
  "test_parse_duration_minutes \<longleftrightarrow> parse_duration ''20m'' = Some (Some (from_secs 1200))"
definition test_parse_duration_hours :: bool where
  "test_parse_duration_hours \<longleftrightarrow> parse_duration ''1h'' = Some (Some (from_secs 3600))"
definition test_parse_duration_seconds :: bool where
  "test_parse_duration_seconds \<longleftrightarrow> parse_duration ''30s'' = Some (Some (from_secs 30))"
definition test_parse_duration_invalid_suffix :: bool where
  "test_parse_duration_invalid_suffix \<longleftrightarrow> parse_duration ''20x'' = Some None"
definition test_parse_duration_no_number :: bool where
  "test_parse_duration_no_number \<longleftrightarrow> parse_duration ''m'' = Some None"
definition test_parse_duration_empty :: bool where
  "test_parse_duration_empty \<longleftrightarrow> parse_duration '''' = Some None"
definition test_maybe_add_via :: bool where
  "test_maybe_add_via \<longleftrightarrow> maybe_add_via ''TEST>APRS:!data'' (Some ''WIDE1-1,WIDE2-1'') = ''TEST>APRS,WIDE1-1,WIDE2-1:!data''"
definition test_maybe_add_via_none :: bool where
  "test_maybe_add_via_none \<longleftrightarrow> maybe_add_via ''TEST>APRS:!data'' None = ''TEST>APRS:!data''"
definition test_maybe_add_via_empty :: bool where
  "test_maybe_add_via_empty \<longleftrightarrow> maybe_add_via ''TEST>APRS:!data'' (Some '''') = ''TEST>APRS:!data''"

lemma beacon_format_tests_pass:
  "test_format_position_beacon" "test_format_position_beacon_no_comment" "test_format_position_beacon_overlay"
  "test_parse_symbol_primary_car" "test_parse_symbol_overlay" "test_parse_symbol_alternate_table"
  "test_parse_symbol_too_short" "test_parse_symbol_too_long" "test_parse_symbol_empty"
  "test_maybe_add_via" "test_maybe_add_via_none" "test_maybe_add_via_empty"
  by code_simp+

lemma beacon_duration_tests_pass:
  "test_parse_duration_minutes" "test_parse_duration_hours" "test_parse_duration_seconds"
  "test_parse_duration_invalid_suffix" "test_parse_duration_no_number" "test_parse_duration_empty"
  by code_simp+

text \<open>The contents: files and commands are parameters, here a file with the text the test writes.\<close>

abbreviation no_file :: "string \<Rightarrow> string option" where
  "no_file \<equiv> \<lambda>_. None"

abbreviation no_shell :: "string \<Rightarrow> shell_child option" where
  "no_shell \<equiv> \<lambda>_. None"

definition test_format_beacon_content_raw :: bool where
  "test_format_beacon_content_raw \<longleftrightarrow>
     format_beacon_content no_file no_shell (RawBeacon ''>status text'') ''TEST-1'' None
       = Some (Some ''TEST-1>APRS:>status text'')"

definition test_format_beacon_content_position :: bool where
  "test_format_beacon_content_position \<longleftrightarrow>
     format_beacon_content no_file no_shell (PositionBeacon ''6029.50N'' ''02505.43E'' ''/'' ''>'' None) ''TEST-1'' None
       = Some (Some ''TEST-1>APRS:!6029.50N/02505.43E>'')"

definition test_beacon_file_content_truncated :: bool where
  "test_beacon_file_content_truncated \<longleftrightarrow>
     some_of (format_beacon_content (\<lambda>_. Some (replicate 2000 CHR ''X'')) no_shell
                (FileBeacon ''/tmp/vaprs_test_beacon_large.txt'') ''TEST-1'' None) (\<lambda>r.
     some_of r (\<lambda>result.
     some_of (strip_prefix ''TEST-1>APRS:'' result) (\<lambda>payload. length payload \<le> MAX_BEACON_OUTPUT_LEN)))"

definition test_beacon_file_short_content_not_truncated :: bool where
  "test_beacon_file_short_content_not_truncated \<longleftrightarrow>
     format_beacon_content (\<lambda>_. Some ''!4903.50N/07201.75W-Short beacon'') no_shell
       (FileBeacon ''/tmp/vaprs_test_beacon_short.txt'') ''TEST-1'' None
       = Some (Some (''TEST-1>APRS:'' @ ''!4903.50N/07201.75W-Short beacon''))"

definition test_beacon_exec_output_truncated :: bool where
  "test_beacon_exec_output_truncated \<longleftrightarrow>
     some_of (run_beacon_command
       (\<lambda>_. Some \<lparr>ch_poll = (\<lambda>_. Exited True), ch_delay = (\<lambda>_. 0), ch_output = Some (replicate 2000 CHR ''Y'')\<rparr>)
       ''printf Y'' (from_secs 5)) (\<lambda>result.
     case result of Some text \<Rightarrow> length text \<le> MAX_BEACON_OUTPUT_LEN | None \<Rightarrow> True)"

lemma beacon_content_tests_pass:
  "test_format_beacon_content_raw" "test_format_beacon_content_position" "test_beacon_file_short_content_not_truncated"
  by code_simp+

text \<open>The long texts are of one letter.\<close>

lemma letters_not_white:
  "c \<in> {CHR ''X'', CHR ''Y''} \<Longrightarrow> leading white_space (c # s) = 0 \<and> leading (map rev white_space) (c # s) = 0"
  by (elim insertE emptyE) (simp_all add: leading_def white_space_def)

lemma trim_leading_none: "leading ws s = 0 \<Longrightarrow> trim_leading ws s = s"
  by (subst trim_leading.simps) simp

lemma trim_letters: "c \<in> {CHR ''X'', CHR ''Y''} \<Longrightarrow> trim (replicate (Suc n) c) = replicate (Suc n) c"
  unfolding trim_def trim_start_def trim_end_def rev_replicate
  using letters_not_white [of c "replicate n c"]
  by (simp only: trim_leading_none replicate_Suc [symmetric] rev_replicate)

lemma cut_letters:
  assumes "\<not> is_cont c" "k \<le> n"
  shows "str_to (replicate n c) k = Some (replicate k c)"
proof -
  have "k = n \<or> k < n \<and> replicate n c ! k = c" using assms(2) by auto
  then show ?thesis using assms by (auto simp: str_to_def is_char_boundary_def min_def)
qed

lemma long_letters:
  "trim (replicate 2000 CHR ''X'') = replicate 2000 CHR ''X''" "trim (replicate 2000 CHR ''Y'') = replicate 2000 CHR ''Y''"
  "from_utf8_lossy (replicate 2000 CHR ''Y'') = replicate 2000 CHR ''Y''"
  using trim_letters [of "CHR ''X''" 1999] trim_letters [of "CHR ''Y''" 1999]
    from_utf8_lossy_valid [OF utf8_valid_all_ascii, of "replicate 2000 CHR ''Y''"]
  by (simp_all add: is_ascii_char_def numeral_eq_Suc del: replicate_Suc)

lemma short_letters:
  "str_to (replicate 2000 CHR ''X'') MAX_BEACON_OUTPUT_LEN = Some (replicate MAX_BEACON_OUTPUT_LEN CHR ''X'')"
  "str_to (replicate 2000 CHR ''Y'') MAX_BEACON_OUTPUT_LEN = Some (replicate MAX_BEACON_OUTPUT_LEN CHR ''Y'')"
  by (rule cut_letters; simp add: is_cont_def MAX_BEACON_OUTPUT_LEN_def)+

lemma beacon_truncation_tests_pass: "test_beacon_file_content_truncated" "test_beacon_exec_output_truncated"
proof -
  have long: "MAX_BEACON_OUTPUT_LEN < 2000" "replicate 2000 c \<noteq> []" for c :: char
    by (simp_all add: MAX_BEACON_OUTPUT_LEN_def)
  show "test_beacon_exec_output_truncated"
    by (simp add: test_beacon_exec_output_truncated_def run_beacon_command_def wait_child.simps command_text_def
        long_letters short_letters long some_of_def Let_def del: replicate.simps)
  show "test_beacon_file_content_truncated"
    by (simp add: test_beacon_file_content_truncated_def format_beacon_content_def long_letters short_letters long
        maybe_add_via_def strip_prefix_def starts_with_def some_of_def Let_def)
qed

section \<open>The scheduler\<close>

abbreviation raw_beacon :: "string \<Rightarrow> beacon_mode \<Rightarrow> beacon" where
  "raw_beacon text mode \<equiv> \<lparr>bn_content = RawBeacon text, bn_mode = mode, bn_transmitter = None, bn_via = None\<rparr>"

text \<open>\<open>scheduler.beacons[0].next_fire = t\<close>.\<close>

definition due_at :: "instant \<Rightarrow> beacon_scheduler \<Rightarrow> beacon_scheduler" where
  "due_at t s = s\<lparr>bs_beacons := (bs_beacons s)[0 := (bs_beacons s ! 0)\<lparr>next_fire := t\<rparr>]\<rparr>"

definition test_scheduler_fires_due_beacon :: "(u64 \<Rightarrow> u64) \<Rightarrow> bool" where
  "test_scheduler_fires_due_beacon hash \<longleftrightarrow>
     some_of (add_beacon hash (from_secs 1) scheduler_new (raw_beacon ''!test data'' AprsisOnly) ''TEST-1'' (from_secs 0)) (\<lambda>scheduler.
     some_of (poll no_file no_shell hash (from_secs 1) (due_at (from_secs 0) scheduler)) (\<lambda>(results, _).
       length results = 1
       \<and> at_index results 0 (\<lambda>(line, mode, tx). line = ''TEST-1>APRS:!test data'' \<and> mode = AprsisOnly \<and> tx = None)))"

definition test_scheduler_does_not_fire_early :: "(u64 \<Rightarrow> u64) \<Rightarrow> bool" where
  "test_scheduler_does_not_fire_early hash \<longleftrightarrow>
     some_of (add_beacon hash 0 scheduler_new (raw_beacon ''!test'' Both) ''TEST-1'' (from_secs 3600)) (\<lambda>scheduler.
     some_of (poll no_file no_shell hash 1 scheduler) (\<lambda>(results, _). results = []))"

definition test_scheduler_reschedules :: "(u64 \<Rightarrow> u64) \<Rightarrow> bool" where
  "test_scheduler_reschedules hash \<longleftrightarrow>
     (let interval = from_secs 600 in
      some_of (add_beacon hash (from_secs 1) scheduler_new (raw_beacon ''!test'' Both) ''TEST-1'' interval) (\<lambda>scheduler.
      let before_fire = from_secs 1 in
      some_of (poll no_file no_shell hash (from_secs 1) (due_at (from_secs 0) scheduler)) (\<lambda>(_, scheduler).
      at_index (bs_beacons scheduler) 0 (\<lambda>b.
        next_fire b > before_fire
        \<and> next_fire b \<ge> before_fire + round_even (of_nat interval * (79 / 100)) \<and> next_fire b \<le> before_fire + interval))))"

definition test_scheduler_randomized_interval :: "(u64 \<Rightarrow> u64) \<Rightarrow> bool" where
  "test_scheduler_randomized_interval hash \<longleftrightarrow>
     list_all (\<lambda>seed. let factor = random_jitter hash (of_nat seed) in 8 / 10 \<le> factor \<and> factor \<le> 1) [0..<100]"

definition test_jittered_duration_range :: "(u64 \<Rightarrow> u64) \<Rightarrow> bool" where
  "test_jittered_duration_range hash \<longleftrightarrow>
     list_all (\<lambda>seed. let jittered = jittered_duration hash (from_secs 1000) (of_nat seed)
                      in jittered \<ge> from_secs 800 \<and> jittered \<le> from_secs 1000) [0..<50]"

definition test_empty_scheduler :: bool where
  "test_empty_scheduler \<longleftrightarrow> scheduler_is_empty scheduler_new \<and> scheduler_len scheduler_new = 0"

definition test_empty_scheduler_poll :: "(u64 \<Rightarrow> u64) \<Rightarrow> bool" where
  "test_empty_scheduler_poll hash \<longleftrightarrow> some_of (poll no_file no_shell hash 0 scheduler_new) (\<lambda>(results, _). results = [])"

definition test_beacon_with_via_path :: "(u64 \<Rightarrow> u64) \<Rightarrow> bool" where
  "test_beacon_with_via_path hash \<longleftrightarrow>
     some_of (add_beacon hash (from_secs 1) scheduler_new
       \<lparr>bn_content = PositionBeacon ''6029.50N'' ''02505.43E'' ''/'' ''>'' (Some ''test''), bn_mode = Radio,
        bn_transmitter = Some ''RADIO0'', bn_via = Some ''WIDE1-1''\<rparr> ''TEST-1'' (from_secs 0)) (\<lambda>scheduler.
     some_of (poll no_file no_shell hash (from_secs 1) (due_at (from_secs 0) scheduler)) (\<lambda>(results, _).
       length results = 1
       \<and> at_index results 0 (\<lambda>(line, mode, tx).
           line = ''TEST-1>APRS,WIDE1-1:!6029.50N/02505.43E>test'' \<and> mode = Radio \<and> tx = Some ''RADIO0'')))"

lemma jittered_most: "jittered_duration hash base seed \<le> base"
  by (rule jittered_bounds)

lemma jittered_zero [simp]: "jittered_duration hash 0 seed = 0"
  using jittered_most [where base = 0 and hash = hash and seed = seed] by simp

lemma jittered_secs:
  assumes "5 * r = 4 * k * 1000000000" "0 < k"
  shows "r \<le> jittered_duration hash (from_secs k) seed"
  using jittered_bounds(1) [where hash = hash and base = "from_secs k" and seed = seed] assms by (simp add: from_secs_def)

lemma instant_add_small: "t + d < from_secs (2 ^ 63) \<Longrightarrow> instant_add t d = Some (t + d)"
  by (simp add: instant_add_def)

lemma scheduler_tests_pass:
  "test_scheduler_fires_due_beacon hash" "test_beacon_with_via_path hash" "test_empty_scheduler"
  "test_empty_scheduler_poll hash"
  by (simp_all add: test_scheduler_fires_due_beacon_def test_beacon_with_via_path_def test_empty_scheduler_def
      test_empty_scheduler_poll_def add_beacon_def poll_def due_at_def scheduler_new_def instant_add_small from_secs_def
      format_beacon_content_def format_position_beacon_def maybe_add_via_def some_of_def at_index_def nth_opt_def
      scheduler_is_empty_def scheduler_len_def Let_def)

lemma jitter_tests_pass: "test_scheduler_randomized_interval hash" "test_jittered_duration_range hash"
proof -
  show "test_scheduler_randomized_interval hash"
    using random_jitter_bounds by (simp add: test_scheduler_randomized_interval_def list_all_iff Let_def)
  have "from_secs 800 \<le> jittered_duration hash (from_secs 1000) seed"
    "jittered_duration hash (from_secs 1000) seed \<le> from_secs 1000" for seed
    using jittered_secs [of "from_secs 800" 1000 hash seed] jittered_most [where hash = hash and base = "from_secs 1000" and seed = seed]
    by (simp_all add: from_secs_def)
  then show "test_jittered_duration_range hash" by (simp add: test_jittered_duration_range_def list_all_iff Let_def)
qed

lemma early_test_passes: "test_scheduler_does_not_fire_early hash"
proof -
  let ?d = "jittered_duration hash (from_secs 3600) 0"
  have d: "from_secs 2880 \<le> ?d" "?d \<le> from_secs 3600"
    using jittered_secs [of "from_secs 2880" 3600 hash 0] jittered_most [where hash = hash and base = "from_secs 3600" and seed = 0]
    by (simp_all add: from_secs_def)
  then have "instant_add 0 ?d = Some ?d" "1 < ?d" by (simp_all add: instant_add_def from_secs_def)
  then show ?thesis
    by (simp add: test_scheduler_does_not_fire_early_def add_beacon_def poll_def scheduler_new_def some_of_def Let_def)
qed

lemma reschedule_test_passes: "test_scheduler_reschedules hash"
proof -
  have add: "instant_add (from_secs 1) (jittered_duration hash (from_secs 600) seed)
      = Some (from_secs 1 + jittered_duration hash (from_secs 600) seed)" for seed
    using jittered_most [where hash = hash and base = "from_secs 600" and seed = seed] by (simp add: instant_add_def from_secs_def)
  have low: "from_secs 480 \<le> jittered_duration hash (from_secs 600) seed" for seed
    using jittered_secs [of "from_secs 480" 600 hash seed] by (simp add: from_secs_def)
  have "round_even (of_nat (from_secs 600) * (79 / 100)) = from_secs 474"
    by (simp add: round_even_def from_secs_def)
  moreover have "from_secs 0 < from_secs 480" "from_secs 474 \<le> from_secs 480" "\<not> from_secs 1 < from_secs 0"
    by (simp_all add: from_secs_def)
  ultimately show ?thesis
    using low [of 1] jittered_most [where hash = hash and base = "from_secs 600" and seed = 1] order_less_le_trans order_trans
    by (simp del: One_nat_def add: test_scheduler_reschedules_def add_beacon_def poll_def due_at_def scheduler_new_def add
        format_beacon_content_def maybe_add_via_def some_of_def at_index_def nth_opt_def Let_def)
qed

text \<open>From a configuration.\<close>

abbreviation beacon_cfg :: "string \<Rightarrow> location_config option \<Rightarrow> beacon_config list \<Rightarrow> config" where
  "beacon_cfg call location beacons \<equiv>
     \<lparr>cfg_mycall = call, cfg_location = location, cfg_aprsis = None, cfg_logging = None, cfg_web = None,
      cfg_interfaces = [], cfg_beacons = beacons, cfg_digipeaters = [], cfg_telemetry = []\<rparr>"

abbreviation symbol_beacon :: "string \<Rightarrow> string option \<Rightarrow> string option \<Rightarrow> beacon_mode option \<Rightarrow> beacon_config" where
  "symbol_beacon symbol comment cycle mode \<equiv>
     \<lparr>bc_symbol = Some symbol, bc_comment = comment, bc_cycle_size = cycle, bc_mode = mode,
      bc_transmitter = None, bc_via = None\<rparr>"

abbreviation scheduled :: "(u64 \<Rightarrow> u64) \<Rightarrow> config \<Rightarrow> nat \<Rightarrow> bool" where
  "scheduled hash cfg n \<equiv> some_of (scheduler_from_config hash (\<lambda>_. 0) cfg) (\<lambda>scheduler. scheduler_len scheduler = n)"

definition test_beacon_from_config :: "(u64 \<Rightarrow> u64) \<Rightarrow> bool" where
  "test_beacon_from_config hash \<longleftrightarrow>
     some_of (scheduler_from_config hash (\<lambda>_. 0)
       (beacon_cfg ''OH2MQK-1'' (Some \<lparr>loc_lat = ''6029.50N'', loc_lon = ''02505.43E''\<rparr>)
         [symbol_beacon ''R&'' (Some ''Rx-only iGate'') (Some ''20m'') (Some AprsisOnly)])) (\<lambda>scheduler.
     scheduler_len scheduler = 1 \<and> \<not> scheduler_is_empty scheduler)"

definition test_beacon_from_config_multiple :: "(u64 \<Rightarrow> u64) \<Rightarrow> bool" where
  "test_beacon_from_config_multiple hash \<longleftrightarrow>
     scheduled hash (beacon_cfg ''N0CALL-1'' (Some \<lparr>loc_lat = ''4903.50N'', loc_lon = ''07201.75W''\<rparr>)
       [symbol_beacon ''/>'' (Some ''Beacon 1'') (Some ''20m'') None,
        symbol_beacon [CHR 0x5C, CHR ''K''] (Some ''Beacon 2'') (Some ''20m'') None]) 2"

definition test_beacon_from_config_no_location :: "(u64 \<Rightarrow> u64) \<Rightarrow> bool" where
  "test_beacon_from_config_no_location hash \<longleftrightarrow>
     scheduled hash (beacon_cfg ''N0CALL-1'' None [symbol_beacon ''/>'' (Some ''No location'') None None]) 0"

definition test_beacon_from_config_default_mode :: "(u64 \<Rightarrow> u64) \<Rightarrow> bool" where
  "test_beacon_from_config_default_mode hash \<longleftrightarrow>
     scheduled hash (beacon_cfg ''N0CALL-1'' (Some \<lparr>loc_lat = ''4903.50N'', loc_lon = ''07201.75W''\<rparr>)
       [symbol_beacon ''/>'' None None None]) 1"

lemma add_config_beacon:
  assumes "interval \<le> from_secs 1200"
  shows "\<exists>sb. add_beacon hash 0 s b call interval = Some (s\<lparr>bs_beacons := bs_beacons s @ [sb]\<rparr>)"
proof -
  let ?d = "jittered_duration hash interval (of_nat (length (bs_beacons s)))"
  have "?d \<le> from_secs 1200" by (rule order_trans [OF jittered_most assms])
  then have "instant_add 0 ?d = Some ?d" by (simp add: instant_add_def from_secs_def)
  then show ?thesis by (auto simp: add_beacon_def)
qed

lemma twenty_minutes: "parse_duration ''20m'' = Some (Some (from_secs 1200))"
  by code_simp

lemma config_beacons_scheduled:
  "\<forall>bc\<in>set bcs. bc_cycle_size bc = None \<or> bc_cycle_size bc = Some ''20m'' \<Longrightarrow>
   cfg_beacons cfg \<noteq> [] \<Longrightarrow> length (cfg_beacons cfg) < 2 ^ 32 \<Longrightarrow>
   \<exists>s'. add_config_beacons hash (\<lambda>_. 0) cfg i bcs s = Some s'
     \<and> length (bs_beacons s') = length (bs_beacons s) + length (filter (\<lambda>bc. config_content (cfg_location cfg) bc \<noteq> None) bcs)"
proof (induction bcs arbitrary: i s)
  case (Cons bc bcs)
  have "from_secs 1200 div n \<le> from_secs 1200" for n by simp
  then obtain interval where interval: "beacon_interval (length (cfg_beacons cfg)) bc = Some interval"
      "interval \<le> from_secs 1200"
    using Cons.prems by (auto simp: beacon_interval_def twenty_minutes unwrap_or_def)
  show ?case
  proof (cases "config_content (cfg_location cfg) bc")
    case None
    then show ?thesis using Cons.IH [of "Suc i" s] Cons.prems interval by simp
  next
    case (Some content)
    obtain sb where "add_beacon hash 0 s
        \<lparr>bn_content = content, bn_mode = unwrap_or (bc_mode bc) Both, bn_transmitter = bc_transmitter bc, bn_via = bc_via bc\<rparr>
        (cfg_mycall cfg) interval = Some (s\<lparr>bs_beacons := bs_beacons s @ [sb]\<rparr>)"
      using add_config_beacon [OF interval(2)] by blast
    then show ?thesis
      using Cons.IH [of "Suc i" "s\<lparr>bs_beacons := bs_beacons s @ [sb]\<rparr>"] Cons.prems interval(1) Some by simp
  qed
qed simp

lemma config_scheduled:
  assumes "\<forall>bc\<in>set (cfg_beacons cfg). bc_cycle_size bc = None \<or> bc_cycle_size bc = Some ''20m''"
    and "cfg_beacons cfg \<noteq> []" "length (cfg_beacons cfg) < 2 ^ 32"
    and "length (filter (\<lambda>bc. config_content (cfg_location cfg) bc \<noteq> None) (cfg_beacons cfg)) = n"
  shows "some_of (scheduler_from_config hash (\<lambda>_. 0) cfg) (\<lambda>s. scheduler_len s = n \<and> (scheduler_is_empty s \<longleftrightarrow> n = 0))"
  using config_beacons_scheduled [OF assms(1-3), of hash 0 scheduler_new] assms(2,4)
  by (auto simp: scheduler_from_config_def some_of_def scheduler_len_def scheduler_is_empty_def scheduler_new_def)

lemma config_content_symbol:
  "config_content location (symbol_beacon symbol comment cycle mode) = None \<longleftrightarrow> location = None"
  by (auto simp: config_content_def split: option.splits prod.splits)

lemma beacon_config_tests_pass:
  "test_beacon_from_config hash" "test_beacon_from_config_multiple hash" "test_beacon_from_config_no_location hash"
  "test_beacon_from_config_default_mode hash"
  unfolding test_beacon_from_config_def test_beacon_from_config_multiple_def test_beacon_from_config_no_location_def
    test_beacon_from_config_default_mode_def
  subgoal by (rule some_of_mono [OF config_scheduled [where n = 1]]) (auto simp: config_content_symbol simp del: not_None_eq)
  subgoal by (rule some_of_mono [OF config_scheduled [where n = 2]]) (auto simp: config_content_symbol simp del: not_None_eq)
  subgoal by (rule some_of_mono [OF config_scheduled [where n = 0]]) (auto simp: config_content_symbol simp del: not_None_eq)
  subgoal by (rule some_of_mono [OF config_scheduled [where n = 1]]) (auto simp: config_content_symbol simp del: not_None_eq)
  done

section \<open>src/interface/ax25_kernel.rs\<close>

definition test_is_available_returns_false_on_non_linux :: "bool \<Rightarrow> bool" where
  "test_is_available_returns_false_on_non_linux target_os_linux \<longleftrightarrow>
     (if target_os_linux then is_available target_os_linux else \<not> is_available target_os_linux)"

definition test_kernel_interface_metadata :: bool where
  "test_kernel_interface_metadata \<longleftrightarrow>
     (let meta = ak_metadata (ax25_kernel_new ''TEST-1'' ''ax0'' False 1)
      in md_callsign meta = ''TEST-1'' \<and> \<not> md_tx_ok meta \<and> md_igate_group meta = 1)"

definition test_kernel_interface_stores_device :: bool where
  "test_kernel_interface_stores_device \<longleftrightarrow> ak_device (ax25_kernel_new ''TEST-1'' ''ax0'' False 1) = ''ax0''"

text \<open>The shutdown is the command it takes last; without a command the closed channel ends it.\<close>

definition test_kernel_interface_responds_to_shutdown :: bool where
  "test_kernel_interface_responds_to_shutdown \<longleftrightarrow> ax25_kernel_run (ax25_kernel_new ''TEST-1'' ''ax0'' False 1) [Shutdown] = 1"

definition test_kernel_interface_completes_when_channel_closes :: bool where
  "test_kernel_interface_completes_when_channel_closes \<longleftrightarrow>
     ax25_kernel_run (ax25_kernel_new ''TEST-1'' ''ax0'' False 1) [] = 0"

lemma kernel_tests_pass:
  "test_is_available_returns_false_on_non_linux linux" "test_kernel_interface_metadata" "test_kernel_interface_stores_device"
  "test_kernel_interface_responds_to_shutdown" "test_kernel_interface_completes_when_channel_closes"
  by (simp_all add: test_is_available_returns_false_on_non_linux_def is_available_def test_kernel_interface_metadata_def
      test_kernel_interface_stores_device_def
      test_kernel_interface_responds_to_shutdown_def test_kernel_interface_completes_when_channel_closes_def ax25_kernel_new_def Let_def)

end
