(* ===== verification/Tests_Links.thy ===== *)
theory Tests_Links
  imports Tests_Base Aprsis Interface_Registry
begin

text \<open>
  The unit tests of \<open>src/aprsis.rs\<close> and \<open>src/interface/mod.rs\<close>. A test of the client task with a mock server is a
  run of \<^const>\<open>aprsis_step\<close>: the server, the timers and the test's own sends are its events, one order of them for
  each test, and what the test awaits is asked of the state reached. Outside the translation are the tests of \<open>Debug\<close> and
  \<open>Clone\<close>.
\<close>

section \<open>src/aprsis.rs: lines\<close>

definition test_passcode_known_callsign_n0call :: bool where
  "test_passcode_known_callsign_n0call \<longleftrightarrow> aprs_passcode ''N0CALL'' = 13023"
definition test_passcode_strips_ssid :: bool where
  "test_passcode_strips_ssid \<longleftrightarrow> aprs_passcode ''N0CALL'' = aprs_passcode ''N0CALL-1''"
definition test_passcode_case_insensitive :: bool where
  "test_passcode_case_insensitive \<longleftrightarrow> aprs_passcode ''N0CALL'' = aprs_passcode ''n0call''"
definition test_passcode_is_positive :: bool where
  "test_passcode_is_positive \<longleftrightarrow> 0 \<le> sint (aprs_passcode ''TEST'')"
definition test_passcode_odd_length_callsign :: bool where
  "test_passcode_odd_length_callsign \<longleftrightarrow> 0 \<le> sint (aprs_passcode ''W1AW'') \<and> 0 \<le> sint (aprs_passcode ''AA1AA'')"
definition test_passcode_single_char_callsign :: bool where
  "test_passcode_single_char_callsign \<longleftrightarrow> 0 \<le> sint (aprs_passcode ''A'')"
definition test_passcode_empty_callsign :: bool where
  "test_passcode_empty_callsign \<longleftrightarrow> aprs_passcode '''' = 0x73E2 AND 0x7FFF"
definition test_passcode_different_callsigns_differ :: bool where
  "test_passcode_different_callsigns_differ \<longleftrightarrow> aprs_passcode ''N0CALL'' \<noteq> aprs_passcode ''W1AW''"
definition test_passcode_deterministic :: bool where
  "test_passcode_deterministic \<longleftrightarrow> aprs_passcode ''OH2MQK'' = aprs_passcode ''OH2MQK''"
definition test_passcode_known_w3ado :: bool where
  "test_passcode_known_w3ado \<longleftrightarrow> aprs_passcode ''W3ADO'' = 10901"

lemma passcode_tests_pass:
  "test_passcode_known_callsign_n0call" "test_passcode_strips_ssid" "test_passcode_case_insensitive"
  "test_passcode_is_positive" "test_passcode_odd_length_callsign" "test_passcode_single_char_callsign"
  "test_passcode_empty_callsign" "test_passcode_different_callsigns_differ" "test_passcode_deterministic"
  "test_passcode_known_w3ado"
  by code_simp+

definition aprsis_test_config :: aprsis_config where
  "aprsis_test_config = \<lparr>ac_passcode = 12345, ac_servers = [''rotate.aprs2.net:14580''], ac_filter = Some ''m/100'',
     ac_heartbeat_timeout = Some 90\<rparr>"

definition aprsis_test_config_minimal :: aprsis_config where
  "aprsis_test_config_minimal = \<lparr>ac_passcode = -1, ac_servers = [''rotate.aprs2.net:14580''], ac_filter = None,
     ac_heartbeat_timeout = None\<rparr>"

abbreviation is_config :: "int \<Rightarrow> string list \<Rightarrow> string option \<Rightarrow> nat option \<Rightarrow> aprsis_config" where
  "is_config passcode servers filt heartbeat \<equiv>
     \<lparr>ac_passcode = passcode, ac_servers = servers, ac_filter = filt, ac_heartbeat_timeout = heartbeat\<rparr>"

definition test_client_new_stores_config :: bool where
  "test_client_new_stores_config \<longleftrightarrow>
     (let client = client_new ''OH2MQK-1'' aprsis_test_config False
      in cl_login client = ''OH2MQK-1'' \<and> cl_passcode client = 12345 \<and> cl_servers client = [''rotate.aprs2.net:14580'']
         \<and> cl_filter client = Some ''m/100'' \<and> cl_heartbeat client = from_secs 90)"

definition test_client_new_default_heartbeat :: bool where
  "test_client_new_default_heartbeat \<longleftrightarrow>
     cl_heartbeat (client_new ''N0CALL'' aprsis_test_config_minimal False) = from_secs DEFAULT_HEARTBEAT_TIMEOUT_SECS"

definition test_client_multiple_servers :: bool where
  "test_client_multiple_servers \<longleftrightarrow>
     length (cl_servers (client_new ''TEST''
       (is_config 12345 [''server1.aprs2.net:14580'', ''server2.aprs2.net:14580''] None None) False)) = 2"

definition test_login_line_with_filter :: bool where
  "test_login_line_with_filter \<longleftrightarrow>
     login_line (client_new ''OH2MQK-1'' aprsis_test_config False)
       = ''user OH2MQK-1 pass 12345 vers vaprs '' @ PKG_VERSION @ '' filter m/100'' @ CRLF"

definition test_login_line_without_filter :: bool where
  "test_login_line_without_filter \<longleftrightarrow>
     login_line (client_new ''N0CALL'' aprsis_test_config_minimal False)
       = ''user N0CALL pass -1 vers vaprs '' @ PKG_VERSION @ CRLF"

definition test_login_line_ends_with_crlf :: bool where
  "test_login_line_ends_with_crlf \<longleftrightarrow> ends_with (login_line (client_new ''TEST-1'' aprsis_test_config False)) CRLF"

definition test_login_line_starts_with_user :: bool where
  "test_login_line_starts_with_user \<longleftrightarrow>
     starts_with (login_line (client_new ''TEST-1'' aprsis_test_config False)) ''user ''"

definition test_login_line_contains_vers :: bool where
  "test_login_line_contains_vers \<longleftrightarrow>
     has_infix (login_line (client_new ''TEST-1'' aprsis_test_config False)) (''vers vaprs '' @ PKG_VERSION)"

definition test_login_line_receive_only_shows_negative_passcode :: bool where
  "test_login_line_receive_only_shows_negative_passcode \<longleftrightarrow>
     has_infix (login_line (client_new ''RX-ONLY'' aprsis_test_config_minimal False)) ''pass -1''"

text \<open>\<open>trim_end_matches("\r\n")\<close>.\<close>

function trim_end_crlf :: "string \<Rightarrow> string" where
  "trim_end_crlf s = (if ends_with s CRLF then trim_end_crlf (take (length s - 2) s) else s)"
  by pat_completeness auto
termination
proof (relation "measure length")
  fix s assume "ends_with s CRLF"
  then have "s \<noteq> []" by (auto simp: ends_with_def CRLF_def)
  then show "(take (length s - 2) s, s) \<in> measure length" by simp
qed simp

definition test_login_line_strips_crlf_from_callsign :: bool where
  "test_login_line_strips_crlf_from_callsign \<longleftrightarrow>
     (let line = login_line (client_new (''EVIL'' @ CRLF @ ''INJECTED'') (is_config 12345 [''test:14580''] None None) False);
          without_crlf = trim_end_crlf line
      in CHR 0x0D \<notin> set without_crlf \<and> CHR 0x0A \<notin> set without_crlf \<and> has_infix line ''EVILINJECTED'')"

definition test_login_line_strips_crlf_from_filter :: bool where
  "test_login_line_strips_crlf_from_filter \<longleftrightarrow>
     (let line = login_line (client_new ''TEST''
            (is_config 12345 [''test:14580''] (Some (''m/100'' @ CRLF @ ''INJECTED'')) None) False);
          without_crlf = trim_end_crlf line
      in CHR 0x0D \<notin> set without_crlf \<and> CHR 0x0A \<notin> set without_crlf \<and> has_infix line ''m/100INJECTED'')"

definition test_sanitize_aprsis_line_clean :: bool where
  "test_sanitize_aprsis_line_clean \<longleftrightarrow> sanitize_aprsis_line ''TEST>APRS:data'' = ''TEST>APRS:data''"
definition test_sanitize_aprsis_line_strips_cr :: bool where
  "test_sanitize_aprsis_line_strips_cr \<longleftrightarrow> sanitize_aprsis_line (''TEST>APRS:da'' @ [CHR 0x0D] @ ''ta'') = ''TEST>APRS:data''"
definition test_sanitize_aprsis_line_strips_lf :: bool where
  "test_sanitize_aprsis_line_strips_lf \<longleftrightarrow> sanitize_aprsis_line (''TEST>APRS:da'' @ [CHR 0x0A] @ ''ta'') = ''TEST>APRS:data''"
definition test_sanitize_aprsis_line_strips_crlf_injection :: bool where
  "test_sanitize_aprsis_line_strips_crlf_injection \<longleftrightarrow>
     sanitize_aprsis_line (''TEST>APRS:data'' @ CRLF @ ''INJECTED>APRS:evil'') = ''TEST>APRS:dataINJECTED>APRS:evil''"
definition test_sanitize_aprsis_line_empty :: bool where
  "test_sanitize_aprsis_line_empty \<longleftrightarrow> sanitize_aprsis_line '''' = ''''"

lemma client_tests_pass:
  "test_client_new_stores_config" "test_client_new_default_heartbeat" "test_client_multiple_servers"
  "test_login_line_with_filter" "test_login_line_without_filter" "test_login_line_ends_with_crlf"
  "test_login_line_starts_with_user" "test_login_line_contains_vers"
  "test_login_line_receive_only_shows_negative_passcode"
  by code_simp+

lemma sanitize_tests_pass:
  "test_login_line_strips_crlf_from_callsign" "test_login_line_strips_crlf_from_filter"
  "test_sanitize_aprsis_line_clean" "test_sanitize_aprsis_line_strips_cr" "test_sanitize_aprsis_line_strips_lf"
  "test_sanitize_aprsis_line_strips_crlf_injection" "test_sanitize_aprsis_line_empty"
  by code_simp+

section \<open>src/aprsis.rs: the task and a mock server\<close>

abbreviation n0call :: "string list \<Rightarrow> nat option \<Rightarrow> aprsis_client" where
  "n0call servers heartbeat \<equiv> client_new ''N0CALL'' (is_config (-1) servers None heartbeat) False"

text \<open>\<open>addr\<close>, the address of the mock server.\<close>

abbreviation addr :: string where
  "addr \<equiv> ''127.0.0.1:40001''"

text \<open>What happens at one time: the client is accepted and its login read; a line of the server comes, and there is
  room for its packet; the server closes the connection; the test drops its end of the queue, which the task finds.\<close>

abbreviation at_time :: "nat \<Rightarrow> aprsis_event list \<Rightarrow> (instant \<times> aprsis_event) list" where
  "at_time t es \<equiv> map (Pair (from_secs t)) es"

definition accept_login :: "aprsis_event list" where
  "accept_login = [ConnectOk, WriteOk, FlushOk]"

definition line_comes :: "string \<Rightarrow> aprsis_event" where
  "line_comes l = ReadDone (l @ CRLF) Delivered"

definition server_closes :: aprsis_event where
  "server_closes = ReadDone [] Delivered"

definition write_tx_dropped :: "aprsis_event list" where
  "write_tx_dropped = [CloseQueue, TakesMessage]"

definition greeting :: aprsis_event where
  "greeting = line_comes ''# javAPRSSrvr 4.2.0''"

definition verified :: aprsis_event where
  "verified = line_comes ''# logresp N0CALL verified''"

text \<open>The task has ended.\<close>

definition finished :: "aprsis_state \<Rightarrow> bool" where
  "finished s \<longleftrightarrow> as_phase s = Stopped"

definition client_run ::
  "aprsis_client \<Rightarrow> (instant \<times> aprsis_event) list \<Rightarrow> (aprsis_state \<Rightarrow> bool) \<Rightarrow> bool" where
  "client_run client es P = some_of (aprsis_run client (aprsis_start client) es) P"

definition test_run_receives_packets_from_server :: bool where
  "test_run_receives_packets_from_server \<longleftrightarrow>
     client_run (n0call [addr] (Some 5))
       (at_time 0 (accept_login
          @ [greeting, verified, line_comes ''OH2MQK-1>APRS:!6029.50N/02505.43E>'',
             line_comes ''W3ADO-1>APRS,WIDE1-1:=4903.50N/07201.75W-'', server_closes])
        @ at_time 1 write_tx_dropped) (\<lambda>s.
     at_index (delivered s) 0 (\<lambda>pkt1. tnc2 pkt1 = ''OH2MQK-1>APRS:!6029.50N/02505.43E>'' \<and> source_interface pkt1 = ''APRSIS'')
     \<and> at_index (delivered s) 1 (\<lambda>pkt2. tnc2 pkt2 = ''W3ADO-1>APRS,WIDE1-1:=4903.50N/07201.75W-'')
     \<and> finished s)"

definition test_run_filters_comment_lines :: bool where
  "test_run_filters_comment_lines \<longleftrightarrow>
     client_run (n0call [addr] (Some 5))
       (at_time 0 (accept_login
          @ [greeting, verified, line_comes ''# server status info'', line_comes ''# another comment'',
             line_comes ''TEST>APRS:!0000.00N/00000.00E>'', server_closes])
        @ at_time 1 write_tx_dropped) (\<lambda>s.
     at_index (delivered s) 0 (\<lambda>pkt. tnc2 pkt = ''TEST>APRS:!0000.00N/00000.00E>'') \<and> finished s)"

text \<open>The server of this test reads and says nothing; its \<open>lines\<close> are the wire, without their ends.\<close>

definition test_run_sends_packets_to_server :: bool where
  "test_run_sends_packets_to_server \<longleftrightarrow>
     client_run (client_new ''N0CALL'' (is_config 12345 [addr] None (Some 5)) False)
       (at_time 0 accept_login
        @ at_time 1 [Enqueue ''TEST>APRS:!0000.00N/00000.00E>'', TakesMessage, WriteOk, FlushOk]
        @ at_time 2 write_tx_dropped) (\<lambda>s.
     let lines = map trim (wire s)
     in finished s \<and> at_index lines 0 (\<lambda>l. starts_with l ''user N0CALL pass 12345'')
        \<and> length lines \<ge> 2 \<and> at_index lines 1 (\<lambda>l. l = ''TEST>APRS:!0000.00N/00000.00E>''))"

text \<open>The connections the server sees are the accepted ones; the heartbeat is a second, the backoff ten.\<close>

definition connections_of :: "(instant \<times> aprsis_event) list \<Rightarrow> nat" where
  "connections_of es = length (filter (\<lambda>(_, e). e = ConnectOk) es)"

definition test_run_detects_heartbeat_timeout :: bool where
  "test_run_detects_heartbeat_timeout \<longleftrightarrow>
     (let es = at_time 0 accept_login @ at_time 1 [HeartbeatExpires] @ at_time 11 (SleepEnds # accept_login)
      in client_run (n0call [addr] (Some 1)) (es @ at_time 12 (HeartbeatExpires # write_tx_dropped)) (\<lambda>s.
           connections_of es \<ge> 2 \<and> finished s))"

definition test_run_with_no_servers_returns_immediately :: bool where
  "test_run_with_no_servers_returns_immediately \<longleftrightarrow> client_run (n0call [] None) [] finished"

definition test_run_shuts_down_when_write_channel_closed :: bool where
  "test_run_shuts_down_when_write_channel_closed \<longleftrightarrow>
     client_run (n0call [addr] (Some 30)) (at_time 0 (accept_login @ [greeting, verified] @ write_tx_dropped)) finished"

definition test_run_reconnects_on_server_disconnect :: bool where
  "test_run_reconnects_on_server_disconnect \<longleftrightarrow>
     client_run (n0call [addr] (Some 5))
       (at_time 0 (accept_login @ [greeting, server_closes])
        @ at_time 10 (SleepEnds # accept_login @ [greeting, verified, line_comes ''RECONNECT>APRS:test''])
        @ at_time 11 write_tx_dropped) (\<lambda>s.
     at_index (delivered s) 0 (\<lambda>pkt. tnc2 pkt = ''RECONNECT>APRS:test'') \<and> finished s)"

definition test_run_rotates_servers_on_failure :: bool where
  "test_run_rotates_servers_on_failure \<longleftrightarrow>
     client_run (n0call [''127.0.0.1:1'', addr] (Some 5))
       (at_time 0 [ConnectFails ''Connection refused'']
        @ at_time 10 (SleepEnds # accept_login @ [greeting, verified, line_comes ''ROTATED>APRS:from server 2''])
        @ at_time 11 write_tx_dropped) (\<lambda>s.
     at_index (delivered s) 0 (\<lambda>pkt. tnc2 pkt = ''ROTATED>APRS:from server 2'') \<and> finished s)"

definition test_write_appends_crlf_if_missing :: bool where
  "test_write_appends_crlf_if_missing \<longleftrightarrow>
     client_run (n0call [addr] (Some 5))
       (at_time 0 accept_login
        @ at_time 1 [Enqueue ''TEST>APRS:no crlf'', Enqueue (''TEST>APRS:has crlf'' @ CRLF), TakesMessage, WriteOk, WriteOk, FlushOk]
        @ at_time 2 write_tx_dropped) (\<lambda>s.
     let lines = wire s
     in finished s \<and> length lines \<ge> 3 \<and> at_index lines 1 (\<lambda>l. trim l = ''TEST>APRS:no crlf'')
        \<and> at_index lines 2 (\<lambda>l. trim l = ''TEST>APRS:has crlf''))"

definition test_run_shuts_down_when_packet_tx_closed :: bool where
  "test_run_shuts_down_when_packet_tx_closed \<longleftrightarrow>
     client_run (n0call [addr] (Some 30))
       (at_time 0 (accept_login @ [greeting, verified, ReadDone (''TEST>APRS:trigger'' @ CRLF) ReceiverGone])) finished"

text \<open>Nothing is read from the channel of two packets while the twenty come.\<close>

definition flood_line :: "nat \<Rightarrow> string" where
  "flood_line i = ''FLOOD-'' @ show_nat i @ ''>APRS:packet '' @ show_nat i"

definition test_run_drops_packets_when_queue_full :: bool where
  "test_run_drops_packets_when_queue_full \<longleftrightarrow>
     (let flood = map (\<lambda>i. ReadDone (flood_line i @ CRLF) (if i < 2 then Delivered else QueueFull)) [0..<20]
      in client_run (n0call [addr] (Some 5)) (at_time 0 (accept_login @ [greeting, verified] @ flood)) (\<lambda>s.
           delivered s \<noteq> [] \<and> length (delivered s) < 20 \<and> \<not> finished s
           \<and> some_of (aprsis_run (n0call [addr] (Some 5)) s (at_time 1 write_tx_dropped)) finished))"

text \<open>With a dashboard: the state the test reads under the lock.\<close>

definition test_run_updates_dashboard_on_connect :: bool where
  "test_run_updates_dashboard_on_connect \<longleftrightarrow>
     client_run (n0call [addr] (Some 30))
       (at_time 0 (accept_login @ [greeting, verified, line_comes ''TEST>APRS:dashboard test''])) (\<lambda>s.
     delivered s \<noteq> [] \<and> dash_connected s \<and> dash_server s = addr
     \<and> some_of (aprsis_run (n0call [addr] (Some 30)) s (at_time 1 write_tx_dropped)) finished)"

definition test_run_updates_dashboard_on_disconnect :: bool where
  "test_run_updates_dashboard_on_disconnect \<longleftrightarrow>
     client_run (n0call [addr] (Some 5))
       (at_time 0 (accept_login @ [greeting, line_comes ''TEST>APRS:before disconnect''])) (\<lambda>s.
     delivered s \<noteq> [] \<and> dash_connected s
     \<and> some_of (aprsis_run (n0call [addr] (Some 5)) s (at_time 1 [server_closes])) (\<lambda>s.
         \<not> dash_connected s
         \<and> some_of (aprsis_run (n0call [addr] (Some 5)) s (at_time 2 write_tx_dropped)) finished))"

definition test_run_with_dashboard_none_works :: bool where
  "test_run_with_dashboard_none_works \<longleftrightarrow>
     client_run (n0call [addr] (Some 5))
       (at_time 0 (accept_login @ [greeting, line_comes ''TEST>APRS:no dashboard'', server_closes])
        @ at_time 1 write_tx_dropped) (\<lambda>s.
     at_index (delivered s) 0 (\<lambda>pkt. tnc2 pkt = ''TEST>APRS:no dashboard'') \<and> finished s)"

definition test_run_dashboard_reconnect_cycle :: bool where
  "test_run_dashboard_reconnect_cycle \<longleftrightarrow>
     (let client = n0call [addr] (Some 5) in
      client_run client (at_time 0 (accept_login @ [greeting, line_comes ''FIRST>APRS:first connection''])) (\<lambda>s.
        at_index (delivered s) 0 (\<lambda>pkt1. tnc2 pkt1 = ''FIRST>APRS:first connection'') \<and> dash_connected s \<and> dash_server s = addr
        \<and> some_of (aprsis_run client s (at_time 1 [server_closes])) (\<lambda>s.
            \<not> dash_connected s
            \<and> some_of (aprsis_run client s
                 (at_time 11 (SleepEnds # accept_login @ [greeting, line_comes ''SECOND>APRS:second connection'']))) (\<lambda>s.
                at_index (delivered s) 1 (\<lambda>pkt2. tnc2 pkt2 = ''SECOND>APRS:second connection'') \<and> dash_connected s
                \<and> some_of (aprsis_run client s (at_time 12 write_tx_dropped)) finished))))"

lemma run_tests_pass:
  "test_run_receives_packets_from_server" "test_run_filters_comment_lines" "test_run_sends_packets_to_server"
  "test_run_detects_heartbeat_timeout" "test_run_with_no_servers_returns_immediately"
  "test_run_shuts_down_when_write_channel_closed" "test_run_reconnects_on_server_disconnect"
  "test_run_rotates_servers_on_failure" "test_write_appends_crlf_if_missing"
  "test_run_shuts_down_when_packet_tx_closed" "test_run_drops_packets_when_queue_full"
  by code_simp+

lemma run_dashboard_tests_pass:
  "test_run_updates_dashboard_on_connect" "test_run_updates_dashboard_on_disconnect"
  "test_run_with_dashboard_none_works" "test_run_dashboard_reconnect_cycle"
  by code_simp+

section \<open>src/interface/mod.rs\<close>

text \<open>A channel and whether its receiver is there: \<open>mpsc::channel(16)\<close> as the tests use it, which never fill one.\<close>

record mpsc_channel =
  ch_queued :: "interface_command list"
  ch_open :: bool

definition mpsc_new :: mpsc_channel where
  "mpsc_new = \<lparr>ch_queued = [], ch_open = True\<rparr>"

definition channel_send :: "mpsc_channel \<Rightarrow> interface_command \<Rightarrow> mpsc_channel \<times> bool" where
  "channel_send c x =
     (if ch_open c then (c\<lparr>ch_queued := ch_queued c @ [x]\<rparr>, True) else (c, False))"

definition channel_recv :: "mpsc_channel \<Rightarrow> interface_command option" where
  "channel_recv c = (case ch_queued c of [] \<Rightarrow> None | x # _ \<Rightarrow> Some x)"

definition recv_dropped :: "mpsc_channel \<Rightarrow> mpsc_channel" where
  "recv_dropped c = c\<lparr>ch_open := False\<rparr>"

definition test_metadata :: "string \<Rightarrow> interface_metadata" where
  "test_metadata callsign = \<lparr>md_callsign = callsign, md_type = NullIface, md_tx_ok = False, md_igate_group = 1\<rparr>"

definition test_metadata_tx :: "string \<Rightarrow> bool \<Rightarrow> interface_metadata" where
  "test_metadata_tx callsign tx_ok =
     \<lparr>md_callsign = callsign, md_type = Serial, md_tx_ok = tx_ok, md_igate_group = 1\<rparr>"

definition test_metadata_group :: "string \<Rightarrow> u8 \<Rightarrow> interface_metadata" where
  "test_metadata_group callsign grp =
     \<lparr>md_callsign = callsign, md_type = NullIface, md_tx_ok = False, md_igate_group = grp\<rparr>"

definition test_handle :: "interface_metadata \<Rightarrow> mpsc_channel interface_handle" where
  "test_handle metadata = handle_new metadata mpsc_new"

definition registered :: "interface_metadata list \<Rightarrow> mpsc_channel registry" where
  "registered mds = foldl register_handle registry_new (map test_handle mds)"

definition test_interface_command_transmit_holds_packet :: bool where
  "test_interface_command_transmit_holds_packet \<longleftrightarrow>
     (case Transmit (packet_new 0 ''TEST>APRS:hello'' ''port0'' True) of
        Transmit p \<Rightarrow> tnc2 p = ''TEST>APRS:hello'' | Shutdown \<Rightarrow> False)"

definition test_metadata_stores_all_fields :: bool where
  "test_metadata_stores_all_fields \<longleftrightarrow>
     (let meta = \<lparr>md_callsign = ''OH2MQK-1'', md_type = Serial, md_tx_ok = True, md_igate_group = 2\<rparr>
      in md_callsign meta = ''OH2MQK-1'' \<and> md_type meta = Serial \<and> md_tx_ok meta \<and> md_igate_group meta = 2)"

definition test_handle_transmit_sends_command :: bool where
  "test_handle_transmit_sends_command \<longleftrightarrow>
     (case handle_transmit channel_send (test_handle (test_metadata ''TEST-1'')) (packet_new 0 ''SRC>DST:data'' ''test'' True) of
        (handle, sent) \<Rightarrow>
          sent \<and> some_of (channel_recv (ih_cmd_tx handle)) (\<lambda>cmd. case cmd of Transmit _ \<Rightarrow> True | Shutdown \<Rightarrow> False))"

definition test_handle_shutdown_sends_command :: bool where
  "test_handle_shutdown_sends_command \<longleftrightarrow>
     (case handle_shutdown channel_send (test_handle (test_metadata ''TEST-1'')) of
        (handle, sent) \<Rightarrow> sent \<and> channel_recv (ih_cmd_tx handle) = Some Shutdown)"

definition test_handle_transmit_fails_when_receiver_dropped :: bool where
  "test_handle_transmit_fails_when_receiver_dropped \<longleftrightarrow>
     \<not> snd (handle_transmit channel_send (handle_new (test_metadata ''TEST-1'') (recv_dropped mpsc_new))
             (packet_new 0 ''SRC>DST:data'' ''test'' True))"

definition test_handle_shutdown_fails_when_receiver_dropped :: bool where
  "test_handle_shutdown_fails_when_receiver_dropped \<longleftrightarrow>
     \<not> snd (handle_shutdown channel_send (handle_new (test_metadata ''TEST-1'') (recv_dropped mpsc_new)))"

definition test_registry_new_is_empty :: bool where
  "test_registry_new_is_empty \<longleftrightarrow>
     registry_is_empty (registry_new :: mpsc_channel registry) \<and> registry_len (registry_new :: mpsc_channel registry) = 0"

definition test_registry_default_is_empty :: bool where
  "test_registry_default_is_empty \<longleftrightarrow> registry_is_empty (registry_new :: mpsc_channel registry)"

definition test_registry_register_increases_len :: bool where
  "test_registry_register_increases_len \<longleftrightarrow>
     (let reg = registered [test_metadata ''TEST-1''] in registry_len reg = 1 \<and> \<not> registry_is_empty reg)"

definition test_registry_find_by_callsign_found :: bool where
  "test_registry_find_by_callsign_found \<longleftrightarrow>
     some_of (find_by_callsign (registered [test_metadata ''OH2MQK-1'']) ''OH2MQK-1'') (\<lambda>found.
       md_callsign (ih_metadata found) = ''OH2MQK-1'')"

definition test_registry_find_by_callsign_not_found :: bool where
  "test_registry_find_by_callsign_not_found \<longleftrightarrow>
     \<not> is_some (find_by_callsign (registered [test_metadata ''OH2MQK-1'']) ''NONEXIST'')"

definition test_registry_find_by_callsign_returns_first_match :: bool where
  "test_registry_find_by_callsign_returns_first_match \<longleftrightarrow>
     some_of (find_by_callsign (registered [test_metadata_tx ''DUPE-1'' True, test_metadata_tx ''DUPE-1'' False]) ''DUPE-1'')
       (\<lambda>found. md_tx_ok (ih_metadata found))"

definition test_registry_tx_capable_filters_correctly :: bool where
  "test_registry_tx_capable_filters_correctly \<longleftrightarrow>
     (let tx = tx_capable (registered
            [test_metadata_tx ''TX-1'' True, test_metadata_tx ''RX-1'' False, test_metadata_tx ''TX-2'' True])
      in length tx = 2 \<and> list_all (\<lambda>h. md_tx_ok (ih_metadata h)) tx)"

definition test_registry_tx_capable_empty_when_none :: bool where
  "test_registry_tx_capable_empty_when_none \<longleftrightarrow> tx_capable (registered [test_metadata_tx ''RX-1'' False]) = []"

definition test_registry_by_igate_group :: bool where
  "test_registry_by_igate_group \<longleftrightarrow>
     (let reg = registered [test_metadata_group ''A-1'' 1, test_metadata_group ''B-1'' 2, test_metadata_group ''C-1'' 1];
          group2 = by_igate_group reg 2
      in length (by_igate_group reg 1) = 2
         \<and> length group2 = 1 \<and> at_index group2 0 (\<lambda>h. md_callsign (ih_metadata h) = ''B-1'')
         \<and> by_igate_group reg 3 = [])"

definition test_registry_iter :: bool where
  "test_registry_iter \<longleftrightarrow>
     (let reg = registered [test_metadata ''A-1'', test_metadata ''B-1'']
      in map (\<lambda>h. md_callsign (ih_metadata h)) reg = [''A-1'', ''B-1''])"

definition test_registry_shutdown_all_sends_to_all :: bool where
  "test_registry_shutdown_all_sends_to_all \<longleftrightarrow>
     (let reg = shutdown_all channel_send (registered [test_metadata ''A-1'', test_metadata ''B-1''])
      in at_index reg 0 (\<lambda>h. channel_recv (ih_cmd_tx h) = Some Shutdown)
         \<and> at_index reg 1 (\<lambda>h. channel_recv (ih_cmd_tx h) = Some Shutdown))"

definition test_registry_shutdown_all_tolerates_closed_channels :: bool where
  "test_registry_shutdown_all_tolerates_closed_channels \<longleftrightarrow>
     (let reg = shutdown_all channel_send
            [handle_new (test_metadata ''A-1'') (recv_dropped mpsc_new), test_handle (test_metadata ''B-1'')]
      in at_index reg 1 (\<lambda>h. channel_recv (ih_cmd_tx h) = Some Shutdown))"

lemma interface_tests_pass:
  "test_interface_command_transmit_holds_packet" "test_metadata_stores_all_fields" "test_handle_transmit_sends_command"
  "test_handle_shutdown_sends_command" "test_handle_transmit_fails_when_receiver_dropped"
  "test_handle_shutdown_fails_when_receiver_dropped"
  by code_simp+

lemma registry_tests_pass:
  "test_registry_new_is_empty" "test_registry_default_is_empty" "test_registry_register_increases_len" "test_registry_find_by_callsign_found"
  "test_registry_find_by_callsign_not_found" "test_registry_find_by_callsign_returns_first_match"
  "test_registry_tx_capable_filters_correctly" "test_registry_tx_capable_empty_when_none" "test_registry_by_igate_group"
  "test_registry_iter" "test_registry_shutdown_all_sends_to_all" "test_registry_shutdown_all_tolerates_closed_channels"
  by code_simp+

text \<open>The \<open>NullInterface\<close> of the tests: its loop on the commands that were sent; \<open>is_closed\<close> says whether the channel is
  closed after them. It is true when \<open>run\<close> has completed.\<close>

fun null_interface_run :: "interface_command list \<Rightarrow> bool \<Rightarrow> bool" where
  "null_interface_run [] is_closed = is_closed"
| "null_interface_run (Shutdown # cs) is_closed = True"
| "null_interface_run (Transmit p # cs) is_closed = null_interface_run cs is_closed"

definition test_trait_object_metadata :: bool where
  "test_trait_object_metadata \<longleftrightarrow> md_callsign (test_metadata ''NULL-1'') = ''NULL-1''"

definition test_trait_object_run_responds_to_shutdown :: bool where
  "test_trait_object_run_responds_to_shutdown \<longleftrightarrow>
     (case channel_send mpsc_new Shutdown of (c, sent) \<Rightarrow> sent \<and> null_interface_run (ch_queued c) False)"

definition test_trait_object_run_completes_when_cmd_channel_closes :: bool where
  "test_trait_object_run_completes_when_cmd_channel_closes \<longleftrightarrow> null_interface_run (ch_queued mpsc_new) True"

lemma trait_object_tests_pass:
  "test_trait_object_metadata" "test_trait_object_run_responds_to_shutdown"
  "test_trait_object_run_completes_when_cmd_channel_closes"
  by code_simp+

end
