(* ===== verification/Tests_Interfaces.thy ===== *)
theory Tests_Interfaces
  imports Tests_Base Tcp_Kiss
begin

text \<open>
  The unit tests of \<open>src/interface/serial.rs\<close> and \<open>src/interface/tcp.rs\<close>. A test of a task with a mock line or a mock
  server is a run of its step function (\<^const>\<open>kiss_loop_run\<close>, \<^const>\<open>tcp_run\<close>); the events are what the other side of
  the test does, in the order of the test.
\<close>

section \<open>Frames\<close>

text \<open>The frame of \<open>SRC>DST:payload\<close>, \<^const>\<open>None\<close> where an address does not encode.\<close>

definition build_test_ax25_frame :: "string \<Rightarrow> string \<Rightarrow> string \<Rightarrow> u8 list may_panic" where
  "build_test_ax25_frame src dst data =
     (case (encode_ax25_address dst 0xE0, encode_ax25_address src 0x60) of
        (Inr dst_addr, Inr src_addr) \<Rightarrow>
          (let src_addr = src_addr[6 := (src_addr ! 6) OR 0x01]
           in Some (dst_addr @ src_addr @ [0x03] @ [0xF0] @ as_bytes data))
      | _ \<Rightarrow> None)"

definition wrap_in_kiss :: "u8 list \<Rightarrow> u8 list" where
  "wrap_in_kiss ax25_data = kiss_encode ax25_data 0x00 Plain"

abbreviation with_frame :: "string \<Rightarrow> string \<Rightarrow> string \<Rightarrow> (u8 list \<Rightarrow> bool) \<Rightarrow> bool" where
  "with_frame src dst data P \<equiv> some_of (build_test_ax25_frame src dst data) P"

text \<open>The packet the transmit tests send.\<close>

abbreviation sent_packet :: "string \<Rightarrow> u8 list \<Rightarrow> string \<Rightarrow> packet" where
  "sent_packet line ax25_data iface \<equiv>
     \<lparr>tnc2 = line, tnc2_addr_len = 10, ax25 = Some ax25_data, ax25_addr_len = 14, source_interface = iface,
      is_aprs = True, ui_pid = 0xF0, received_at = 0, igate_group = 1\<rparr>"

abbreviation last_is :: "'a list \<Rightarrow> 'a \<Rightarrow> bool" where
  "last_is xs x \<equiv> at_index (rev xs) 0 (\<lambda>y. y = x)"

section \<open>src/interface/serial.rs: frames and packets\<close>

definition test_protocol_kiss_maps_to_plain :: bool where
  "test_protocol_kiss_maps_to_plain \<longleftrightarrow> protocol_to_kiss_variant ProtoKiss = Some Plain"
definition test_protocol_smack_maps_to_smack :: bool where
  "test_protocol_smack_maps_to_smack \<longleftrightarrow> protocol_to_kiss_variant ProtoSmack = Some Smack"
definition test_protocol_flexnet_maps_to_flexnet :: bool where
  "test_protocol_flexnet_maps_to_flexnet \<longleftrightarrow> protocol_to_kiss_variant ProtoFlexnet = Some FlexNet"
definition test_protocol_bpqcrc_maps_to_bpqcrc :: bool where
  "test_protocol_bpqcrc_maps_to_bpqcrc \<longleftrightarrow> protocol_to_kiss_variant ProtoBpqcrc = Some BpqCrc"
definition test_protocol_tnc2_returns_none :: bool where
  "test_protocol_tnc2_returns_none \<longleftrightarrow> protocol_to_kiss_variant ProtoTnc2 = None"
definition test_protocol_dprs_returns_none :: bool where
  "test_protocol_dprs_returns_none \<longleftrightarrow> protocol_to_kiss_variant ProtoDprs = None"

definition test_process_data_frame_produces_packet :: bool where
  "test_process_data_frame_produces_packet \<longleftrightarrow>
     with_frame ''OH2MQK-1'' ''APRS'' ''!6029.50N/02505.43E>'' (\<lambda>ax25_data.
     some_of (process_kiss_frame 0 \<lparr>cmd_byte = 0x00, frame_data = ax25_data\<rparr> ''serial0'' 1) (\<lambda>pkt.
       starts_with (tnc2 pkt) ''OH2MQK-1>APRS:'' \<and> is_aprs pkt \<and> source_interface pkt = ''serial0''
       \<and> igate_group pkt = 1 \<and> ax25 pkt = Some ax25_data))"

definition test_process_non_data_frame_returns_none :: bool where
  "test_process_non_data_frame_returns_none \<longleftrightarrow>
     \<not> is_some (process_kiss_frame 0 \<lparr>cmd_byte = 0x01, frame_data = [0x28]\<rparr> ''serial0'' 1)"

definition test_process_invalid_ax25_returns_none :: bool where
  "test_process_invalid_ax25_returns_none \<longleftrightarrow>
     \<not> is_some (process_kiss_frame 0 \<lparr>cmd_byte = 0x00, frame_data = [0x00, 0x01, 0x02]\<rparr> ''serial0'' 1)"

definition test_process_frame_with_tnc_id :: bool where
  "test_process_frame_with_tnc_id \<longleftrightarrow>
     with_frame ''TEST-1'' ''APRS'' ''!test'' (\<lambda>ax25_data.
     some_of (process_kiss_frame 0 \<lparr>cmd_byte = 0x30, frame_data = ax25_data\<rparr> ''serial0'' 2) (\<lambda>packet. igate_group packet = 2))"

definition test_process_frame_preserves_igate_group :: bool where
  "test_process_frame_preserves_igate_group \<longleftrightarrow>
     with_frame ''SRC'' ''DST'' ''!test'' (\<lambda>ax25_data.
     some_of (process_kiss_frame 0 \<lparr>cmd_byte = 0x00, frame_data = ax25_data\<rparr> ''port0'' 5) (\<lambda>pkt. igate_group pkt = 5))"

definition test_prepare_transmit_with_ax25_data :: bool where
  "test_prepare_transmit_with_ax25_data \<longleftrightarrow>
     with_frame ''TEST-1'' ''APRS'' ''!test'' (\<lambda>ax25_data.
     some_of (prepare_transmit (sent_packet ''TEST-1>APRS:!test'' ax25_data ''serial0'') ProtoKiss) (\<lambda>kiss_data.
       nth_opt kiss_data 0 = Some FEND \<and> nth_opt kiss_data 1 = Some 0x00 \<and> last_is kiss_data FEND))"

definition test_prepare_transmit_without_ax25_data_returns_none :: bool where
  "test_prepare_transmit_without_ax25_data_returns_none \<longleftrightarrow>
     \<not> is_some (prepare_transmit (packet_new 0 ''TEST>APRS:hello'' ''serial0'' True) ProtoKiss)"

definition test_prepare_transmit_with_non_kiss_protocol_returns_none :: bool where
  "test_prepare_transmit_with_non_kiss_protocol_returns_none \<longleftrightarrow>
     with_frame ''TEST-1'' ''APRS'' ''!test'' (\<lambda>ax25_data.
       \<not> is_some (prepare_transmit (sent_packet ''TEST-1>APRS:!test'' ax25_data ''serial0'') ProtoTnc2)
       \<and> \<not> is_some (prepare_transmit (sent_packet ''TEST-1>APRS:!test'' ax25_data ''serial0'') ProtoDprs))"

definition test_prepare_transmit_smack_includes_crc :: bool where
  "test_prepare_transmit_smack_includes_crc \<longleftrightarrow>
     with_frame ''TEST-1'' ''APRS'' ''!test'' (\<lambda>ax25_data.
     let plain_len = length (kiss_encode ax25_data 0x00 Plain) in
     some_of (prepare_transmit (sent_packet ''TEST-1>APRS:!test'' ax25_data ''serial0'') ProtoSmack) (\<lambda>result.
       length result > plain_len))"

definition test_prepare_transmit_roundtrip_through_decoder :: bool where
  "test_prepare_transmit_roundtrip_through_decoder \<longleftrightarrow>
     with_frame ''TEST-1'' ''APRS'' ''!roundtrip'' (\<lambda>ax25_data.
     some_of (prepare_transmit (sent_packet ''TEST-1>APRS:!roundtrip'' ax25_data ''serial0'') ProtoKiss) (\<lambda>kiss_data.
     let frames = snd (feed decoder_new kiss_data)
     in length frames = 1 \<and> at_index frames 0 (\<lambda>f. cmd_byte f = 0x00) \<and> at_index frames 0 (\<lambda>f. frame_data f = ax25_data)))"

definition test_prepare_transmit_fend_in_ax25_data_is_escaped :: bool where
  "test_prepare_transmit_fend_in_ax25_data_is_escaped \<longleftrightarrow>
     with_frame ''TEST-1'' ''APRS'' ''!test'' (\<lambda>frame.
     let ax25_data = frame @ [FEND] @ [byte_of CHR ''X''] in
     some_of (prepare_transmit (sent_packet ''TEST-1>APRS:!test'' ax25_data ''serial0'') ProtoKiss) (\<lambda>kiss_data.
     let inner = drop 1 (take (length kiss_data - 1) kiss_data); frames = snd (feed decoder_new kiss_data)
     in list_ex (\<lambda>w. w = (FESC, TFEND)) (windows2 inner)
        \<and> length frames = 1 \<and> at_index frames 0 (\<lambda>f. frame_data f = ax25_data)))"

abbreviation ttyUSB0 :: "string \<Rightarrow> serial_interface" where
  "ttyUSB0 callsign \<equiv> serial_new callsign ''/dev/ttyUSB0'' 9600 ProtoKiss False 1"

definition test_serial_interface_metadata_correct :: bool where
  "test_serial_interface_metadata_correct \<longleftrightarrow>
     (let meta = si_metadata (ttyUSB0 ''OH2MQK-1'')
      in md_callsign meta = ''OH2MQK-1'' \<and> md_type meta = Serial \<and> \<not> md_tx_ok meta \<and> md_igate_group meta = 1)"

definition test_serial_interface_metadata_tx_enabled :: bool where
  "test_serial_interface_metadata_tx_enabled \<longleftrightarrow>
     (let meta = si_metadata (serial_new ''TEST-2'' ''/dev/ttyUSB1'' 19200 ProtoKiss True 2)
      in md_tx_ok meta \<and> md_igate_group meta = 2)"

definition test_serial_interface_with_watchdog_timeout :: bool where
  "test_serial_interface_with_watchdog_timeout \<longleftrightarrow>
     si_watchdog (with_watchdog_timeout (from_secs 300) (ttyUSB0 ''TEST-1'')) = from_secs 300"

lemma serial_frame_tests_pass:
  "test_protocol_kiss_maps_to_plain" "test_protocol_smack_maps_to_smack" "test_protocol_flexnet_maps_to_flexnet"
  "test_protocol_bpqcrc_maps_to_bpqcrc" "test_protocol_tnc2_returns_none" "test_protocol_dprs_returns_none"
  "test_process_data_frame_produces_packet" "test_process_non_data_frame_returns_none"
  "test_process_invalid_ax25_returns_none" "test_process_frame_with_tnc_id" "test_process_frame_preserves_igate_group"
  by code_simp+

lemma serial_transmit_tests_pass:
  "test_prepare_transmit_with_ax25_data" "test_prepare_transmit_without_ax25_data_returns_none"
  "test_prepare_transmit_with_non_kiss_protocol_returns_none"
  "test_prepare_transmit_roundtrip_through_decoder" "test_prepare_transmit_fend_in_ax25_data_is_escaped"
  by code_simp+

text \<open>The CRC is two bytes and escaping shortens nothing, so this holds of every frame.\<close>

lemma smack_longer: "length (kiss_encode data cb Plain) < length (kiss_encode data cb Smack)"
  by (simp add: kiss_encode_def kiss_escape_byte_def Let_def)

lemma smack_test_passes: "test_prepare_transmit_smack_includes_crc"
proof -
  have "is_some (build_test_ax25_frame ''TEST-1'' ''APRS'' ''!test'')" by code_simp
  then show ?thesis
    by (auto simp: test_prepare_transmit_smack_includes_crc_def is_some_def some_of_def prepare_transmit_def smack_longer
        split: option.splits)
qed

lemma serial_interface_tests_pass:
  "test_serial_interface_metadata_correct" "test_serial_interface_metadata_tx_enabled"
  "test_serial_interface_with_watchdog_timeout"
  by code_simp+

section \<open>src/interface/serial.rs: the loop\<close>

abbreviation serial_meta :: "string \<Rightarrow> bool \<Rightarrow> interface_metadata" where
  "serial_meta callsign tx_ok \<equiv> \<lparr>md_callsign = callsign, md_type = Serial, md_tx_ok = tx_ok, md_igate_group = 1\<rparr>"

text \<open>\<open>spawn_kiss_loop\<close> on the events of a test, the watchdog at a minute.\<close>

definition spawn_kiss_loop ::
  "interface_metadata \<Rightarrow> duration \<Rightarrow> (instant \<times> kiss_event) list \<Rightarrow> (kiss_loop \<Rightarrow> bool) \<Rightarrow> bool" where
  "spawn_kiss_loop md watchdog es P = some_of (kiss_loop_run md ProtoKiss watchdog es (kiss_loop_start 0)) P"

abbreviation chunk :: "u8 list \<Rightarrow> kiss_event" where
  "chunk bytes \<equiv> ReadBytes bytes (\<lambda>_. True)"

definition test_loop_receives_kiss_frame_and_sends_packet :: bool where
  "test_loop_receives_kiss_frame_and_sends_packet \<longleftrightarrow>
     with_frame ''TEST-1'' ''APRS'' ''!6029.50N/02505.43E>'' (\<lambda>ax25_data.
     spawn_kiss_loop (serial_meta ''TEST-1'' False) (from_secs 60)
       [(0, chunk (wrap_in_kiss ax25_data)), (from_secs 1, chunk [])] (\<lambda>s.
     at_index (kl_packets s) 0 (\<lambda>packet. starts_with (tnc2 packet) ''TEST-1>APRS:'' \<and> is_aprs packet
       \<and> source_interface packet = ''TEST-1'')))"

definition test_loop_handles_shutdown_command :: bool where
  "test_loop_handles_shutdown_command \<longleftrightarrow>
     spawn_kiss_loop (serial_meta ''TEST-1'' False) (from_secs 60) [(0, Command Shutdown True)] (\<lambda>s. kl_exit s \<noteq> None)"

definition test_loop_handles_cmd_channel_close :: bool where
  "test_loop_handles_cmd_channel_close \<longleftrightarrow>
     spawn_kiss_loop (serial_meta ''TEST-1'' False) (from_secs 60) [(0, CommandsClosed)] (\<lambda>s. kl_exit s \<noteq> None)"

definition test_loop_transmits_packet_when_tx_ok :: bool where
  "test_loop_transmits_packet_when_tx_ok \<longleftrightarrow>
     with_frame ''TEST-1'' ''APRS'' ''!test'' (\<lambda>ax25_data.
     spawn_kiss_loop (serial_meta ''TEST-TX'' True) (from_secs 60)
       [(0, Command (Transmit (sent_packet ''TEST-1>APRS:!test'' ax25_data ''other'')) True), (0, Command Shutdown True)] (\<lambda>s.
     let written = concat (kl_written s)
     in nth_opt written 0 = Some FEND \<and> nth_opt written 1 = Some 0x00 \<and> last_is written FEND))"

definition test_loop_ignores_transmit_when_tx_not_ok :: bool where
  "test_loop_ignores_transmit_when_tx_not_ok \<longleftrightarrow>
     with_frame ''TEST-1'' ''APRS'' ''!test'' (\<lambda>ax25_data.
     spawn_kiss_loop (serial_meta ''TEST-RX'' False) (from_secs 60)
       [(0, Command (Transmit (sent_packet ''TEST-1>APRS:!test'' ax25_data ''other'')) True), (0, Command Shutdown True)] (\<lambda>s.
     kl_written s = []))"

definition test_loop_handles_multiple_kiss_frames :: bool where
  "test_loop_handles_multiple_kiss_frames \<longleftrightarrow>
     with_frame ''SRC1'' ''APRS'' ''!packet1'' (\<lambda>ax25_1.
     with_frame ''SRC2'' ''APRS'' ''!packet2'' (\<lambda>ax25_2.
     spawn_kiss_loop (serial_meta ''TEST-MULTI'' False) (from_secs 60)
       [(0, chunk (wrap_in_kiss ax25_1 @ wrap_in_kiss ax25_2)), (from_secs 1, chunk [])] (\<lambda>s.
     at_index (kl_packets s) 0 (\<lambda>pkt1. has_infix (tnc2 pkt1) ''SRC1'')
     \<and> at_index (kl_packets s) 1 (\<lambda>pkt2. has_infix (tnc2 pkt2) ''SRC2''))))"

definition test_loop_handles_incremental_kiss_data :: bool where
  "test_loop_handles_incremental_kiss_data \<longleftrightarrow>
     with_frame ''TEST-1'' ''APRS'' ''!incr'' (\<lambda>ax25_data.
     spawn_kiss_loop (serial_meta ''TEST-INCR'' False) (from_secs 60)
       (map (\<lambda>byte. (0, chunk [byte])) (wrap_in_kiss ax25_data) @ [(from_secs 1, chunk [])]) (\<lambda>s.
     at_index (kl_packets s) 0 (\<lambda>packet. has_infix (tnc2 packet) ''TEST-1'')))"

text \<open>The watchdog of 100 ms fires in the 200 ms the test waits.\<close>

definition test_loop_watchdog_triggers_on_idle :: bool where
  "test_loop_watchdog_triggers_on_idle \<longleftrightarrow>
     spawn_kiss_loop (serial_meta ''TEST-WD'' False) 100000000
       [(100000000, WatchdogFires), (200000000, Command Shutdown True)] (\<lambda>s. kl_warnings s = 1 \<and> kl_exit s \<noteq> None)"

definition test_loop_kiss_frame_with_fend_in_data :: bool where
  "test_loop_kiss_frame_with_fend_in_data \<longleftrightarrow>
     unwrapping (encode_ax25_address ''APRS'' 0xE0) (\<lambda>dst.
     unwrapping (encode_ax25_address ''TEST-1'' 0x60) (\<lambda>src.
     let ax25_data = dst @ src[6 := (src ! 6) OR 0x01] @ [0x03] @ [0xF0] @ as_bytes ''!test''
     in spawn_kiss_loop (serial_meta ''TEST-ESC'' False) (from_secs 60)
          [(0, chunk (wrap_in_kiss ax25_data)), (from_secs 1, chunk [])] (\<lambda>s.
        at_index (kl_packets s) 0 (\<lambda>packet. starts_with (tnc2 packet) ''TEST-1>APRS:''))))"

definition test_loop_eof_stops_cleanly :: bool where
  "test_loop_eof_stops_cleanly \<longleftrightarrow>
     spawn_kiss_loop (serial_meta ''TEST-EOF'' False) (from_secs 60) [(0, chunk [])] (\<lambda>s. kl_exit s \<noteq> None)"

text \<open>The frame of the test with a FEND in its data has none, so nothing in it is escaped.\<close>

lemma fend_test_escapes_nothing:
  "with_frame ''TEST-1'' ''APRS'' ''!test'' (\<lambda>ax25_data. FEND \<notin> set ax25_data \<and> FESC \<notin> set (wrap_in_kiss ax25_data))"
  by code_simp

lemma loop_receive_tests_pass:
  "test_loop_receives_kiss_frame_and_sends_packet" "test_loop_handles_multiple_kiss_frames"
  "test_loop_handles_incremental_kiss_data" "test_loop_kiss_frame_with_fend_in_data"
  by code_simp+

lemma loop_command_tests_pass:
  "test_loop_handles_shutdown_command" "test_loop_handles_cmd_channel_close" "test_loop_transmits_packet_when_tx_ok"
  "test_loop_ignores_transmit_when_tx_not_ok" "test_loop_watchdog_triggers_on_idle" "test_loop_eof_stops_cleanly"
  by code_simp+

section \<open>src/interface/tcp.rs\<close>

definition test_tcp_interface_metadata_correct :: bool where
  "test_tcp_interface_metadata_correct \<longleftrightarrow>
     (let meta = ti_metadata (tcp_new ''OH2MQK-1'' ''192.168.1.100'' 10001 ProtoKiss False 1)
      in md_callsign meta = ''OH2MQK-1'' \<and> md_type meta = Tcp \<and> \<not> md_tx_ok meta \<and> md_igate_group meta = 1)"

definition test_tcp_interface_metadata_tx_enabled :: bool where
  "test_tcp_interface_metadata_tx_enabled \<longleftrightarrow>
     (let meta = ti_metadata (tcp_new ''TEST-2'' ''10.0.0.1'' 8001 ProtoSmack True 3)
      in md_tx_ok meta \<and> md_igate_group meta = 3 \<and> md_type meta = Tcp)"

definition test_tcp_interface_with_watchdog_timeout :: bool where
  "test_tcp_interface_with_watchdog_timeout \<longleftrightarrow>
     ti_watchdog (tcp_with_watchdog_timeout (from_secs 300) (tcp_new ''TEST-1'' ''localhost'' 10001 ProtoKiss False 1))
       = from_secs 300"

definition test_tcp_interface_with_connect_timeout :: bool where
  "test_tcp_interface_with_connect_timeout \<longleftrightarrow>
     ti_connect_timeout (tcp_with_connect_timeout (from_secs 10) (tcp_new ''TEST-1'' ''localhost'' 10001 ProtoKiss False 1))
       = from_secs 10"

definition test_tcp_interface_default_timeouts :: bool where
  "test_tcp_interface_default_timeouts \<longleftrightarrow>
     (let iface = tcp_new ''TEST-1'' ''localhost'' 10001 ProtoKiss False 1
      in ti_watchdog iface = from_secs TCP_WATCHDOG_TIMEOUT_SECS
         \<and> ti_connect_timeout iface = from_secs DEFAULT_CONNECT_TIMEOUT_SECS)"

definition test_tcp_interface_implements_interface_trait :: bool where
  "test_tcp_interface_implements_interface_trait \<longleftrightarrow>
     (let meta = ti_metadata (tcp_new ''TCP-TRAIT'' ''localhost'' 10001 ProtoKiss False 1)
      in md_callsign meta = ''TCP-TRAIT'' \<and> md_type meta = Tcp)"

lemma tcp_interface_tests_pass:
  "test_tcp_interface_metadata_correct" "test_tcp_interface_metadata_tx_enabled"
  "test_tcp_interface_with_watchdog_timeout" "test_tcp_interface_with_connect_timeout"
  "test_tcp_interface_default_timeouts" "test_tcp_interface_implements_interface_trait"
  by code_simp+

text \<open>The interface of a test with a listener at \<open>port\<close>; the run of its task; the packets it passed on, of the loops
  that have ended and of the one that runs.\<close>

abbreviation tcp_iface :: "string \<Rightarrow> bool \<Rightarrow> duration \<Rightarrow> tcp_interface" where
  "tcp_iface callsign tx_ok timeout \<equiv>
     tcp_with_connect_timeout timeout (tcp_new callsign ''127.0.0.1'' 40001 ProtoKiss tx_ok 1)"

definition run_tcp :: "tcp_interface \<Rightarrow> (instant \<times> tcp_event) list \<Rightarrow> (tcp_state \<Rightarrow> bool) \<Rightarrow> bool" where
  "run_tcp ti es P = some_of (tcp_run ti es tcp_start) P"

definition loops_of :: "tcp_state \<Rightarrow> kiss_loop list" where
  "loops_of s = tc_done s @ (case tc_phase s of InLoop k \<Rightarrow> [k] | _ \<Rightarrow> [])"

definition packets_received :: "tcp_state \<Rightarrow> packet list" where
  "packets_received s = concat (map kl_packets (loops_of s))"

definition bytes_sent :: "tcp_state \<Rightarrow> u8 list" where
  "bytes_sent s = concat (concat (map kl_written (loops_of s)))"

abbreviation comes :: "u8 list \<Rightarrow> tcp_event" where
  "comes bytes \<equiv> LoopEvent (chunk bytes)"

abbreviation told :: "interface_command \<Rightarrow> tcp_event" where
  "told c \<equiv> LoopEvent (Command c True)"

definition connects_at :: "instant \<Rightarrow> (instant \<times> tcp_event) list" where
  "connects_at t = [(t, NothingQueued), (t, ConnectOk)]"

definition test_connect_and_receive_kiss_frame :: bool where
  "test_connect_and_receive_kiss_frame \<longleftrightarrow>
     with_frame ''SRC-1'' ''APRS'' ''!6029.50N/02505.43E>'' (\<lambda>ax25_data.
     run_tcp (tcp_iface ''TCP-TEST'' False (from_secs 5))
       (connects_at 0 @ [(0, comes (wrap_in_kiss ax25_data)), (0, told Shutdown)]) (\<lambda>s.
     at_index (packets_received s) 0 (\<lambda>packet. starts_with (tnc2 packet) ''SRC-1>APRS:'' \<and> is_aprs packet
       \<and> source_interface packet = ''TCP-TEST'' \<and> igate_group packet = 1)))"

definition test_connect_and_receive_multiple_frames :: bool where
  "test_connect_and_receive_multiple_frames \<longleftrightarrow>
     with_frame ''SRC1'' ''APRS'' ''!packet1'' (\<lambda>ax25_1.
     with_frame ''SRC2'' ''APRS'' ''!packet2'' (\<lambda>ax25_2.
     run_tcp (tcp_iface ''TCP-MULTI'' False (from_secs 5))
       (connects_at 0 @ [(0, comes (wrap_in_kiss ax25_1 @ wrap_in_kiss ax25_2)), (0, told Shutdown)]) (\<lambda>s.
     at_index (packets_received s) 0 (\<lambda>pkt1. has_infix (tnc2 pkt1) ''SRC1'')
     \<and> at_index (packets_received s) 1 (\<lambda>pkt2. has_infix (tnc2 pkt2) ''SRC2''))))"

definition test_transmit_packet_over_tcp :: bool where
  "test_transmit_packet_over_tcp \<longleftrightarrow>
     with_frame ''TEST-1'' ''APRS'' ''!test'' (\<lambda>ax25_data.
     run_tcp (tcp_iface ''TCP-TX'' True (from_secs 5))
       (connects_at 0 @ [(0, told (Transmit (sent_packet ''TEST-1>APRS:!test'' ax25_data ''other''))), (0, told Shutdown)]) (\<lambda>s.
     let written = bytes_sent s
     in nth_opt written 0 = Some FEND \<and> nth_opt written 1 = Some 0x00 \<and> last_is written FEND))"

definition test_reconnects_after_server_closes_connection :: bool where
  "test_reconnects_after_server_closes_connection \<longleftrightarrow>
     with_frame ''CONN1'' ''APRS'' ''!first'' (\<lambda>ax25_1.
     with_frame ''CONN2'' ''APRS'' ''!second'' (\<lambda>ax25_2.
     run_tcp (tcp_iface ''TCP-RECONN'' False (from_secs 5))
       (connects_at 0 @ [(0, comes (wrap_in_kiss ax25_1)), (0, comes []), (from_secs 1, SleepOver)]
        @ connects_at (from_secs 1) @ [(from_secs 1, comes (wrap_in_kiss ax25_2)), (from_secs 1, told Shutdown)]) (\<lambda>s.
     at_index (packets_received s) 0 (\<lambda>pkt1. has_infix (tnc2 pkt1) ''CONN1'')
     \<and> at_index (packets_received s) 1 (\<lambda>pkt2. has_infix (tnc2 pkt2) ''CONN2''))))"

text \<open>The first wait is a second, the second one two: the shutdown after two seconds comes in the second.\<close>

definition test_shutdown_during_backoff :: bool where
  "test_shutdown_during_backoff \<longleftrightarrow>
     run_tcp (tcp_iface ''TCP-SHUT'' False (from_secs 1))
       [(0, NothingQueued), (0, ConnectFails), (from_secs 1, SleepOver), (from_secs 1, NothingQueued),
        (from_secs 1, ConnectFails), (from_secs 2, Got Shutdown)] (\<lambda>s. tc_phase s = TcpStopped)"

definition test_shutdown_while_connected :: bool where
  "test_shutdown_while_connected \<longleftrightarrow>
     run_tcp (tcp_iface ''TCP-SHUTCONN'' False (from_secs 5)) (connects_at 0 @ [(0, told Shutdown)]) (\<lambda>s.
     tc_phase s = TcpStopped)"

definition test_cmd_channel_close_stops_interface :: bool where
  "test_cmd_channel_close_stops_interface \<longleftrightarrow>
     run_tcp (tcp_iface ''TCP-CHANCLOSE'' False (from_secs 5)) (connects_at 0 @ [(0, LoopEvent CommandsClosed)]) (\<lambda>s.
     tc_phase s = TcpStopped)"

definition test_connect_timeout_triggers_backoff :: bool where
  "test_connect_timeout_triggers_backoff \<longleftrightarrow>
     run_tcp (tcp_with_connect_timeout 500000000 (tcp_new ''TCP-TIMEOUT'' ''192.0.2.1'' 10001 ProtoKiss False 1))
       [(0, NothingQueued), (500000000, ConnectTimesOut), (800000000, Got Shutdown)] (\<lambda>s. tc_phase s = TcpStopped)"

lemma tcp_task_tests_pass:
  "test_connect_and_receive_kiss_frame" "test_connect_and_receive_multiple_frames" "test_transmit_packet_over_tcp"
  "test_reconnects_after_server_closes_connection" "test_shutdown_during_backoff" "test_shutdown_while_connected"
  "test_cmd_channel_close_stops_interface" "test_connect_timeout_triggers_backoff"
  by code_simp+

end
