(* ===== verification/Tests_Dashboard.thy ===== *)
theory Tests_Dashboard
  imports Tests_Base Web_Server
begin

text \<open>
  The unit tests of \<open>src/web/mod.rs\<close> and \<open>src/web/server.rs\<close>. A test that parses the JSON of the state asks its questions
  of the report that is serialised; the static pages and the serialiser are parameters, and what a test finds of
  theirs in a response is a hypothesis of the lemma that says it passes. A client of the server sends its request in the
  chunks the test writes.
\<close>

section \<open>src/web/mod.rs\<close>

definition iface :: "string \<Rightarrow> string \<Rightarrow> interface_info" where
  "iface name detail = \<lparr>ii_name = name, ii_detail = detail\<rparr>"

abbreviation hundredths :: "nat \<Rightarrow> nat \<Rightarrow> float_val \<times> float_val" where
  "hundredths lat lon \<equiv> (Fin (of_nat lat / 100), Fin (of_nat lon / 100))"

abbreviation state_new :: "string \<Rightarrow> interface_info list \<Rightarrow> dashboard_state" where
  "state_new mycall interfaces \<equiv> dashboard_new mycall interfaces 0"

text \<open>\<open>state.stations.get(..).unwrap()\<close>; the JSON of the state, read back.\<close>

abbreviation station_of :: "dashboard_state \<Rightarrow> string \<Rightarrow> (station_entry \<Rightarrow> bool) \<Rightarrow> bool" where
  "station_of s call P \<equiv> some_of (hm_get (stations s) call) P"

abbreviation parsed_json :: "dashboard_state \<Rightarrow> dashboard_json" where
  "parsed_json s \<equiv> dashboard_report ''0.1.24'' 0 0 s"

definition test_dashboard_state_new :: bool where
  "test_dashboard_state_new \<longleftrightarrow>
     (let state = state_new ''OH2MQK-1'' [iface ''radio0'' ''/dev/ttyUSB0 @ 9600'']
      in db_mycall state = ''OH2MQK-1'' \<and> length (db_interfaces state) = 1
         \<and> at_index (db_interfaces state) 0 (\<lambda>i. ii_name i = ''radio0'')
         \<and> at_index (db_interfaces state) 0 (\<lambda>i. ii_detail i = ''/dev/ttyUSB0 @ 9600'')
         \<and> \<not> db_aprsis_connected state \<and> recent_packets state = [] \<and> packet_sequence state = 0)"

definition test_push_packet_increments_sequence :: bool where
  "test_push_packet_increments_sequence \<longleftrightarrow>
     (let snap = \<lparr>ps_timestamp = 1000, ps_source_call = ''OH2MQK-1'', ps_dest_call = ''APRS'', ps_interface = ''radio0'',
            ps_payload = ''!6029.50N/02505.43E>'', ps_raw = ''OH2MQK-1>APRS:!6029.50N/02505.43E>'', ps_sequence = 0\<rparr>;
          state = push_packet snap (state_new ''TEST'' [])
      in packet_sequence state = 1 \<and> length (recent_packets state) = 1
         \<and> at_index (recent_packets state) 0 (\<lambda>p. ps_sequence p = 1))"

definition ring_snapshot :: "nat \<Rightarrow> packet_snapshot" where
  "ring_snapshot i = \<lparr>ps_timestamp = i, ps_source_call = ''SRC'' @ show_nat i, ps_dest_call = ''DST'', ps_interface = ''radio0'',
     ps_payload = ''data'', ps_raw = ''SRC'' @ show_nat i @ ''>DST:data'', ps_sequence = 0\<rparr>"

definition test_push_packet_ring_buffer :: bool where
  "test_push_packet_ring_buffer \<longleftrightarrow>
     (let state = fold (\<lambda>i. push_packet (ring_snapshot i)) [0..<250] (state_new ''TEST'' [])
      in length (recent_packets state) = MAX_RECENT_PACKETS \<and> packet_sequence state = 250
         \<and> at_index (recent_packets state) 0 (\<lambda>p. ps_sequence p = 51))"

definition test_record_station :: bool where
  "test_record_station \<longleftrightarrow>
     (let state = record_station 0 ''OH2MQK-1'' ''radio0'' (Some (hundredths 6049 2509)) (state_new ''TEST'' [])
      in length (stations state) = 1
         \<and> station_of state ''OH2MQK-1'' (\<lambda>entry. se_heard_count entry = 1 \<and> se_position entry = Some (hundredths 6049 2509)))"

definition test_record_station_updates :: bool where
  "test_record_station_updates \<longleftrightarrow>
     (let state = record_station 0 ''oh2mqk-1'' ''radio1'' None
            (record_station 0 ''OH2MQK-1'' ''radio0'' (Some (hundredths 6049 2509))
              (record_station 0 ''OH2MQK-1'' ''radio0'' None (state_new ''TEST'' [])))
      in length (stations state) = 1
         \<and> station_of state ''OH2MQK-1'' (\<lambda>entry. se_heard_count entry = 3 \<and> se_interface entry = ''radio1''
              \<and> se_position entry = Some (hundredths 6049 2509)))"

definition test_to_json_produces_valid_json :: bool where
  "test_to_json_produces_valid_json \<longleftrightarrow>
     (let parsed = parsed_json ((state_new ''OH2MQK-1'' [iface ''radio0'' ''/dev/ttyUSB0 @ 9600''])
            \<lparr>db_aprsis_connected := True, db_aprsis_server := ''rotate.aprs2.net:14580''\<rparr>)
      in dj_mycall parsed = ''OH2MQK-1'' \<and> dj_version parsed = ''0.1.24'' \<and> dj_aprsis_connected parsed
         \<and> dj_aprsis_server parsed = ''rotate.aprs2.net:14580'')"

definition test_record_igate_gated :: bool where
  "test_record_igate_gated \<longleftrightarrow>
     (let stats = db_igate_stats (record_igate_result ''OH2MQK'' (Gated ''TEST>APRS,qAR,TEST:data'') (state_new ''TEST'' []))
      in rx_from_rf stats = 1 \<and> gated_to_aprsis stats = 1 \<and> unique_stations_gated stats = 1 \<and> dropped_total stats = 0)"

definition test_record_igate_drops :: bool where
  "test_record_igate_drops \<longleftrightarrow>
     (let state = fold (\<lambda>(source, result). record_igate_result source result)
            [(''A'', DroppedQuery), (''B'', DroppedForbiddenSource), (''C'', DroppedForbiddenDest),
             (''D'', DroppedForbiddenVia), (''E'', DroppedDepthExceeded)] (state_new ''TEST'' []);
          stats = db_igate_stats state
      in rx_from_rf stats = 5 \<and> gated_to_aprsis stats = 0 \<and> dropped_total stats = 5 \<and> dropped_query stats = 1
         \<and> dropped_forbidden_source stats = 1 \<and> dropped_forbidden_dest stats = 1 \<and> dropped_forbidden_via stats = 1
         \<and> dropped_depth_exceeded stats = 1)"

definition test_record_igate_unique_stations :: bool where
  "test_record_igate_unique_stations \<longleftrightarrow>
     (let state = fold (\<lambda>source. record_igate_result source (Gated ''line'')) [''OH2MQK'', ''oh2mqk'', ''KB1ABC'']
            (state_new ''TEST'' [])
      in gated_to_aprsis (db_igate_stats state) = 3 \<and> unique_stations_gated (db_igate_stats state) = 2)"

definition test_igate_stats_in_json :: bool where
  "test_igate_stats_in_json \<longleftrightarrow>
     (let ig = dj_igate_stats (parsed_json (record_igate_result ''X'' DroppedQuery
            (record_igate_result ''OH2MQK'' (Gated ''line'') (state_new ''TEST'' []))))
      in rx_from_rf ig = 2 \<and> gated_to_aprsis ig = 1 \<and> dropped_total ig = 1 \<and> dropped_query ig = 1
         \<and> unique_stations_gated ig = 1)"

definition test_to_json_with_packets_and_stations :: bool where
  "test_to_json_with_packets_and_stations \<longleftrightarrow>
     (let snap = \<lparr>ps_timestamp = 1000, ps_source_call = ''OH2MQK-1'', ps_dest_call = ''APRS'', ps_interface = ''radio0'',
            ps_payload = ''test'', ps_raw = ''OH2MQK-1>APRS:test'', ps_sequence = 0\<rparr>;
          parsed = parsed_json (record_station 0 ''OH2MQK-1'' ''radio0'' (Some (hundredths 6049 2509))
            (push_packet snap (state_new ''TEST'' [])))
      in dj_packet_sequence parsed = 1 \<and> dj_stations_heard parsed = 1 \<and> length (dj_recent_packets parsed) = 1
         \<and> length (dj_stations parsed) = 1)"

lemma dashboard_state_tests_pass:
  "test_dashboard_state_new" "test_push_packet_increments_sequence" "test_record_station" "test_record_station_updates"
  "test_to_json_produces_valid_json" "test_to_json_with_packets_and_stations"
  by code_simp+

lemma dashboard_igate_tests_pass:
  "test_record_igate_gated" "test_record_igate_drops" "test_record_igate_unique_stations" "test_igate_stats_in_json"
  by code_simp+

text \<open>The two hundred most recent packets have consecutive numbers.\<close>

lemma fst_nth_numbered: "i < length ys \<Longrightarrow> fst (numbered n ys ! i) = Suc (n + i)"
  by (induction ys arbitrary: n i) (auto simp: nth_Cons split: nat.splits)

lemma fold_push_map: "fold (\<lambda>i. push_packet (f i)) is s = fold push_packet (map f is) s"
  by (simp add: fold_map comp_def)

lemma ring_buffer_test_passes: "test_push_packet_ring_buffer"
proof -
  let ?xs = "map ring_snapshot [0..<250]" and ?init = "state_new ''TEST'' []"
  let ?s = "fold push_packet ?xs ?init" and ?ns = "numbered 0 (map unnumbered (map ring_snapshot [0..<250]))"
  have empty: "packet_sequence ?init = 0" "recent_log ?init = []" by (simp_all add: dashboard_new_def recent_log_def)
  have all: "packet_sequence ?s = 250" "recent_log ?s = drop 50 ?ns"
    using dashboard_log.push_all [OF log_ok_new, of ?xs "''TEST''" "[]" 0] empty
    by (simp_all add: last_n_def MAX_RECENT_PACKETS_def del: upt_conv_Cons)
  have len: "length (recent_packets ?s) = 200"
    using arg_cong [OF all(2), of length] by (simp add: recent_log_def)
  have "ps_sequence (recent_packets ?s ! 0) = fst (recent_log ?s ! 0)"
    using len by (simp add: recent_log_def)
  also have "\<dots> = fst (?ns ! 50)" unfolding all(2) by simp
  also have "\<dots> = 51" by (subst fst_nth_numbered) simp_all
  finally show ?thesis
    using len all(1) unfolding test_push_packet_ring_buffer_def fold_push_map [of ring_snapshot]
    by (simp add: at_index_def nth_opt_def some_of_def MAX_RECENT_PACKETS_def Let_def del: length_greater_0_conv)
qed

section \<open>src/web/server.rs\<close>

definition test_parse_request_line_get :: bool where
  "test_parse_request_line_get \<longleftrightarrow>
     some_of (parse_request_line ''GET / HTTP/1.1'') (\<lambda>req. hr_method req = ''GET'' \<and> hr_path req = ''/'')"
definition test_parse_request_line_with_path :: bool where
  "test_parse_request_line_with_path \<longleftrightarrow>
     some_of (parse_request_line ''GET /api/state HTTP/1.1'') (\<lambda>req. hr_method req = ''GET'' \<and> hr_path req = ''/api/state'')"
definition test_parse_request_line_post :: bool where
  "test_parse_request_line_post \<longleftrightarrow>
     some_of (parse_request_line ''POST /api/data HTTP/1.1'') (\<lambda>req. hr_method req = ''POST'' \<and> hr_path req = ''/api/data'')"
definition test_parse_request_line_empty :: bool where
  "test_parse_request_line_empty \<longleftrightarrow> \<not> is_some (parse_request_line '''')"
definition test_parse_request_line_missing_path :: bool where
  "test_parse_request_line_missing_path \<longleftrightarrow> \<not> is_some (parse_request_line ''GET'')"

abbreviation newline :: string where
  "newline \<equiv> [CHR 0x0A]"

definition test_format_sse_event_simple :: bool where
  "test_format_sse_event_simple \<longleftrightarrow>
     (let json = ''{'' @ [CHR 0x22] @ ''mycall'' @ [CHR 0x22] @ '':'' @ [CHR 0x22] @ ''TEST'' @ [CHR 0x22] @ ''}''
      in format_sse_event ''state'' json = ''event: state'' @ newline @ ''data: '' @ json @ newline @ newline)"

definition test_format_sse_event_multiline_data :: bool where
  "test_format_sse_event_multiline_data \<longleftrightarrow>
     format_sse_event ''state'' (''line1'' @ newline @ ''line2'' @ newline @ ''line3'')
       = ''event: state'' @ newline @ ''data: line1'' @ newline @ ''data: line2'' @ newline @ ''data: line3'' @ newline @ newline"

definition test_format_sse_event_empty_data :: bool where
  "test_format_sse_event_empty_data \<longleftrightarrow>
     format_sse_event ''ping'' '''' = ''event: ping'' @ newline @ ''data: '' @ newline @ newline"

lemma request_line_tests_pass:
  "test_parse_request_line_get" "test_parse_request_line_with_path" "test_parse_request_line_post"
  "test_parse_request_line_empty" "test_parse_request_line_missing_path"
  "test_format_sse_event_simple" "test_format_sse_event_multiline_data" "test_format_sse_event_empty_data"
  by code_simp+

text \<open>The bytes a client gets. No read of the tests is slow; the state of each is new and its call sign is \<open>TEST-1\<close>.\<close>

fun sent_response :: "answer \<Rightarrow> string" where
  "sent_response (Response status content_type body) = write_response status content_type body"
| "sent_response _ = []"

definition served ::
  "static_pages \<Rightarrow> (dashboard_json \<Rightarrow> string option) \<Rightarrow> interface_info list \<Rightarrow> string list \<Rightarrow> string" where
  "served pages serialize interfaces request =
     sent_response (handle_connection pages (to_json serialize ''0.1.24'' 0 0 (state_new ''TEST-1'' interfaces)) (\<lambda>_. False) request)"

abbreviation radio0 :: "interface_info list" where
  "radio0 \<equiv> [iface ''radio0'' ''/dev/ttyUSB0 @ 9600'']"

definition test_server_serves_static_assets :: "static_pages \<Rightarrow> (dashboard_json \<Rightarrow> string option) \<Rightarrow> bool" where
  "test_server_serves_static_assets pages serialize \<longleftrightarrow>
     (let response = served pages serialize radio0 [''GET / HTTP/1.1'' @ CRLF @ ''Host: localhost'' @ CRLF @ CRLF]
      in starts_with response ''HTTP/1.1 200 OK'' \<and> has_infix response ''text/html'' \<and> has_infix response ''vaprs'')"

definition test_server_serves_json :: "static_pages \<Rightarrow> (dashboard_json \<Rightarrow> string option) \<Rightarrow> bool" where
  "test_server_serves_json pages serialize \<longleftrightarrow>
     (let response = served pages serialize [] [''GET /api/state HTTP/1.1'' @ CRLF @ ''Host: localhost'' @ CRLF @ CRLF]
      in starts_with response ''HTTP/1.1 200 OK'' \<and> has_infix response ''application/json'' \<and> has_infix response ''TEST-1'')"

definition test_server_returns_404 :: "static_pages \<Rightarrow> (dashboard_json \<Rightarrow> string option) \<Rightarrow> bool" where
  "test_server_returns_404 pages serialize \<longleftrightarrow>
     (let response = served pages serialize [] [''GET /nonexistent HTTP/1.1'' @ CRLF @ ''Host: localhost'' @ CRLF @ CRLF]
      in starts_with response ''HTTP/1.1 404 Not Found'')"

definition test_server_rejects_post :: "static_pages \<Rightarrow> (dashboard_json \<Rightarrow> string option) \<Rightarrow> bool" where
  "test_server_rejects_post pages serialize \<longleftrightarrow>
     (let response = served pages serialize [] [''POST / HTTP/1.1'' @ CRLF @ ''Host: localhost'' @ CRLF @ CRLF]
      in starts_with response ''HTTP/1.1 405'')"

definition test_oversized_request_line_returns_400 :: "static_pages \<Rightarrow> (dashboard_json \<Rightarrow> string option) \<Rightarrow> bool" where
  "test_oversized_request_line_returns_400 pages serialize \<longleftrightarrow>
     (let huge_path = replicate 9000 CHR ''X'';
          request = ''GET /'' @ huge_path @ '' HTTP/1.1'' @ CRLF @ CRLF
      in starts_with (served pages serialize [] [request]) ''HTTP/1.1 400'')"

definition test_too_many_headers_returns_400 :: "static_pages \<Rightarrow> (dashboard_json \<Rightarrow> string option) \<Rightarrow> bool" where
  "test_too_many_headers_returns_400 pages serialize \<longleftrightarrow>
     (let headers = map (\<lambda>i. ''X-Header-'' @ show_nat i @ '': value'' @ CRLF) [0..<70]
      in starts_with (served pages serialize [] ((''GET / HTTP/1.1'' @ CRLF) # headers @ [CRLF])) ''HTTP/1.1 400'')"

definition test_bounded_read_normal_request_still_works :: "static_pages \<Rightarrow> (dashboard_json \<Rightarrow> string option) \<Rightarrow> bool" where
  "test_bounded_read_normal_request_still_works pages serialize \<longleftrightarrow>
     (let response = served pages serialize radio0
            [''GET /api/state HTTP/1.1'' @ CRLF @ ''Host: localhost'' @ CRLF @ ''Accept: */*'' @ CRLF @ CRLF]
      in starts_with response ''HTTP/1.1 200 OK'' \<and> has_infix response ''application/json'')"

lemma requests_answered:
  "handle_connection pages json (\<lambda>_. False) [''GET / HTTP/1.1'' @ CRLF @ ''Host: localhost'' @ CRLF @ CRLF]
    = Response 200 ''text/html; charset=utf-8'' (index_html pages)"
  "handle_connection pages json (\<lambda>_. False) [''GET /api/state HTTP/1.1'' @ CRLF @ ''Host: localhost'' @ CRLF @ CRLF]
    = Response 200 ''application/json'' json"
  "handle_connection pages json (\<lambda>_. False)
     [''GET /api/state HTTP/1.1'' @ CRLF @ ''Host: localhost'' @ CRLF @ ''Accept: */*'' @ CRLF @ CRLF]
    = Response 200 ''application/json'' json"
  "handle_connection pages json (\<lambda>_. False) [''GET /nonexistent HTTP/1.1'' @ CRLF @ ''Host: localhost'' @ CRLF @ CRLF]
    = Response 404 ''text/plain'' ''Not Found''"
  "handle_connection pages json (\<lambda>_. False) [''POST / HTTP/1.1'' @ CRLF @ ''Host: localhost'' @ CRLF @ CRLF]
    = Response 405 ''text/plain'' ''Method Not Allowed''"
  "handle_connection pages json (\<lambda>_. False)
     ((''GET / HTTP/1.1'' @ CRLF) # map (\<lambda>i. ''X-Header-'' @ show_nat i @ '': value'' @ CRLF) [0..<70] @ [CRLF])
    = bad_request"
  by code_simp+

text \<open>The line is refused before its end is looked at.\<close>

lemma huge_request_refused:
  "handle_connection pages json (\<lambda>_. False) [''GET /'' @ replicate 9000 CHR ''X'' @ '' HTTP/1.1'' @ CRLF @ CRLF] = bad_request"
proof -
  let ?t = "'' HTTP/1.1'' @ CRLF @ CRLF"
  have "str_find (\<lambda>c. c = CHR 0x0A) ?t = Some 10" by code_simp
  then have "str_find (\<lambda>c. c = CHR 0x0A) ((''GET /'' @ replicate 9000 CHR ''X'') @ ?t)
      = Some (length (''GET /'' @ replicate 9000 CHR ''X'') + 10)"
    by (subst str_find_skip) auto
  then have "read_line_bounded MAX_REQUEST_LINE_LEN [''GET /'' @ replicate 9000 CHR ''X'' @ ?t]
      = (ReadFailed, [''GET /'' @ replicate 9000 CHR ''X'' @ ?t])"
    by (simp only: read_line_bounded_def read_line_loop.simps append_assoc) (simp add: MAX_REQUEST_LINE_LEN_def)
  then show ?thesis by (simp only: handle_connection_def if_False prod.case read_result.case)
qed

lemma response_start:
  "write_response 200 ct body = ''HTTP/1.1 200 OK'' @ CRLF @ ''Content-Type: '' @ ct @ CRLF
     @ ''Content-Length: '' @ show_nat (length body) @ CRLF @ ''Connection: close'' @ CRLF @ CRLF @ body"
  "starts_with (write_response 400 ct body) ''HTTP/1.1 400''"
  "starts_with (write_response 404 ct body) ''HTTP/1.1 404 Not Found''"
  "starts_with (write_response 405 ct body) ''HTTP/1.1 405''"
proof -
  have "show_nat 200 = ''200''" "show_nat 400 = ''400''" "show_nat 404 = ''404''" "show_nat 405 = ''405''" by code_simp+
  then show "write_response 200 ct body = ''HTTP/1.1 200 OK'' @ CRLF @ ''Content-Type: '' @ ct @ CRLF
     @ ''Content-Length: '' @ show_nat (length body) @ CRLF @ ''Connection: close'' @ CRLF @ CRLF @ body"
    "starts_with (write_response 400 ct body) ''HTTP/1.1 400''"
    "starts_with (write_response 404 ct body) ''HTTP/1.1 404 Not Found''"
    "starts_with (write_response 405 ct body) ''HTTP/1.1 405''"
    by (simp_all add: write_response_def)
qed

lemma server_error_tests_pass:
  "test_server_returns_404 pages serialize" "test_server_rejects_post pages serialize"
  "test_too_many_headers_returns_400 pages serialize" "test_oversized_request_line_returns_400 pages serialize"
  by (simp_all only: test_server_returns_404_def test_server_rejects_post_def test_too_many_headers_returns_400_def
      test_oversized_request_line_returns_400_def served_def Let_def requests_answered huge_request_refused
      sent_response.simps bad_request_def response_start)

lemma has_infix_append: "has_infix t p \<Longrightarrow> has_infix (s @ t) p" "has_infix s p \<Longrightarrow> has_infix (s @ t) p"
  unfolding has_infix_iff by (metis append.assoc)+

lemma infix_of_ok:
  "has_infix ct p \<Longrightarrow> has_infix (write_response 200 ct body) p"
  "has_infix body p \<Longrightarrow> has_infix (write_response 200 ct body) p"
  unfolding response_start by (blast intro: has_infix_append)+

lemma server_page_tests_pass:
  assumes "has_infix (index_html pages) ''vaprs''"
    and "\<And>r. \<exists>t. serialize r = Some t \<and> has_infix t (dj_mycall r)"
  shows "test_server_serves_static_assets pages serialize" "test_server_serves_json pages serialize"
    "test_bounded_read_normal_request_still_works pages serialize"
proof -
  have ct: "has_infix ''text/html; charset=utf-8'' ''text/html''" "has_infix ''application/json'' ''application/json''"
    by code_simp+
  have json: "has_infix (to_json serialize ''0.1.24'' 0 0 (state_new ''TEST-1'' interfaces)) ''TEST-1''" for interfaces
    using assms(2) [of "dashboard_report ''0.1.24'' 0 0 (state_new ''TEST-1'' interfaces)"]
    by (auto simp: to_json_def unwrap_or_def dashboard_report_def dashboard_new_def split: prod.splits)
  have ok: "starts_with (write_response 200 ct body) ''HTTP/1.1 200 OK''" for ct body
    unfolding response_start by (rule starts_with_append)
  show "test_server_serves_static_assets pages serialize" "test_server_serves_json pages serialize"
    "test_bounded_read_normal_request_still_works pages serialize"
    unfolding test_server_serves_static_assets_def test_server_serves_json_def
      test_bounded_read_normal_request_still_works_def served_def Let_def requests_answered sent_response.simps
    using ok infix_of_ok ct json assms(1) by blast+
qed

end
