(* ===== verification/Spec2Isabelle.thy ===== *)
theory Spec2Isabelle
  imports Ax25 Crc Kiss Packet Dedupe Viscous Digipeater Digi_Filter History Igate
    Decimal Parse_Aprs Config Logging Telemetry Erlang Router Aprsis Beacon Interface_Registry Serial_Kiss
    Tcp_Kiss Agwpe_Frames Web_State Web_Server Sse_Stream Main_System Shutdown
    Daemon Daemon_Invariants Daemon_Properties Daemon_Refinement Daemon_Liveness
    Tests_Frames Tests_Text Tests_Formats Tests_Digipeater Tests_Gate Tests_Beacon Tests_Links Tests_Interfaces Tests_Dashboard
begin

text \<open>
  A model of vaprs, an APRS iGate and digipeater written in Rust, and the theorems that make it correct.

  \<^bold>\<open>The program.\<close> Radio interfaces (a serial port or a TCP connection to a TNC) carry KISS frames. The decoder cuts
  the bytes into frames (\<open>src/kiss.rs\<close>), each of which is an AX.25 frame that is turned into a line of TNC2
  text (\<open>src/ax25.rs\<close>) and becomes a packet (\<open>src/packet.rs\<close>). The router (\<open>src/router.rs\<close>) hands every packet to its
  consumers: the Rx-iGate, which decides what goes to the Internet (\<open>src/igate.rs\<close>) and queues it for the client of
  the APRS-IS servers (\<open>src/aprsis.rs\<close>), and the dashboard (\<open>src/web\<close>). Beacons (\<open>src/beacon.rs\<close>) are queued for
  the same client. The digipeater with its duplicate detector, viscous queue, filters and rate limiter
  (\<open>src/digipeater\<close>), the heard-station database (\<open>src/history.rs\<close>), telemetry (\<open>src/telemetry.rs\<close>), D-PRS
  (\<open>src/dprsgw.rs\<close>) and AGWPE frames (\<open>src/interface/agwpe.rs\<close>) are parts of the crate that \<open>src/main.rs\<close> does not start.

  \<^bold>\<open>Theories.\<close> One for each part, in the order of the calls:

  \<^item> \<^verbatim>\<open>Vaprs_Prelude\<close>: Rust's strings as UTF-8 bytes with slices that panic, integers at their width, time, hash
    maps; the collections \<^verbatim>\<open>rust_str\<close>, \<^verbatim>\<open>rust_num\<close>, \<^verbatim>\<open>total_intros\<close>, \<^verbatim>\<open>clean_intros\<close>; the interfaces \<^verbatim>\<open>line_sanitizer\<close> and
    \<^verbatim>\<open>swept_store\<close>. \<^verbatim>\<open>Decimal\<close>: floating-point numbers as text. \<^verbatim>\<open>Vaprs_Error\<close>: \<open>src/error.rs\<close>.
  \<^item> \<^verbatim>\<open>Crc\<close>, \<^verbatim>\<open>Kiss\<close>, \<^verbatim>\<open>Ax25\<close>, \<^verbatim>\<open>Packet\<close>: from bytes to packets.
  \<^item> \<^verbatim>\<open>Interface_Registry\<close> (\<open>src/interface/mod.rs\<close>, \<open>ax25_kernel.rs\<close>), \<^verbatim>\<open>Serial_Kiss\<close> (\<open>serial.rs\<close>), \<^verbatim>\<open>Tcp_Kiss\<close>
    (\<open>tcp.rs\<close>), \<^verbatim>\<open>Agwpe_Frames\<close> (\<open>agwpe.rs\<close>): the interfaces.
  \<^item> \<^verbatim>\<open>Router\<close>, \<^verbatim>\<open>Igate\<close>, \<^verbatim>\<open>Aprsis\<close>, \<^verbatim>\<open>Beacon\<close>: between radio and Internet.
  \<^item> \<^verbatim>\<open>Dedupe\<close>, \<^verbatim>\<open>Viscous\<close>, \<^verbatim>\<open>Digi_Filter\<close>, \<^verbatim>\<open>Digipeater\<close>, \<^verbatim>\<open>History\<close>: what a digipeater does with a packet.
  \<^item> \<^verbatim>\<open>Parse_Aprs\<close>, \<^verbatim>\<open>Config\<close> (with \<open>dprsgw.rs\<close>), \<^verbatim>\<open>Logging\<close>, \<^verbatim>\<open>Telemetry\<close>, \<^verbatim>\<open>Erlang\<close>: payloads, configuration, logs and statistics.
  \<^item> \<^verbatim>\<open>Web_State\<close>, \<^verbatim>\<open>Web_Server\<close>, \<^verbatim>\<open>Sse_Stream\<close>: the dashboard. \<^verbatim>\<open>Main_System\<close>, \<^verbatim>\<open>Shutdown\<close>: \<open>src/main.rs\<close>, its tasks
    one by one and how they end.
  \<^item> \<^verbatim>\<open>Daemon\<close>, \<^verbatim>\<open>Daemon_Invariants\<close>, \<^verbatim>\<open>Daemon_Properties\<close>, \<^verbatim>\<open>Daemon_Refinement\<close>, \<^verbatim>\<open>Daemon_Liveness\<close>: all tasks of \<open>src/main.rs\<close> running together.

  \<^item> \<^verbatim>\<open>Tests_Base\<close> and the \<^verbatim>\<open>Tests_\<close> theories: the unit tests of the repository, translated and passed (below).

  A definition has the name of the function or type it models, with a prefix or suffix where several files use
  one name or HOL has it; structs are records, enums are datatypes, methods are functions of their receiver.

  \<^bold>\<open>Conventions.\<close> A string is the list of its UTF-8 bytes. \<^typ>\<open>'a may_panic\<close> is an option whose \<^const>\<open>None\<close>
  is a panic; an \<open>Option\<close> or \<open>Result\<close> of the source is an option or a sum below that. Integers whose wrap-around matters
  are words. Instants and durations are natural numbers of nanoseconds, and functions that read the clock take the
  instant as an argument. A hash map is an association list with distinct keys, so what depends on its order is not
  determined by the keys alone. Asynchronous tasks are state machines: an event says how the awaited call or \<open>select!\<close>
  ended, a step is what the code does until it waits again.

  \<^bold>\<open>The daemon.\<close> \<^verbatim>\<open>Daemon\<close> puts the tasks together: a state has every interface, the channels, the router, the iGate task,
  the client, the beacon timer and the statistics, and a step is any one of them going on. A blocking send is a state of its own,
  so a task that waits for room keeps what it holds while the others go on. The
  invariants of the reachable states are in \<^verbatim>\<open>Daemon_Invariants\<close>.

  \<^bold>\<open>What is shown.\<close> The theorem at the end of this file follows messages all the way: stations send UI frames, the
  interface reads them as KISS in any chunks, and the lines on the connection to the server are exactly those of the messages that
  may be gated. For the daemon as a whole: whatever the order of the steps, nothing is on the wire but the login, lines gated from packets that
  interfaces decoded (none more often than it was heard, none that came from the server) and configured beacons; every packet is at one place
  or counted as lost; only text that is not ASCII can end the process; nothing is ever transmitted; the daemon
  refines a gateway with a bag of packets and a list of lines; and where nothing is in the way a packet that may be gated gets to the wire. The theories show:

  \<^item> Frames: the tables of the checksums are the polynomials' and one changed byte is always detected; messages in KISS survive
    any chunking and the decoder resynchronises after garbage; well-formed AX.25 frames have the expected text,
    and every accepted frame has text of the right shape.
  \<^item> Interfaces: what a loop delivers depends on the bytes alone; it writes the frames it was told to in order and
    nothing where transmitting is not allowed; two linked interfaces lose nothing; delays between connections double up to a minute.
  \<^item> iGate: what is gated is one line with the right marks from a packet that may be gated, third-party frames to three
    levels; what goes to RF is a message for a station heard there; the line the client writes is the line that was gated.
  \<^item> APRS-IS client: one line per message on the wire, in order, nothing lost unless a write fails.
  \<^item> Digipeater: a relayed packet is the same packet with one hop used up, floods end, the rate limiter keeps its rate in
    every window; the duplicate detector refines one that never forgets; a packet heard elsewhere never leaves the viscous
    queue; filters do not depend on their order.
  \<^item> Time and numbers: beacons keep their spacing, the wait for a command ends, log dates are the Gregorian calendar, statistics windows
    are the sums of the last minutes, configured positions are printed so that the parser reads them back.
  \<^item> Dashboard: counters balance, the answer to a request does not depend on the chunks, at most five event streams run, and each
    sends every packet once.
  \<^item> Errors: ASCII input makes no part panic; but there are radio frames that end the daemon. A shutdown waits in vain for the
    APRS-IS client.

  \<^bold>\<open>The tests of the repository.\<close> The unit tests in the source files and those under \<open>tests\<close> are translated too: a definition
  \<open>test_f\<close> is the conjunction of the assertions of the test \<open>f\<close> (a suffix tells tests of one name in two files apart), and lemmas named
  \<open>..._tests_pass\<close> evaluate them in the kernel, or prove them where an input is large or a parameter is general. They bind the
  definitions to what the developers expect of the code on more than five hundred inputs. A test with a mock server, a mock line or a timer
  is a run of the task's step function: its events are what the other side of the test does, in the order of the test. A test that
  draws random numbers or reads the clock has these as arguments and passes for all of them. Not translated are tests of what the compiler
  derives (\<open>Debug\<close>, \<open>Clone\<close>, equality), of the parsing of TOML text, of file logging, and of sharing a packet by reference count.
  \<^verbatim>\<open>Tests_Frames\<close> has the codecs, \<^verbatim>\<open>Tests_Text\<close> the payload parser, \<^verbatim>\<open>Tests_Formats\<close> D-PRS, locations, logs and telemetry,
  \<^verbatim>\<open>Tests_Digipeater\<close> the digipeater, \<^verbatim>\<open>Tests_Gate\<close> iGate, history, statistics, router and the integration tests, \<^verbatim>\<open>Tests_Beacon\<close>
  beacons, \<^verbatim>\<open>Tests_Links\<close> the client and the registry, \<^verbatim>\<open>Tests_Interfaces\<close> the serial and TCP interfaces, \<^verbatim>\<open>Tests_Dashboard\<close> the
  dashboard and its server.

  Locales state what one part relies on in another: \<^verbatim>\<open>stream_decoder\<close> and its extension \<^verbatim>\<open>resync_decoder\<close> (the loop on the decoder), \<^verbatim>\<open>reflected_crc\<close> (the
  checksums on their tables), \<^verbatim>\<open>line_sanitizer\<close> (gating and client), \<^verbatim>\<open>packet_key\<close> (duplicate detector and viscous queue),
  \<^verbatim>\<open>swept_store\<close> (stores whose cleanup must not show: detector and history), \<^verbatim>\<open>numbered_log\<close> (event streams on the
  dashboard), \<^verbatim>\<open>interface_task\<close> (the end of the program on the interfaces). Each is interpreted on the model's definitions.

  \<^bold>\<open>Bounds.\<close> No function has fuel: loops are structural or have a measure. The wait for a command is measured by the
  polls that fit in its timeout, the headers of a request by their limit, the drain of the viscous queue by what is left of it.

  \<^bold>\<open>Parameters.\<close> The channels of \<^verbatim>\<open>tokio\<close>, the crate \<^verbatim>\<open>regex\<close>, \<^verbatim>\<open>serde_json\<close>, the file system, the shell, the serial ports, the hash of the
  clock, what \<^verbatim>\<open>toml\<close> makes of a text and the static pages are arguments of the definitions that use them. That a channel is a queue
  is a named hypothesis, \<^verbatim>\<open>queue_laws\<close>, which a bounded list satisfies.

  \<^bold>\<open>Not modelled.\<close> The code that \<^verbatim>\<open>serde\<close> and \<^verbatim>\<open>clap\<close> derive for the configuration and the command line, the writing of
  log lines, opening sockets, the scheduling of tasks and signals: they are generated or belong to libraries and the operating
  system and hold no logic of their own. The daemon takes its steps in any order, so nothing is said of fairness between the tasks. Sharing (\<open>Arc\<close>, \<open>Mutex\<close>) has no counterpart: packets are never changed after they
  are made, and each operation under a lock is one step. A finite \<open>f64\<close> is the exact rational of its decimal text, so the
  rounding of binary arithmetic is left out; the statements about positions have margins far above it. Sequence
  numbers of the dashboard are natural numbers. Memory and the speed of the links have no bound.
\<close>

section \<open>From the air to the server\<close>

text \<open>A UI frame of an APRS station.\<close>

record radio_message =
  rm_dst :: ax25_addr
  rm_src :: ax25_addr
  rm_vias :: "ax25_addr list"
  rm_payload :: "u8 list"

definition radio_frame :: "radio_message \<Rightarrow> u8 list" where
  "radio_frame m = frame_bytes (rm_dst m) (rm_src m) (rm_vias m) 0x03 0xF0 (rm_payload m)"

definition radio_addrs :: "radio_message \<Rightarrow> string" where
  "radio_addrs m = addr_text False (rm_src m) @ ''>'' @ addr_text False (rm_dst m) @ vias_text (rm_vias m)"

text \<open>Well-formed, short enough for the decoder, and no third-party frame.\<close>

definition radio_ok :: "radio_message \<Rightarrow> bool" where
  "radio_ok m \<longleftrightarrow> valid_call (fst (rm_dst m)) \<and> valid_call (fst (rm_src m)) \<and> (\<forall>a\<in>set (rm_vias m). valid_call (fst a))
     \<and> length (rm_vias m) \<le> 8 \<and> end_marked (rm_src m # rm_vias m) \<and> length (radio_frame m) < MAX_FRAME_LEN
     \<and> \<not> starts_with (payload_text (rm_payload m)) ''}''"

text \<open>The rules of the iGate, and the line for the server.\<close>

definition may_gate :: "radio_message \<Rightarrow> bool" where
  "may_gate m \<longleftrightarrow> \<not> starts_with (payload_text (rm_payload m)) ''?''
     \<and> \<not> is_forbidden_source (addr_text False (rm_src m)) \<and> \<not> is_forbidden_destination (addr_text False (rm_dst m))
     \<and> (\<forall>a\<in>set (rm_vias m). \<not> is_forbidden_via (addr_text True a))"

definition server_line :: "string \<Rightarrow> radio_message \<Rightarrow> string" where
  "server_line gate_call m = radio_addrs m @ '',qAR,'' @ gate_call @ '':'' @ payload_text (rm_payload m)"

definition radio_packet_of :: "interface_metadata \<Rightarrow> radio_message \<Rightarrow> packet" where
  "radio_packet_of md m = \<lparr>tnc2 = radio_addrs m @ '':'' @ payload_text (rm_payload m), tnc2_addr_len = length (radio_addrs m),
     ax25 = Some (radio_frame m), ax25_addr_len = 14 + 7 * length (rm_vias m), source_interface = md_callsign md,
     is_aprs = True, ui_pid = 240, received_at = 0, igate_group = md_igate_group md\<rparr>"

lemma radio_process:
  "radio_ok m \<Longrightarrow> process_kiss_frame 0 \<lparr>cmd_byte = 0, frame_data = radio_frame m\<rparr> (md_callsign md) (md_igate_group md)
     = Some (radio_packet_of md m)"
  using ax25_to_tnc2_frame [of "rm_dst m" "rm_src m" "rm_vias m" "0xF0" "rm_payload m"]
  by (simp add: radio_ok_def process_kiss_frame_def cmd_def radio_frame_def radio_packet_of_def radio_addrs_def)

lemma radio_packets:
  "\<forall>m\<in>set ms. radio_ok m \<Longrightarrow>
     packets_of md (map (\<lambda>d. \<lparr>cmd_byte = 0, frame_data = d\<rparr>) (map radio_frame ms)) = map (radio_packet_of md) ms"
  by (induction ms) (simp_all add: radio_process)

lemma radio_slices:
  assumes "untimed p = radio_packet_of md m"
  shows "addresses p = Some (radio_addrs m)" "payload p = Some (payload_text (rm_payload m))" "source_interface p = md_callsign md"
proof -
  have p: "tnc2 p = radio_addrs m @ CHR '':'' # payload_text (rm_payload m)" "tnc2_addr_len p = length (radio_addrs m)"
    and "source_interface p = md_callsign md"
    using arg_cong [OF assms, of tnc2] arg_cong [OF assms, of tnc2_addr_len] arg_cong [OF assms, of source_interface]
    by (simp_all add: untimed_def radio_packet_of_def)
  then show "addresses p = Some (radio_addrs m)" "payload p = Some (payload_text (rm_payload m))"
      "source_interface p = md_callsign md"
    using slices_at_colon [OF p payload_text_hd] by simp_all
qed

lemma radio_addrs_parts:
  assumes "radio_ok m"
  shows "extract_via_callsigns (radio_addrs m) = map (addr_text True) (rm_vias m)"
    and "line_free (radio_addrs m)"
    and "tnc2 p = radio_addrs m @ CHR '':'' # q \<Longrightarrow>
      source_call p = addr_text False (rm_src m) \<and> dest_call p = addr_text False (rm_dst m)"
proof -
  have vias: "\<forall>a\<in>set (rm_vias m). valid_call (fst a)" using assms by (simp add: radio_ok_def)
  let ?s = "addr_text False (rm_src m)" and ?d = "addr_text False (rm_dst m)" and ?v = "vias_text (rm_vias m)"
  have s: "CHR ''>'' \<notin> set ?s" "line_free ?s"
    using assms addr_text_plain [of "rm_src m" False] by (simp_all add: radio_ok_def)
  have d: "CHR ''>'' \<notin> set ?d" "CHR '','' \<notin> set ?d" "CHR '':'' \<notin> set ?d" "line_free ?d"
    using assms addr_text_plain [of "rm_dst m" False] by (simp_all add: radio_ok_def)
  note v = vias_text_plain [OF vias]
  have "str_split (\<lambda>c. c = CHR ''>'') (radio_addrs m) = [?s, ?d @ ?v]"
    using s d v by (simp add: radio_addrs_def split_char)
  then show "extract_via_callsigns (radio_addrs m) = map (addr_text True) (rm_vias m)"
    by (simp add: extract_via_callsigns_def nth_opt_def vias_split [OF vias d(2)])
  show "line_free (radio_addrs m)" using s d v by (simp add: radio_addrs_def line_free_def)
  have "?v @ CHR '':'' # q = [] \<or> hd (?v @ CHR '':'' # q) \<in> {CHR '','', CHR '':''}"
    by (cases "rm_vias m") (simp_all add: vias_text_def)
  from source_dest_of [OF s(1) d(1-3) this]
  show "source_call p = ?s \<and> dest_call p = ?d" if "tnc2 p = radio_addrs m @ CHR '':'' # q"
    using that by (simp add: radio_addrs_def)
qed

lemma radio_gateable:
  assumes "radio_ok m" "untimed p = radio_packet_of md m"
  shows "gateable p (radio_addrs m) (payload_text (rm_payload m)) \<longleftrightarrow> may_gate m"
proof -
  have "tnc2 p = radio_addrs m @ CHR '':'' # payload_text (rm_payload m)"
    using arg_cong [OF assms(2), of tnc2] by (simp add: untimed_def radio_packet_of_def)
  then show ?thesis
    using radio_addrs_parts(1) [OF assms(1)] radio_addrs_parts(3) [OF assms(1)] radio_slices [OF assms(2)] assms(1)
    by (simp add: gateable_def may_gate_def radio_ok_def)
qed

lemma radio_step:
  assumes "radio_ok m" "untimed p = radio_packet_of md m" "md_callsign md \<noteq> ''APRSIS''"
  shows "\<exists>t'. igate_step gate_call now True p t = Some t' \<and> ig_running t' = ig_running t
    \<and> ig_sent t' = ig_sent t @ (if may_gate m then [server_line gate_call m] else [])"
proof -
  have "source_interface p \<noteq> ''APRSIS''" using radio_slices(3) [OF assms(2)] assms(3) by simp
  moreover have "\<not> starts_with (payload_text (rm_payload m)) ''}''" using assms(1) by (simp add: radio_ok_def)
  moreover have "sanitize_line (radio_addrs m) = radio_addrs m"
    "sanitize_line (payload_text (rm_payload m)) = payload_text (rm_payload m)"
    using sanitize_line_id radio_addrs_parts(2) [OF assms(1)] payload_text_line_free by blast+
  ultimately show ?thesis
    using igate_step_direct [OF _ radio_slices(1,2) [OF assms(2)], of gate_call now t]
    by (simp only: server_line_def radio_gateable [OF assms(1,2)] not_False_eq_True simp_thms)
qed

lemma radio_run:
  assumes "\<forall>m\<in>set ms. radio_ok m" "md_callsign md \<noteq> ''APRSIS''" "ig_running t"
    and "map (\<lambda>(now, accepted, p). (accepted, untimed p)) ps = map (\<lambda>m. (True, radio_packet_of md m)) ms"
  shows "\<exists>t'. igate_run gate_call ps t = Some t' \<and> ig_running t'
    \<and> ig_sent t' = ig_sent t @ map (server_line gate_call) (filter may_gate ms)"
  using assms(1,3,4)
proof (induction ps arbitrary: ms t)
  case (Cons x ps)
  obtain now a p where x: "x = (now, a, p)" by (cases x)
  obtain m ms' where ms: "ms = m # ms'" "a" "untimed p = radio_packet_of md m"
    using Cons.prems(3) by (cases ms) (auto simp: x)
  obtain t1 where t1: "igate_step gate_call now True p t = Some t1" "ig_running t1"
      "ig_sent t1 = ig_sent t @ (if may_gate m then [server_line gate_call m] else [])"
    using radio_step [OF _ ms(3) assms(2), of gate_call now t] Cons.prems(1,2) ms(1) by auto
  have "\<forall>m\<in>set ms'. radio_ok m"
    and "map (\<lambda>(now, accepted, p). (accepted, untimed p)) ps = map (\<lambda>m. (True, radio_packet_of md m)) ms'"
    using Cons.prems(1,3) by (simp_all add: x ms(1))
  from Cons.IH [OF this(1) t1(2) this(2)] show ?case
    using t1 Cons.prems(2) ms(2) by (auto simp: x ms(1))
qed simp

text \<open>C2: APRS stations send UI frames, a TNC hands them over as KISS, and the interface reads the bytes in any chunks, with any
  commands and timers in between; the iGate task gets the packets the loop delivered. Then the lines it hands to the client of the server
  are, in order, exactly those of the messages its rules allow, each its addresses, the qAR construct and its payload.\<close>

theorem radio_to_server:
  assumes messages: "\<forall>m\<in>set ms. radio_ok m"
    and loop: "kiss_loop_run md proto w es (kiss_loop_start t0) = Some s" "kl_exit s \<noteq> Some PacketChannelClosed"
    and bytes: "bytes_read es = concat (map (\<lambda>m. kiss_encode (radio_frame m) 0 Plain) ms)"
    and packets: "map (\<lambda>(now, accepted, p). (accepted, p)) ps = map (Pair True) (kl_packets s)"
    and "md_callsign md \<noteq> ''APRSIS''" and "line_free gate_call"
  shows "\<exists>t. igate_run gate_call ps \<lparr>ig_monitor = m, ig_dashboard = d, ig_sent = [], ig_running = True\<rparr> = Some t
    \<and> ig_sent t = map (server_line gate_call) (filter may_gate ms)
    \<and> concat (map framed (ig_sent t)) = concat (map (\<lambda>m. server_line gate_call m @ CRLF) (filter may_gate ms))"
proof -
  let ?t = "\<lparr>ig_monitor = m, ig_dashboard = d, ig_sent = [], ig_running = True\<rparr>"
  have "bytes_read es = concat (map (\<lambda>d. kiss_encode d 0 Plain) (map radio_frame ms))" by (simp add: bytes comp_def)
  moreover have "\<forall>d\<in>set (map radio_frame ms). length d < MAX_FRAME_LEN" using messages by (simp add: radio_ok_def)
  ultimately have "map untimed (kl_packets s)
      = packets_of md (map (\<lambda>d. \<lparr>cmd_byte = 0, frame_data = d\<rparr>) (map radio_frame ms))"
    by (rule kiss_loop_plain_frames [OF loop])
  then have delivered: "map untimed (kl_packets s) = map (radio_packet_of md) ms"
    by (simp only: radio_packets [OF messages])
  have "map (\<lambda>(now, accepted, p). (accepted, untimed p)) ps
      = map (apsnd untimed) (map (\<lambda>(now, accepted, p). (accepted, p)) ps)" by (auto simp: comp_def)
  also have "\<dots> = map (Pair True) (map untimed (kl_packets s))" unfolding packets by (simp add: comp_def)
  finally have "map (\<lambda>(now, accepted, p). (accepted, untimed p)) ps = map (\<lambda>m. (True, radio_packet_of md m)) ms"
    by (simp add: delivered comp_def)
  from radio_run [OF messages assms(6) _ this, of ?t gate_call] obtain t where
    t: "igate_run gate_call ps ?t = Some t" "ig_sent t = map (server_line gate_call) (filter may_gate ms)" by auto
  have "framed (server_line gate_call m) = server_line gate_call m @ CRLF" if "m \<in> set ms" for m
  proof -
    have "line_free (server_line gate_call m)"
      using gated_line_free [OF assms(7), of "radio_addrs m" "payload_text (rm_payload m)"] messages that
      by (simp add: server_line_def sanitize_line_id radio_addrs_parts(2) payload_text_line_free)
    then show ?thesis by (simp add: framed_eq aprsis_san.san_id)
  qed
  then have "map framed (ig_sent t) = map (\<lambda>m. server_line gate_call m @ CRLF) (filter may_gate ms)"
    by (simp add: t(2) comp_def)
  then have "concat (map framed (ig_sent t)) = concat (map (\<lambda>m. server_line gate_call m @ CRLF) (filter may_gate ms))"
    by (rule arg_cong)
  then show ?thesis by (intro exI [of _ t] conjI t)
qed

definition demo_message :: radio_message where
  "demo_message = \<lparr>rm_dst = (''APRS'', 0x60), rm_src = (''W1AW'', 0x61), rm_vias = [], rm_payload = [0x21]\<rparr>"

lemma demo_message_frame: "radio_frame demo_message = demo_frame"
  by (simp add: radio_frame_def demo_message_def frame_bytes_def addr_bytes_def demo_frame_def)

lemma demo_message_text:
  "addr_text False (''W1AW'', 0x61) = ''W1AW''" "addr_text False (''APRS'', 0x60) = ''APRS''" "utf8_of_byte 0x21 = ''!''"
  by (simp_all add: addr_text_def call_text_def utf8_of_byte_def char_of_byte_def char_of_def bit_0 drop_bit_eq_div)

lemma demo_message_ok: "radio_ok demo_message" "may_gate demo_message"
proof -
  have "length (radio_frame demo_message) < MAX_FRAME_LEN"
    unfolding demo_message_frame by (simp add: demo_frame_bytes MAX_FRAME_LEN_def)
  then show "radio_ok demo_message"
    by (simp add: radio_ok_def demo_message_def valid_call_def is_valid_call_char_def is_ascii_uppercase_def
        is_ascii_digit_def end_marked_def end_bit_def demo_message_text starts_with_def)
  show "may_gate demo_message"
    by (simp add: may_gate_def demo_message_def demo_message_text starts_with_def is_forbidden_source_def
        FORBIDDEN_SOURCE_PREFIXES_def is_forbidden_destination_def FORBIDDEN_DEST_PREFIXES_def)
qed

theorem radio_to_server_witness:
  "\<exists>t. igate_run ''GATE'' [(5, True, demo_received)] demo_task = Some t \<and> ig_sent t = [''W1AW>APRS,qAR,GATE:!'']"
proof -
  obtain s where s: "kiss_loop_run demo_md ProtoKiss 100 demo_receive (kiss_loop_start 0) = Some s" "kl_exit s = None"
      "kl_packets s = [demo_received]"
    using demo_receive_run by blast
  have "bytes_read demo_receive = concat (map (\<lambda>m. kiss_encode (radio_frame m) 0 Plain) [demo_message])"
    by (simp add: demo_receive_def demo_message_frame)
  moreover have "map (\<lambda>(now, accepted, p). (accepted, p)) [(5 :: nat, True, demo_received)] = map (Pair True) (kl_packets s)"
    by (simp add: s(3))
  moreover have "md_callsign demo_md \<noteq> ''APRSIS''" by (simp add: demo_md_def)
  moreover have "line_free ''GATE''" by code_simp
  ultimately have "\<exists>t. igate_run ''GATE'' [(5, True, demo_received)] demo_task = Some t
      \<and> ig_sent t = map (server_line ''GATE'') (filter may_gate [demo_message])"
    using radio_to_server [of "[demo_message]" demo_md ProtoKiss 100 demo_receive 0 s "[(5, True, demo_received)]" "''GATE''" "[]" None]
      s demo_message_ok(1) by (auto simp: demo_task_def)
  moreover have "server_line ''GATE'' demo_message = ''W1AW>APRS,qAR,GATE:!''"
    by (simp add: server_line_def radio_addrs_def vias_text_def demo_message_def demo_message_text)
  ultimately show ?thesis by (simp only: list.map filter.simps demo_message_ok(2) if_True)
qed

end
